theory Spec2Isabelle
  imports Complex_Main "HOL-Library.Multiset"
begin

section \<open>CRID materialization (materialize\_crid.py)\<close>

text \<open>
  The program is one SQL statement, built and run by \<^verbatim>\<open>materialize_crid\<close>, and the
  Python driver \<^verbatim>\<open>main\<close> around it. Every common table expression of the statement
  is a function from rows to rows of the same name. Conventions of the embedding:
  \<^item> a table or an intermediate relation is a list of records (the order of the list has
    no meaning; duplicates are kept, as SQL keeps them);
  \<^item> a nullable column is an \<open>option\<close>, \<open>None\<close> being NULL; SQL's three-valued
    conditions are \<open>bool option\<close> and a \<^verbatim>\<open>CASE WHEN\<close> branch is taken only on \<open>Some True\<close>;
  \<^item> NUMERIC values inside the statement are exact reals; the INSERT rounds each value to
    the scale of its target column (\<^verbatim>\<open>NUMERIC(12,6)\<close>, \<^verbatim>\<open>NUMERIC(5,2)\<close>) and raises
    when the rounded value does not fit the column;
  \<^item> \<^verbatim>\<open>extract_id\<close> is a year-month key such as 202401; the statement orders by
    \<^verbatim>\<open>extract_id::int\<close>, and the model holds that integer;
  \<^item> the key columns \<^verbatim>\<open>ccn, extract_id, as_of_date, state\<close> are \<^verbatim>\<open>NOT NULL\<close> in the
    target table and are not nullable in the model.
\<close>

subsection \<open>SQL values and operators\<close>

datatype error =
    ArgparseError
  | ValueError
  | DivisionByZero
  | UniqueViolation
  | UndefinedTable
  | NumericValueOutOfRange

definition sql_and :: "bool option \<Rightarrow> bool option \<Rightarrow> bool option" where
  "sql_and a b =
     (if a = Some False \<or> b = Some False then Some False
      else if a = Some True \<and> b = Some True then Some True
      else None)"

definition sql_gt :: "('a::linorder) option \<Rightarrow> 'a option \<Rightarrow> bool option" where
  "sql_gt a b = (case a of None \<Rightarrow> None | Some x \<Rightarrow> (case b of None \<Rightarrow> None | Some y \<Rightarrow> Some (y < x)))"

definition sql_lt :: "('a::linorder) option \<Rightarrow> 'a option \<Rightarrow> bool option" where
  "sql_lt a b = (case a of None \<Rightarrow> None | Some x \<Rightarrow> (case b of None \<Rightarrow> None | Some y \<Rightarrow> Some (x < y)))"

definition sql_ge :: "('a::linorder) option \<Rightarrow> 'a option \<Rightarrow> bool option" where
  "sql_ge a b = (case a of None \<Rightarrow> None | Some x \<Rightarrow> (case b of None \<Rightarrow> None | Some y \<Rightarrow> Some (y \<le> x)))"

definition sql_add :: "real option \<Rightarrow> real option \<Rightarrow> real option" where
  "sql_add a b = (case a of None \<Rightarrow> None | Some x \<Rightarrow> (case b of None \<Rightarrow> None | Some y \<Rightarrow> Some (x + y)))"

definition sql_sub :: "real option \<Rightarrow> real option \<Rightarrow> real option" where
  "sql_sub a b = (case a of None \<Rightarrow> None | Some x \<Rightarrow> (case b of None \<Rightarrow> None | Some y \<Rightarrow> Some (x - y)))"

definition sql_mul :: "real option \<Rightarrow> real option \<Rightarrow> real option" where
  "sql_mul a b = (case a of None \<Rightarrow> None | Some x \<Rightarrow> (case b of None \<Rightarrow> None | Some y \<Rightarrow> Some (x * y)))"

text \<open>Division is the one operator of the statement that can fail: a zero divisor raises.\<close>

definition sql_div :: "real option \<Rightarrow> real option \<Rightarrow> error + real option" where
  "sql_div a b =
     (case a of None \<Rightarrow> Inr None
      | Some x \<Rightarrow> (case b of None \<Rightarrow> Inr None
                   | Some y \<Rightarrow> if y = 0 then Inl DivisionByZero else Inr (Some (x / y))))"

definition sql_abs :: "real option \<Rightarrow> real option" where
  "sql_abs a = map_option abs a"

text \<open>\<^verbatim>\<open>CASE WHEN c THEN v END\<close>: NULL unless the condition is true.\<close>

definition case_when :: "bool option \<Rightarrow> 'a \<Rightarrow> 'a option" where
  "case_when c v = (if c = Some True then Some v else None)"

text \<open>\<^verbatim>\<open>ARRAY_REMOVE(arr, NULL)\<close>.\<close>

fun array_remove_null :: "'a option list \<Rightarrow> 'a list" where
  "array_remove_null [] = []"
| "array_remove_null (None # xs) = array_remove_null xs"
| "array_remove_null (Some x # xs) = x # array_remove_null xs"

text \<open>\<^verbatim>\<open>ROUND(x, n)\<close> on NUMERIC rounds half away from zero.\<close>

definition sql_round :: "real \<Rightarrow> nat \<Rightarrow> real" where
  "sql_round x n = sgn x * of_int \<lfloor>\<bar>x\<bar> * 10 ^ n + 1 / 2\<rfloor> / 10 ^ n"

subsection \<open>Aggregates\<close>

text \<open>Aggregates skip NULL inputs; over no non-NULL input they are NULL.\<close>

fun sql_max :: "('a::linorder) option list \<Rightarrow> 'a option" where
  "sql_max [] = None"
| "sql_max (None # xs) = sql_max xs"
| "sql_max (Some x # xs) = (case sql_max xs of None \<Rightarrow> Some x | Some m \<Rightarrow> Some (max x m))"

definition avg :: "real list \<Rightarrow> real" where
  "avg vs = sum_list vs / real (length vs)"

definition stddev_pop :: "real list \<Rightarrow> real" where
  "stddev_pop vs = sqrt (sum_list (map (\<lambda>x. (x - avg vs)\<^sup>2) vs) / real (length vs))"

definition sql_avg :: "real option list \<Rightarrow> real option" where
  "sql_avg xs = (let vs = array_remove_null xs in if vs = [] then None else Some (avg vs))"

definition sql_stddev_pop :: "real option list \<Rightarrow> real option" where
  "sql_stddev_pop xs = (let vs = array_remove_null xs in if vs = [] then None else Some (stddev_pop vs))"

text \<open>
  \<^verbatim>\<open>MAX(CASE WHEN ... THEN 1 ELSE 0 END)\<close> over a group: the inputs are never NULL and a
  group is never empty, so the maximum of the 0/1 values is 1 exactly when one of them is.
\<close>

definition max_flag :: "int list \<Rightarrow> int" where
  "max_flag xs = foldr max xs 0"

subsection \<open>GROUP BY and LEFT JOIN\<close>

definition group_by :: "('a \<Rightarrow> 'k) \<Rightarrow> 'a list \<Rightarrow> ('k \<times> 'a list) list" where
  "group_by key xs = map (\<lambda>k. (k, filter (\<lambda>x. key x = k) xs)) (remdups (map key xs))"

definition left_join :: "('a \<Rightarrow> 'b \<Rightarrow> bool) \<Rightarrow> 'a list \<Rightarrow> 'b list \<Rightarrow> ('a \<times> 'b option) list" where
  "left_join on xs ys =
     concat (map (\<lambda>x. case filter (on x) ys of
                          [] \<Rightarrow> [(x, None)]
                        | ms \<Rightarrow> map (\<lambda>y. (x, Some y)) ms) xs)"

fun mapM :: "('a \<Rightarrow> error + 'b) \<Rightarrow> 'a list \<Rightarrow> error + 'b list" where
  "mapM f [] = Inr []"
| "mapM f (x # xs) =
     (case f x of Inl e \<Rightarrow> Inl e
      | Inr y \<Rightarrow> (case mapM f xs of Inl e \<Rightarrow> Inl e | Inr ys \<Rightarrow> Inr (y # ys)))"

subsection \<open>Source tables\<close>

record nh_quality_mds =
  m_ccn :: string
  m_extract_id :: int
  m_as_of_date :: string
  m_state :: string
  m_measure_code :: string
  m_four_quarter_avg :: "real option"
  m_has_suppression :: "bool option"

record nh_quality_claims =
  c_ccn :: string
  c_extract_id :: int
  c_measure_code :: string
  c_adjusted_score :: "real option"
  c_has_suppression :: "bool option"

record nh_measure_definitions =
  d_measure_code :: string
  d_crid_weight :: "real option"
  d_crid_component :: string
  d_used_in_crid :: "bool option"

subsection \<open>measure\_weights and weight\_values\<close>

definition measure_weights :: "nh_measure_definitions list \<Rightarrow> nh_measure_definitions list" where
  "measure_weights defs = filter (\<lambda>d. d_used_in_crid d = Some True) defs"

record weight_values_row =
  w_410 :: "real option"
  w_453 :: "real option"
  w_407 :: "real option"
  w_409 :: "real option"
  w_551 :: "real option"
  w_552 :: "real option"

definition weight_of :: "string \<Rightarrow> nh_measure_definitions list \<Rightarrow> real option" where
  "weight_of code mw =
     sql_max (map (\<lambda>d. if d_measure_code d = code then d_crid_weight d else None) mw)"

text \<open>An aggregate without GROUP BY: always exactly one row.\<close>

definition weight_values :: "nh_measure_definitions list \<Rightarrow> weight_values_row" where
  "weight_values mw =
     \<lparr> w_410 = weight_of ''410'' mw, w_453 = weight_of ''453'' mw,
       w_407 = weight_of ''407'' mw, w_409 = weight_of ''409'' mw,
       w_551 = weight_of ''551'' mw, w_552 = weight_of ''552'' mw \<rparr>"

subsection \<open>mds\_base and claims\_base\<close>

record mds_base_row =
  b_ccn :: string
  b_extract_id :: int
  b_as_of_date :: string
  b_state :: string
  b_measure_410 :: "real option"
  b_measure_453 :: "real option"
  b_measure_407 :: "real option"
  b_measure_409 :: "real option"
  b_sup_410 :: int
  b_sup_453 :: int
  b_sup_407 :: int
  b_sup_409 :: int

definition mds_value :: "string \<Rightarrow> nh_quality_mds list \<Rightarrow> real option" where
  "mds_value code g =
     sql_max (map (\<lambda>m. if m_measure_code m = code then m_four_quarter_avg m else None) g)"

definition mds_sup :: "string \<Rightarrow> nh_quality_mds list \<Rightarrow> int" where
  "mds_sup code g =
     max_flag (map (\<lambda>m. if m_measure_code m = code \<and> m_has_suppression m = Some True then 1 else 0) g)"

definition mds_base :: "nh_quality_mds list \<Rightarrow> mds_base_row list" where
  "mds_base mds =
     map (\<lambda>((c, e, d, s), g).
            \<lparr> b_ccn = c, b_extract_id = e, b_as_of_date = d, b_state = s,
              b_measure_410 = mds_value ''410'' g, b_measure_453 = mds_value ''453'' g,
              b_measure_407 = mds_value ''407'' g, b_measure_409 = mds_value ''409'' g,
              b_sup_410 = mds_sup ''410'' g, b_sup_453 = mds_sup ''453'' g,
              b_sup_407 = mds_sup ''407'' g, b_sup_409 = mds_sup ''409'' g \<rparr>)
         (group_by (\<lambda>m. (m_ccn m, m_extract_id m, m_as_of_date m, m_state m))
            (filter (\<lambda>m. m_measure_code m \<in> set [''410'', ''453'', ''407'', ''409'']) mds))"

record claims_base_row =
  cb_ccn :: string
  cb_extract_id :: int
  cb_measure_551 :: "real option"
  cb_measure_552 :: "real option"
  cb_sup_551 :: int
  cb_sup_552 :: int

definition claims_value :: "string \<Rightarrow> nh_quality_claims list \<Rightarrow> real option" where
  "claims_value code g =
     sql_max (map (\<lambda>c. if c_measure_code c = code then c_adjusted_score c else None) g)"

definition claims_sup :: "string \<Rightarrow> nh_quality_claims list \<Rightarrow> int" where
  "claims_sup code g =
     max_flag (map (\<lambda>c. if c_measure_code c = code \<and> c_has_suppression c = Some True then 1 else 0) g)"

definition claims_base :: "nh_quality_claims list \<Rightarrow> claims_base_row list" where
  "claims_base claims =
     map (\<lambda>((c, e), g).
            \<lparr> cb_ccn = c, cb_extract_id = e,
              cb_measure_551 = claims_value ''551'' g, cb_measure_552 = claims_value ''552'' g,
              cb_sup_551 = claims_sup ''551'' g, cb_sup_552 = claims_sup ''552'' g \<rparr>)
         (group_by (\<lambda>c. (c_ccn c, c_extract_id c))
            (filter (\<lambda>c. c_measure_code c \<in> set [''551'', ''552'']) claims))"

subsection \<open>all\_facilities\<close>

record facility =
  ccn :: string
  extract_id :: int
  as_of_date :: string
  state :: string
  measure_410 :: "real option"
  measure_453 :: "real option"
  measure_407 :: "real option"
  measure_409 :: "real option"
  measure_551 :: "real option"
  measure_552 :: "real option"
  measures_present :: int
  measures_suppressed :: int
  is_complete :: bool

text \<open>
  Columns of the nullable side of the LEFT JOIN: \<^verbatim>\<open>c.measure_551\<close> is NULL when no
  claims row matched, \<^verbatim>\<open>COALESCE(c.sup_551, 0)\<close> is 0 then.
\<close>

definition c_measure_551 :: "claims_base_row option \<Rightarrow> real option" where
  "c_measure_551 c = (case c of None \<Rightarrow> None | Some r \<Rightarrow> cb_measure_551 r)"

definition c_measure_552 :: "claims_base_row option \<Rightarrow> real option" where
  "c_measure_552 c = (case c of None \<Rightarrow> None | Some r \<Rightarrow> cb_measure_552 r)"

definition coalesce_sup_551 :: "claims_base_row option \<Rightarrow> int" where
  "coalesce_sup_551 c = (case c of None \<Rightarrow> 0 | Some r \<Rightarrow> cb_sup_551 r)"

definition coalesce_sup_552 :: "claims_base_row option \<Rightarrow> int" where
  "coalesce_sup_552 c = (case c of None \<Rightarrow> 0 | Some r \<Rightarrow> cb_sup_552 r)"

definition all_facilities_row :: "mds_base_row \<times> claims_base_row option \<Rightarrow> facility" where
  "all_facilities_row = (\<lambda>(m, c).
     \<lparr> ccn = b_ccn m, extract_id = b_extract_id m, as_of_date = b_as_of_date m,
       state = b_state m,
       measure_410 = b_measure_410 m, measure_453 = b_measure_453 m,
       measure_407 = b_measure_407 m, measure_409 = b_measure_409 m,
       measure_551 = c_measure_551 c, measure_552 = c_measure_552 c,
       measures_present =
         (if b_measure_410 m \<noteq> None \<and> b_sup_410 m = 0 then 1 else 0) +
         (if b_measure_453 m \<noteq> None \<and> b_sup_453 m = 0 then 1 else 0) +
         (if b_measure_407 m \<noteq> None \<and> b_sup_407 m = 0 then 1 else 0) +
         (if b_measure_409 m \<noteq> None \<and> b_sup_409 m = 0 then 1 else 0) +
         (if c_measure_551 c \<noteq> None \<and> coalesce_sup_551 c = 0 then 1 else 0) +
         (if c_measure_552 c \<noteq> None \<and> coalesce_sup_552 c = 0 then 1 else 0),
       measures_suppressed =
         b_sup_410 m + b_sup_453 m + b_sup_407 m + b_sup_409 m +
         coalesce_sup_551 c + coalesce_sup_552 c,
       is_complete =
         (b_measure_410 m \<noteq> None \<and> b_sup_410 m = 0
          \<and> b_measure_453 m \<noteq> None \<and> b_sup_453 m = 0
          \<and> b_measure_407 m \<noteq> None \<and> b_sup_407 m = 0
          \<and> b_measure_409 m \<noteq> None \<and> b_sup_409 m = 0
          \<and> c_measure_551 c \<noteq> None \<and> coalesce_sup_551 c = 0
          \<and> c_measure_552 c \<noteq> None \<and> coalesce_sup_552 c = 0) \<rparr>)"

text \<open>\<^verbatim>\<open>FROM mds_base m LEFT JOIN claims_base c ON m.ccn = c.ccn AND m.extract_id = c.extract_id\<close>\<close>

definition facility_join ::
  "mds_base_row list \<Rightarrow> claims_base_row list \<Rightarrow> (mds_base_row \<times> claims_base_row option) list" where
  "facility_join ms cs =
     left_join (\<lambda>m c. b_ccn m = cb_ccn c \<and> b_extract_id m = cb_extract_id c) ms cs"

definition all_facilities :: "mds_base_row list \<Rightarrow> claims_base_row list \<Rightarrow> facility list" where
  "all_facilities ms cs = map all_facilities_row (facility_join ms cs)"

subsection \<open>with\_composites\<close>

record composite_row = facility +
  completeness_pct :: real
  mds_composite :: "real option"
  claims_utilization :: "real option"

text \<open>
  \<^verbatim>\<open>CROSS JOIN weight_values w\<close> pairs every facility row with the single weight row.
\<close>

definition with_composites_row :: "weight_values_row \<Rightarrow> facility \<Rightarrow> composite_row" where
  "with_composites_row w f =
     \<lparr> ccn = ccn f, extract_id = extract_id f, as_of_date = as_of_date f, state = state f,
       measure_410 = measure_410 f, measure_453 = measure_453 f,
       measure_407 = measure_407 f, measure_409 = measure_409 f,
       measure_551 = measure_551 f, measure_552 = measure_552 f,
       measures_present = measures_present f,
       measures_suppressed = measures_suppressed f,
       is_complete = is_complete f,
       completeness_pct = sql_round (of_int (measures_present f) * 100 / 6) 2,
       mds_composite =
         (if is_complete f then
            sql_add (sql_add (sql_add (sql_mul (w_410 w) (measure_410 f))
                                      (sql_mul (w_453 w) (measure_453 f)))
                             (sql_mul (w_407 w) (measure_407 f)))
                    (sql_mul (w_409 w) (measure_409 f))
          else None),
       claims_utilization =
         (if is_complete f then
            sql_add (sql_mul (w_551 w) (measure_551 f)) (sql_mul (w_552 w) (measure_552 f))
          else None) \<rparr>"

definition with_composites :: "weight_values_row \<Rightarrow> facility list \<Rightarrow> composite_row list" where
  "with_composites w fs = map (with_composites_row w) fs"

subsection \<open>state\_stats\<close>

record state_stats_row =
  s_state :: string
  s_extract_id :: int
  s_facility_count :: int
  s_mds_mean :: "real option"
  s_mds_stddev :: "real option"
  s_claims_mean :: "real option"
  s_claims_stddev :: "real option"

definition state_stats_row_of :: "string \<Rightarrow> int \<Rightarrow> composite_row list \<Rightarrow> state_stats_row" where
  "state_stats_row_of s e g =
     \<lparr> s_state = s, s_extract_id = e,
       s_facility_count = int (length g),
       s_mds_mean = sql_avg (map mds_composite g),
       s_mds_stddev = sql_stddev_pop (map mds_composite g),
       s_claims_mean = sql_avg (map claims_utilization g),
       s_claims_stddev = sql_stddev_pop (map claims_utilization g) \<rparr>"

definition state_stats :: "composite_row list \<Rightarrow> state_stats_row list" where
  "state_stats comps =
     map (\<lambda>((s, e), g). state_stats_row_of s e g)
         (group_by (\<lambda>f. (state f, extract_id f)) (filter is_complete comps))"

subsection \<open>with\_z\_scores\<close>

record z_row = composite_row +
  state_facility_count :: "int option"
  state_mds_mean :: "real option"
  state_mds_stddev :: "real option"
  state_claims_mean :: "real option"
  state_claims_stddev :: "real option"
  is_small_state :: bool
  mds_z_score :: "real option"
  claims_z_score :: "real option"

text \<open>
  \<^verbatim>\<open>CASE WHEN f.is_complete AND s.facility_count >= 10 AND s.stddev > 0
       THEN (composite - s.mean) / s.stddev ELSE NULL END\<close>
\<close>

definition z_score_expr ::
  "bool \<Rightarrow> int option \<Rightarrow> real option \<Rightarrow> real option \<Rightarrow> real option \<Rightarrow> error + real option" where
  "z_score_expr is_compl cnt sd composite mu =
     (if sql_and (sql_and (Some is_compl) (sql_ge cnt (Some 10))) (sql_gt sd (Some 0)) = Some True
      then sql_div (sql_sub composite mu) sd
      else Inr None)"

definition coalesce_count :: "int option \<Rightarrow> int" where
  "coalesce_count c = (case c of None \<Rightarrow> 0 | Some n \<Rightarrow> n)"

definition with_z_scores_row :: "composite_row \<times> state_stats_row option \<Rightarrow> error + z_row" where
  "with_z_scores_row = (\<lambda>(f, s).
     let cnt = map_option s_facility_count s;
         mmean = Option.bind s s_mds_mean; msd = Option.bind s s_mds_stddev;
         cmean = Option.bind s s_claims_mean; csd = Option.bind s s_claims_stddev
     in case z_score_expr (is_complete f) cnt msd (mds_composite f) mmean of
          Inl e \<Rightarrow> Inl e
        | Inr mz \<Rightarrow>
           (case z_score_expr (is_complete f) cnt csd (claims_utilization f) cmean of
              Inl e \<Rightarrow> Inl e
            | Inr cz \<Rightarrow>
               Inr \<lparr> ccn = ccn f, extract_id = extract_id f, as_of_date = as_of_date f,
                     state = state f,
                     measure_410 = measure_410 f, measure_453 = measure_453 f,
                     measure_407 = measure_407 f, measure_409 = measure_409 f,
                     measure_551 = measure_551 f, measure_552 = measure_552 f,
                     measures_present = measures_present f,
                     measures_suppressed = measures_suppressed f,
                     is_complete = is_complete f,
                     completeness_pct = completeness_pct f,
                     mds_composite = mds_composite f,
                     claims_utilization = claims_utilization f,
                     state_facility_count = cnt,
                     state_mds_mean = mmean, state_mds_stddev = msd,
                     state_claims_mean = cmean, state_claims_stddev = csd,
                     is_small_state = (coalesce_count cnt < 10),
                     mds_z_score = mz, claims_z_score = cz \<rparr>))"

definition with_z_scores :: "composite_row list \<Rightarrow> state_stats_row list \<Rightarrow> error + z_row list" where
  "with_z_scores comps stats =
     mapM with_z_scores_row
       (left_join (\<lambda>f s. state f = s_state s \<and> extract_id f = s_extract_id s) comps stats)"

subsection \<open>with\_crid\<close>

record crid_row = z_row +
  crid_value :: "real option"
  crid_volatility :: "real option"

text \<open>
  \<^verbatim>\<open>CASE WHEN mds_z_score IS NOT NULL AND claims_z_score IS NOT NULL
       THEN (mds_z_score - claims_z_score) ELSE NULL END\<close>
\<close>

definition crid_expr :: "z_row \<Rightarrow> real option" where
  "crid_expr r =
     (if mds_z_score r \<noteq> None \<and> claims_z_score r \<noteq> None
      then sql_sub (mds_z_score r) (claims_z_score r) else None)"

text \<open>
  The window \<^verbatim>\<open>PARTITION BY ccn ORDER BY extract_id::int ROWS BETWEEN p PRECEDING AND
  CURRENT ROW\<close>: the rows of the current row's partition are put in order, and the frame
  runs from \<open>p\<close> rows before the current row's position up to that position. Rows with
  equal sort keys inside one partition have no defined order in SQL; such rows share
  \<^verbatim>\<open>(ccn, extract_id)\<close> and the INSERT then fails on the unique constraint.
\<close>

fun row_position :: "'a \<Rightarrow> 'a list \<Rightarrow> nat" where
  "row_position r [] = 0"
| "row_position r (x # xs) = (if x = r then 0 else Suc (row_position r xs))"

definition window_frame :: "nat \<Rightarrow> z_row list \<Rightarrow> z_row \<Rightarrow> z_row list" where
  "window_frame p rows r =
     (let ordered = sort_key extract_id (filter (\<lambda>x. ccn x = ccn r) rows);
          i = row_position r ordered
      in drop (i - p) (take (Suc i) ordered))"

definition with_crid_row :: "nat \<Rightarrow> z_row list \<Rightarrow> z_row \<Rightarrow> crid_row" where
  "with_crid_row p rows r =
     \<lparr> ccn = ccn r, extract_id = extract_id r, as_of_date = as_of_date r, state = state r,
       measure_410 = measure_410 r, measure_453 = measure_453 r,
       measure_407 = measure_407 r, measure_409 = measure_409 r,
       measure_551 = measure_551 r, measure_552 = measure_552 r,
       measures_present = measures_present r,
       measures_suppressed = measures_suppressed r,
       is_complete = is_complete r,
       completeness_pct = completeness_pct r,
       mds_composite = mds_composite r,
       claims_utilization = claims_utilization r,
       state_facility_count = state_facility_count r,
       state_mds_mean = state_mds_mean r, state_mds_stddev = state_mds_stddev r,
       state_claims_mean = state_claims_mean r, state_claims_stddev = state_claims_stddev r,
       is_small_state = is_small_state r,
       mds_z_score = mds_z_score r, claims_z_score = claims_z_score r,
       crid_value = crid_expr r,
       crid_volatility =
         (if mds_z_score r \<noteq> None \<and> claims_z_score r \<noteq> None
          then sql_stddev_pop
                 (map (\<lambda>x. sql_sub (mds_z_score x) (claims_z_score x)) (window_frame p rows r))
          else None) \<rparr>"

definition with_crid :: "nat \<Rightarrow> z_row list \<Rightarrow> crid_row list" where
  "with_crid p rows = map (with_crid_row p rows) rows"

subsection \<open>The final SELECT: flags\<close>

record crid_monthly_row = crid_row +
  flags :: "string list"

definition flags_expr :: "'a crid_row_scheme \<Rightarrow> string list" where
  "flags_expr r =
     array_remove_null
       [ case_when (Some (\<not> is_complete r)) ''INCOMPLETE_MEASURES'',
         case_when (Some (is_small_state r)) ''SMALL_STATE'',
         case_when (sql_gt (crid_value r) (Some 2)) ''HIGH_POSITIVE_CRID'',
         case_when (sql_lt (crid_value r) (Some (- 2))) ''HIGH_NEGATIVE_CRID'',
         case_when (sql_gt (crid_value r) (Some 3)) ''EXTREME_POSITIVE_CRID'',
         case_when (sql_lt (crid_value r) (Some (- 3))) ''EXTREME_NEGATIVE_CRID'',
         case_when (sql_gt (crid_volatility r) (Some (3 / 2))) ''HIGH_VOLATILITY'',
         case_when (sql_and (sql_gt (sql_abs (mds_z_score r)) (Some 2))
                            (sql_lt (sql_abs (claims_z_score r)) (Some 1))) ''MDS_OUTLIER'',
         case_when (sql_and (sql_gt (sql_abs (claims_z_score r)) (Some 2))
                            (sql_lt (sql_abs (mds_z_score r)) (Some 1))) ''CLAIMS_OUTLIER'' ]"

text \<open>
  The row handed to the INSERT. The record keeps \<^verbatim>\<open>is_complete\<close> and
  \<^verbatim>\<open>is_small_state\<close> of \<^verbatim>\<open>with_crid\<close>, which the statement uses for the flags
  and does not store.
\<close>

definition final_select :: "crid_row \<Rightarrow> crid_monthly_row" where
  "final_select r =
     \<lparr> ccn = ccn r, extract_id = extract_id r, as_of_date = as_of_date r, state = state r,
       measure_410 = measure_410 r, measure_453 = measure_453 r,
       measure_407 = measure_407 r, measure_409 = measure_409 r,
       measure_551 = measure_551 r, measure_552 = measure_552 r,
       measures_present = measures_present r,
       measures_suppressed = measures_suppressed r,
       is_complete = is_complete r,
       completeness_pct = completeness_pct r,
       mds_composite = mds_composite r,
       claims_utilization = claims_utilization r,
       state_facility_count = state_facility_count r,
       state_mds_mean = state_mds_mean r, state_mds_stddev = state_mds_stddev r,
       state_claims_mean = state_claims_mean r, state_claims_stddev = state_claims_stddev r,
       is_small_state = is_small_state r,
       mds_z_score = mds_z_score r, claims_z_score = claims_z_score r,
       crid_value = crid_value r, crid_volatility = crid_volatility r,
       flags = flags_expr r \<rparr>"

subsection \<open>The statement\<close>

definition facility_rows ::
  "nh_quality_mds list \<Rightarrow> nh_quality_claims list \<Rightarrow> nh_measure_definitions list \<Rightarrow> composite_row list" where
  "facility_rows mds claims defs =
     with_composites (weight_values (measure_weights defs))
       (all_facilities (mds_base mds) (claims_base claims))"

definition materialize_sql ::
  "nat \<Rightarrow> nh_quality_mds list \<Rightarrow> nh_quality_claims list \<Rightarrow> nh_measure_definitions list
     \<Rightarrow> error + crid_monthly_row list" where
  "materialize_sql window_preceding mds claims defs =
     (let comps = facility_rows mds claims defs
      in case with_z_scores comps (state_stats comps) of
           Inl e \<Rightarrow> Inl e
         | Inr zs \<Rightarrow> Inr (map final_select (with_crid window_preceding zs)))"

subsection \<open>Storing a row\<close>

text \<open>
  The target columns of \<^verbatim>\<open>metrics.crid_monthly\<close>. A value written to a
  \<^verbatim>\<open>NUMERIC(p,s)\<close> column is rounded to \<open>s\<close> decimals and must then have at most
  \<open>p - s\<close> integer digits, or the INSERT raises \<^verbatim>\<open>numeric field overflow\<close>; an
  \<^verbatim>\<open>INTEGER\<close> column takes a 32-bit value. NULL fits every nullable column.
\<close>

definition fits_numeric :: "nat \<Rightarrow> nat \<Rightarrow> real \<Rightarrow> bool" where
  "fits_numeric p s x \<longleftrightarrow> \<bar>sql_round x s\<bar> < 10 ^ (p - s)"

definition fits_12_6 :: "real option \<Rightarrow> bool" where
  "fits_12_6 v = (case v of None \<Rightarrow> True | Some x \<Rightarrow> fits_numeric 12 6 x)"

definition round_12_6 :: "real option \<Rightarrow> real option" where
  "round_12_6 v = map_option (\<lambda>x. sql_round x 6) v"

definition fits_integer :: "int \<Rightarrow> bool" where
  "fits_integer n \<longleftrightarrow> - (2 ^ 31) \<le> n \<and> n < 2 ^ 31"

definition row_fits :: "crid_monthly_row \<Rightarrow> bool" where
  "row_fits r \<longleftrightarrow>
     fits_12_6 (mds_composite r) \<and> fits_12_6 (claims_utilization r) \<and>
     fits_12_6 (mds_z_score r) \<and> fits_12_6 (claims_z_score r) \<and>
     fits_12_6 (crid_value r) \<and> fits_12_6 (crid_volatility r) \<and>
     fits_numeric 5 2 (completeness_pct r) \<and>
     fits_integer (measures_present r) \<and> fits_integer (measures_suppressed r) \<and>
     fits_12_6 (measure_410 r) \<and> fits_12_6 (measure_453 r) \<and>
     fits_12_6 (measure_407 r) \<and> fits_12_6 (measure_409 r) \<and>
     fits_12_6 (measure_551 r) \<and> fits_12_6 (measure_552 r) \<and>
     (case state_facility_count r of None \<Rightarrow> True | Some n \<Rightarrow> fits_integer n) \<and>
     fits_12_6 (state_mds_mean r) \<and> fits_12_6 (state_mds_stddev r) \<and>
     fits_12_6 (state_claims_mean r) \<and> fits_12_6 (state_claims_stddev r)"

definition stored_row :: "crid_monthly_row \<Rightarrow> crid_monthly_row" where
  "stored_row r =
     r\<lparr> mds_composite := round_12_6 (mds_composite r),
        claims_utilization := round_12_6 (claims_utilization r),
        mds_z_score := round_12_6 (mds_z_score r),
        claims_z_score := round_12_6 (claims_z_score r),
        crid_value := round_12_6 (crid_value r),
        crid_volatility := round_12_6 (crid_volatility r),
        completeness_pct := sql_round (completeness_pct r) 2,
        measure_410 := round_12_6 (measure_410 r),
        measure_453 := round_12_6 (measure_453 r),
        measure_407 := round_12_6 (measure_407 r),
        measure_409 := round_12_6 (measure_409 r),
        measure_551 := round_12_6 (measure_551 r),
        measure_552 := round_12_6 (measure_552 r),
        state_mds_mean := round_12_6 (state_mds_mean r),
        state_mds_stddev := round_12_6 (state_mds_stddev r),
        state_claims_mean := round_12_6 (state_claims_mean r),
        state_claims_stddev := round_12_6 (state_claims_stddev r) \<rparr>"

definition insert_row :: "crid_monthly_row \<Rightarrow> error + crid_monthly_row" where
  "insert_row r = (if row_fits r then Inr (stored_row r) else Inl NumericValueOutOfRange)"

subsection \<open>The connection and the Python functions\<close>

text \<open>
  The connection: the three source tables and \<^verbatim>\<open>metrics.crid_monthly\<close>; a table that
  does not exist is \<open>None\<close>. The record holds committed state: a statement that raises
  leaves it as it was. What a statement does depends on this state only; a fault of the
  transport (the server going away) is not a function of it and is not modelled.
\<close>

record connection =
  gold_nh_quality_mds_table :: "nh_quality_mds list option"
  gold_nh_quality_claims_table :: "nh_quality_claims list option"
  gold_nh_measure_definitions_table :: "nh_measure_definitions list option"
  metrics_crid_monthly :: "crid_monthly_row list option"

text \<open>The rows of a source table (none while the table does not exist).\<close>

definition gold_nh_quality_mds :: "connection \<Rightarrow> nh_quality_mds list" where
  "gold_nh_quality_mds conn =
     (case gold_nh_quality_mds_table conn of None \<Rightarrow> [] | Some rows \<Rightarrow> rows)"

definition gold_nh_quality_claims :: "connection \<Rightarrow> nh_quality_claims list" where
  "gold_nh_quality_claims conn =
     (case gold_nh_quality_claims_table conn of None \<Rightarrow> [] | Some rows \<Rightarrow> rows)"

definition gold_nh_measure_definitions :: "connection \<Rightarrow> nh_measure_definitions list" where
  "gold_nh_measure_definitions conn =
     (case gold_nh_measure_definitions_table conn of None \<Rightarrow> [] | Some rows \<Rightarrow> rows)"

definition sources_exist :: "connection \<Rightarrow> bool" where
  "sources_exist conn \<longleftrightarrow>
     gold_nh_quality_mds_table conn \<noteq> None \<and> gold_nh_quality_claims_table conn \<noteq> None \<and>
     gold_nh_measure_definitions_table conn \<noteq> None"

definition create_schema :: "connection \<Rightarrow> connection" where
  "create_schema conn = conn"

definition drop_and_create_table :: "connection \<Rightarrow> connection" where
  "drop_and_create_table conn = conn\<lparr>metrics_crid_monthly := Some []\<rparr>"

definition create_indexes :: "connection \<Rightarrow> connection" where
  "create_indexes conn = conn"

definition crid_monthly_unique :: "crid_monthly_row list \<Rightarrow> bool" where
  "crid_monthly_unique rows = distinct (map (\<lambda>r. (ccn r, extract_id r)) rows)"

text \<open>
  \<^verbatim>\<open>materialize_crid\<close>: the guard on the window, then the one INSERT ... SELECT and the
  commit. The statement raises when a table it names does not exist, when a value does not
  fit its column, or when the rows break \<^verbatim>\<open>crid_monthly_unique\<close>; nothing is written then.
\<close>

definition materialize_crid :: "connection \<Rightarrow> int \<Rightarrow> connection \<times> (error + nat)" where
  "materialize_crid conn volatility_window =
     (if volatility_window \<notin> {3, 4} then (conn, Inl ValueError)
      else
        let window_preceding = volatility_window - 1 in
        case metrics_crid_monthly conn of
          None \<Rightarrow> (conn, Inl UndefinedTable)
        | Some old \<Rightarrow>
           if \<not> sources_exist conn then (conn, Inl UndefinedTable)
           else
             (case materialize_sql (nat window_preceding) (gold_nh_quality_mds conn)
                     (gold_nh_quality_claims conn) (gold_nh_measure_definitions conn) of
                Inl e \<Rightarrow> (conn, Inl e)
              | Inr rows \<Rightarrow>
                 (case mapM insert_row rows of
                    Inl e \<Rightarrow> (conn, Inl e)
                  | Inr stored \<Rightarrow>
                     if crid_monthly_unique (old @ stored)
                     then (conn\<lparr>metrics_crid_monthly := Some (old @ stored)\<rparr>,
                           Inr (length stored))
                     else (conn, Inl UniqueViolation))))"

text \<open>
  \<^verbatim>\<open>run_validation\<close> only reads: \<^verbatim>\<open>metrics.crid_monthly\<close> in its queries 1 to 6 and 8,
  \<^verbatim>\<open>gold.nh_measure_definitions\<close> in query 7.
\<close>

definition run_validation :: "connection \<Rightarrow> connection \<times> error option" where
  "run_validation conn =
     (conn, if metrics_crid_monthly conn = None \<or> gold_nh_measure_definitions_table conn = None
            then Some UndefinedTable else None)"

record args =
  validate :: bool
  dry_run :: bool
  volatility_window :: int

text \<open>
  \<^verbatim>\<open>main\<close>: \<^verbatim>\<open>parse_args\<close> rejects a \<^verbatim>\<open>--volatility-window\<close> outside
  \<^verbatim>\<open>choices=[3, 4]\<close> before the connection is opened; \<^verbatim>\<open>--dry-run\<close> prints a file and
  returns; otherwise the steps run in order, each committing on its own.
\<close>

definition main :: "args \<Rightarrow> connection \<Rightarrow> connection \<times> error option" where
  "main a conn =
     (if volatility_window a \<notin> set [3, 4] then (conn, Some ArgparseError)
      else if dry_run a then (conn, None)
      else if validate a then run_validation conn
      else
        let conn1 = create_schema conn;
            conn2 = drop_and_create_table conn1
        in case materialize_crid conn2 (volatility_window a) of
             (conn3, Inl e) \<Rightarrow> (conn3, Some e)
           | (conn3, Inr rows) \<Rightarrow> run_validation (create_indexes conn3))"

text \<open>
  Every step of a full run ends with \<^verbatim>\<open>conn.commit()\<close>. The states a full run commits,
  in order: after \<^verbatim>\<open>create_schema\<close>, after \<^verbatim>\<open>drop_and_create_table\<close>, and, when the
  INSERT did not raise, after \<^verbatim>\<open>materialize_crid\<close> and after \<^verbatim>\<open>create_indexes\<close>.
\<close>

definition main_commits :: "args \<Rightarrow> connection \<Rightarrow> connection list" where
  "main_commits a conn =
     (if volatility_window a \<notin> set [3, 4] \<or> dry_run a \<or> validate a then []
      else
        let conn1 = create_schema conn;
            conn2 = drop_and_create_table conn1
        in case materialize_crid conn2 (volatility_window a) of
             (conn3, Inl e) \<Rightarrow> [conn1, conn2]
           | (conn3, Inr rows) \<Rightarrow> [conn1, conn2, conn3, create_indexes conn3])"

section \<open>Specification-side notions\<close>

text \<open>
  The cohort of a (region, period): the facilities of that state and extract with
  \<^verbatim>\<open>is_complete = true\<close>.
\<close>

definition cohort :: "('a facility_scheme) list \<Rightarrow> string \<Rightarrow> int \<Rightarrow> ('a facility_scheme) list" where
  "cohort rows st e = filter (\<lambda>x. is_complete x \<and> state x = st \<and> extract_id x = e) rows"

text \<open>The \<^verbatim>\<open>state_stats\<close> row that the LEFT JOIN attaches to a facility row, if any.\<close>

definition stats_for :: "composite_row list \<Rightarrow> composite_row \<Rightarrow> state_stats_row option" where
  "stats_for comps f =
     (case cohort comps (state f) (extract_id f) of
        [] \<Rightarrow> None
      | g \<Rightarrow> Some (state_stats_row_of (state f) (extract_id f) g))"

definition z_of :: "composite_row list \<Rightarrow> composite_row \<Rightarrow> z_row" where
  "z_of comps f = projr (with_z_scores_row (f, stats_for comps f))"

text \<open>
  The gate of the score: the row is complete, its cohort has at least 10 facilities and
  both population standard deviations of the cohort are positive.
\<close>

definition cohort_gate :: "crid_monthly_row list \<Rightarrow> crid_monthly_row \<Rightarrow> bool" where
  "cohort_gate out r \<longleftrightarrow>
     is_complete r \<and>
     10 \<le> length (cohort out (state r) (extract_id r)) \<and>
     (\<exists>sd. sql_stddev_pop (map mds_composite (cohort out (state r) (extract_id r))) = Some sd \<and> 0 < sd) \<and>
     (\<exists>sd. sql_stddev_pop (map claims_utilization (cohort out (state r) (extract_id r))) = Some sd \<and> 0 < sd)"

text \<open>
  The six (value, suppressed) columns of a joined row of \<^verbatim>\<open>mds_base\<close> and
  \<^verbatim>\<open>claims_base\<close>, in the order 410, 453, 407, 409, 551, 552, and the two counts over
  them: an intermediate form used in the proofs about completeness.
\<close>

definition measure_pairs :: "mds_base_row \<times> claims_base_row option \<Rightarrow> (real option \<times> int) list" where
  "measure_pairs = (\<lambda>(m, c).
     [(b_measure_410 m, b_sup_410 m), (b_measure_453 m, b_sup_453 m),
      (b_measure_407 m, b_sup_407 m), (b_measure_409 m, b_sup_409 m),
      (c_measure_551 c, coalesce_sup_551 c), (c_measure_552 c, coalesce_sup_552 c)])"

definition count_present :: "(real option \<times> int) list \<Rightarrow> int" where
  "count_present ps = int (length (filter (\<lambda>(v, s). v \<noteq> None \<and> s = 0) ps))"

definition count_suppressed :: "(real option \<times> int) list \<Rightarrow> int" where
  "count_suppressed ps = int (length (filter (\<lambda>(v, s). s = 1) ps))"

section \<open>A worked example: one state, one extract, ten complete facilities\<close>

text \<open>
  Ten facilities of state 01 in extract 202401, every measure present and unsuppressed, all
  weights 1. The quality composites are 6, 4, 10, 0, 8, 2, 6, 4, 8, 2 (mean 5, population
  standard deviation 3), the utilization composites mirror them.
\<close>

definition ex_mds_rows :: "string \<Rightarrow> real \<Rightarrow> nh_quality_mds list" where
  "ex_mds_rows c v =
     map (\<lambda>(code, x). \<lparr> m_ccn = c, m_extract_id = 202401, m_as_of_date = ''2024-01-01'',
                         m_state = ''01'', m_measure_code = code,
                         m_four_quarter_avg = Some x, m_has_suppression = Some False \<rparr>)
         [(''410'', v), (''453'', 0), (''407'', 0), (''409'', 0)]"

definition ex_claims_rows :: "string \<Rightarrow> real \<Rightarrow> nh_quality_claims list" where
  "ex_claims_rows c v =
     map (\<lambda>(code, x). \<lparr> c_ccn = c, c_extract_id = 202401, c_measure_code = code,
                         c_adjusted_score = Some x, c_has_suppression = Some False \<rparr>)
         [(''551'', v), (''552'', 0)]"

definition ex_facilities :: "(string \<times> real \<times> real) list" where
  "ex_facilities =
     [(''010001'', 6, 4), (''010002'', 4, 6), (''010003'', 10, 0), (''010004'', 0, 10),
      (''010005'', 8, 2), (''010006'', 2, 8), (''010007'', 6, 4), (''010008'', 4, 6),
      (''010009'', 8, 2), (''010010'', 2, 8)]"

definition ex_mds :: "nh_quality_mds list" where
  "ex_mds = concat (map (\<lambda>(c, q, u). ex_mds_rows c q) ex_facilities)"

definition ex_claims :: "nh_quality_claims list" where
  "ex_claims = concat (map (\<lambda>(c, q, u). ex_claims_rows c u) ex_facilities)"

definition ex_defs :: "nh_measure_definitions list" where
  "ex_defs =
     map (\<lambda>(code, fam). \<lparr> d_measure_code = code, d_crid_weight = Some 1,
                          d_crid_component = fam, d_used_in_crid = Some True \<rparr>)
         [(''410'', ''MDS''), (''453'', ''MDS''), (''407'', ''MDS''), (''409'', ''MDS''),
          (''551'', ''CLAIMS''), (''552'', ''CLAIMS'')]"

definition ex_fac :: "string \<Rightarrow> real \<Rightarrow> real \<Rightarrow> composite_row" where
  "ex_fac c q u =
     \<lparr> ccn = c, extract_id = 202401, as_of_date = ''2024-01-01'', state = ''01'',
       measure_410 = Some q, measure_453 = Some 0, measure_407 = Some 0, measure_409 = Some 0,
       measure_551 = Some u, measure_552 = Some 0,
       measures_present = 6, measures_suppressed = 0, is_complete = True,
       completeness_pct = 100, mds_composite = Some q, claims_utilization = Some u \<rparr>"

definition ex_comps :: "composite_row list" where
  "ex_comps = map (\<lambda>(c, q, u). ex_fac c q u) ex_facilities"

text \<open>A facility with the four quality measures and only measure 551 of the two utilization measures.\<close>

definition ex4_mds :: "nh_quality_mds list" where
  "ex4_mds = ex_mds_rows ''015009'' 6"

definition ex4_claims :: "nh_quality_claims list" where
  "ex4_claims =
     [\<lparr> c_ccn = ''015009'', c_extract_id = 202401, c_measure_code = ''551'',
        c_adjusted_score = Some 4, c_has_suppression = Some False \<rparr>]"

section \<open>Inputs of the driver used in examples\<close>

definition empty_conn :: connection where
  "empty_conn = \<lparr> gold_nh_quality_mds_table = Some [], gold_nh_quality_claims_table = Some [],
                  gold_nh_measure_definitions_table = Some [], metrics_crid_monthly = None \<rparr>"

definition full_run :: "int \<Rightarrow> args" where
  "full_run W = \<lparr> validate = False, dry_run = False, volatility_window = W \<rparr>"

text \<open>A row of \<^verbatim>\<open>with_crid\<close> with a given \<^verbatim>\<open>crid_value\<close>, for the flag thresholds.\<close>

definition ex_flag_row :: "real option \<Rightarrow> crid_row" where
  "ex_flag_row v =
     \<lparr> ccn = ''010001'', extract_id = 202401, as_of_date = ''2024-01-01'', state = ''01'',
       measure_410 = None, measure_453 = None, measure_407 = None, measure_409 = None,
       measure_551 = None, measure_552 = None,
       measures_present = 6, measures_suppressed = 0, is_complete = True,
       completeness_pct = 100, mds_composite = None, claims_utilization = None,
       state_facility_count = Some 10,
       state_mds_mean = None, state_mds_stddev = None,
       state_claims_mean = None, state_claims_stddev = None,
       is_small_state = False,
       mds_z_score = None, claims_z_score = None,
       crid_value = v, crid_volatility = None \<rparr>"

text \<open>
  Weight tables that lack the definition of measure 410, or define it twice, and a connection
  holding one complete facility and an empty output table.
\<close>

definition c7_missing_defs :: "nh_measure_definitions list" where
  "c7_missing_defs = tl ex_defs"

definition c7_duplicate_defs :: "nh_measure_definitions list" where
  "c7_duplicate_defs =
     \<lparr> d_measure_code = ''410'', d_crid_weight = Some 2,
       d_crid_component = ''MDS'', d_used_in_crid = Some True \<rparr> # ex_defs"

definition c7_conn :: "nh_measure_definitions list \<Rightarrow> connection" where
  "c7_conn defs = \<lparr> gold_nh_quality_mds_table = Some ex4_mds,
                     gold_nh_quality_claims_table = Some (ex_claims_rows ''015009'' 4),
                     gold_nh_measure_definitions_table = Some defs,
                     metrics_crid_monthly = Some [] \<rparr>"

definition table_rows :: "connection \<Rightarrow> crid_monthly_row list" where
  "table_rows conn = (case metrics_crid_monthly conn of None \<Rightarrow> [] | Some rows \<Rightarrow> rows)"

text \<open>
  A connection whose only observations are in the claims table.
\<close>

definition c6_conn :: connection where
  "c6_conn = \<lparr> gold_nh_quality_mds_table = Some [],
               gold_nh_quality_claims_table = Some (ex_claims_rows ''015009'' 4),
               gold_nh_measure_definitions_table = Some ex_defs,
               metrics_crid_monthly = Some [] \<rparr>"

text \<open>
  Databases for the atomicity examples. A fresh database holds one complete facility and no
  output table; a first full run on it leaves the prior output. Before the next run either
  the table \<^verbatim>\<open>gold.nh_measure_definitions\<close> is dropped, or the weight of measure 410 is
  set to 1000000, which makes the quality composite 6000000.
\<close>

definition c5_fresh_conn :: connection where
  "c5_fresh_conn = \<lparr> gold_nh_quality_mds_table = Some ex4_mds,
                     gold_nh_quality_claims_table = Some (ex_claims_rows ''015009'' 4),
                     gold_nh_measure_definitions_table = Some ex_defs,
                     metrics_crid_monthly = None \<rparr>"

definition c5_first_run :: connection where
  "c5_first_run = fst (main (full_run 3) c5_fresh_conn)"

definition c5_no_defs_conn :: connection where
  "c5_no_defs_conn = c5_first_run\<lparr>gold_nh_measure_definitions_table := None\<rparr>"

definition c5_big_defs :: "nh_measure_definitions list" where
  "c5_big_defs =
     \<lparr> d_measure_code = ''410'', d_crid_weight = Some 1000000,
       d_crid_component = ''MDS'', d_used_in_crid = Some True \<rparr> # tl ex_defs"

definition c5_overflow_conn :: connection where
  "c5_overflow_conn = c5_first_run\<lparr>gold_nh_measure_definitions_table := Some c5_big_defs\<rparr>"

definition quality_codes :: "string list" where
  "quality_codes = [''410'', ''453'', ''407'', ''409'']"

section \<open>The window of a row, as the specification words it\<close>

text \<open>
  The current row of a facility and its \<open>W - 1\<close> immediately preceding rows: the rows of
  the same facility that are not later than the current one and have fewer than \<open>W\<close> rows
  of that facility after them up to the current one.
\<close>

definition spec_window :: "nat \<Rightarrow> ('a facility_scheme) list \<Rightarrow> 'a facility_scheme \<Rightarrow> ('a facility_scheme) list" where
  "spec_window W out r =
     filter (\<lambda>x. ccn x = ccn r \<and> extract_id x \<le> extract_id r \<and>
                 length (filter (\<lambda>y. ccn y = ccn r \<and> extract_id x < extract_id y \<and>
                                      extract_id y \<le> extract_id r) out) < W) out"

section \<open>A facility history\<close>

text \<open>
  Three periods of one facility with scores 0.5, 1.0 and 1.5 (listed out of order), and the
  same history with the score of the middle period missing.
\<close>

definition ex_z_row :: "int \<Rightarrow> real option \<Rightarrow> z_row" where
  "ex_z_row e q =
     \<lparr> ccn = ''010001'', extract_id = e, as_of_date = ''2024-01-01'', state = ''01'',
       measure_410 = None, measure_453 = None, measure_407 = None, measure_409 = None,
       measure_551 = None, measure_552 = None,
       measures_present = 6, measures_suppressed = 0, is_complete = True,
       completeness_pct = 100, mds_composite = None, claims_utilization = None,
       state_facility_count = Some 10,
       state_mds_mean = None, state_mds_stddev = None,
       state_claims_mean = None, state_claims_stddev = None,
       is_small_state = False,
       mds_z_score = q, claims_z_score = Some 0 \<rparr>"

definition ex_history :: "z_row list" where
  "ex_history = [ex_z_row 202403 (Some (3 / 2)), ex_z_row 202401 (Some (1 / 2)),
                 ex_z_row 202402 (Some 1)]"

definition ex_history_gap :: "z_row list" where
  "ex_history_gap = [ex_z_row 202401 (Some (1 / 2)), ex_z_row 202402 None,
                     ex_z_row 202403 (Some (3 / 2))]"

text \<open>A bound on the magnitude of a nullable value.\<close>

definition bounded_by :: "real \<Rightarrow> real option \<Rightarrow> bool" where
  "bounded_by B v = (case v of None \<Rightarrow> True | Some x \<Rightarrow> \<bar>x\<bar> \<le> B)"

section \<open>Completeness, as the specification words it\<close>

text \<open>
  The measure observations of a facility-period, read from the two source tables: for each
  of the six measure codes, the (value, suppressed) pairs of the rows of that code whose key
  is the key of the output row (facility, period, date and state in the quality table;
  facility and period in the claims table). A measure has a value when one of its
  observations has a non-NULL value, and is suppressed when one of them is flagged.
\<close>

definition utilization_codes :: "string list" where
  "utilization_codes = [''551'', ''552'']"

definition crid_codes :: "string list" where
  "crid_codes = quality_codes @ utilization_codes"

definition observations ::
  "nh_quality_mds list \<Rightarrow> nh_quality_claims list \<Rightarrow> 'a facility_scheme \<Rightarrow> string
     \<Rightarrow> (real option \<times> bool option) list" where
  "observations mds claims r k =
     map (\<lambda>m. (m_four_quarter_avg m, m_has_suppression m))
       (filter (\<lambda>m. k \<in> set quality_codes \<and> m_measure_code m = k \<and>
                     m_ccn m = ccn r \<and> m_extract_id m = extract_id r \<and>
                     m_as_of_date m = as_of_date r \<and> m_state m = state r) mds) @
     map (\<lambda>c. (c_adjusted_score c, c_has_suppression c))
       (filter (\<lambda>c. k \<in> set utilization_codes \<and> c_measure_code c = k \<and>
                     c_ccn c = ccn r \<and> c_extract_id c = extract_id r) claims)"

definition has_value :: "(real option \<times> bool option) list \<Rightarrow> bool" where
  "has_value obs \<longleftrightarrow> (\<exists>ob\<in>set obs. fst ob \<noteq> None)"

definition flagged :: "(real option \<times> bool option) list \<Rightarrow> bool" where
  "flagged obs \<longleftrightarrow> (\<exists>ob\<in>set obs. snd ob = Some True)"

text \<open>
  The two counts as the specification words them: the codes with a value and no suppression,
  and the codes flagged suppressed whatever their value.
\<close>

definition spec_measures_present ::
  "nh_quality_mds list \<Rightarrow> nh_quality_claims list \<Rightarrow> 'a facility_scheme \<Rightarrow> int" where
  "spec_measures_present mds claims r =
     int (length (filter (\<lambda>k. has_value (observations mds claims r k) \<and>
                              \<not> flagged (observations mds claims r k)) crid_codes))"

definition spec_measures_suppressed ::
  "nh_quality_mds list \<Rightarrow> nh_quality_claims list \<Rightarrow> 'a facility_scheme \<Rightarrow> int" where
  "spec_measures_suppressed mds claims r =
     int (length (filter (\<lambda>k. flagged (observations mds claims r k)) crid_codes))"

text \<open>
  A facility with the four quality measures whose measure 551 has a value but is flagged
  suppressed.
\<close>

definition ex4_sup_claims :: "nh_quality_claims list" where
  "ex4_sup_claims =
     [\<lparr> c_ccn = ''015009'', c_extract_id = 202401, c_measure_code = ''551'',
        c_adjusted_score = Some 4, c_has_suppression = Some True \<rparr>,
      \<lparr> c_ccn = ''015009'', c_extract_id = 202401, c_measure_code = ''552'',
        c_adjusted_score = Some 0, c_has_suppression = Some False \<rparr>]"

section \<open>A second period for the worked example\<close>

text \<open>
  The ten facilities of the worked example in a second extract, 202402, with the values of
  facilities 010001 and 010005 exchanged: the cohort of the second extract has the same mean
  and standard deviation. Facility 010001 has the composites (6, 4) in the first extract and
  (8, 2) in the second. The database holds both extracts and no output table yet; the table
  is the one a full run with window 3 leaves.
\<close>

definition ex2_facilities :: "(string \<times> real \<times> real) list" where
  "ex2_facilities =
     [(''010001'', 8, 2), (''010002'', 4, 6), (''010003'', 10, 0), (''010004'', 0, 10),
      (''010005'', 6, 4), (''010006'', 2, 8), (''010007'', 6, 4), (''010008'', 4, 6),
      (''010009'', 8, 2), (''010010'', 2, 8)]"

definition next_mds_rows :: "string \<Rightarrow> real \<Rightarrow> nh_quality_mds list" where
  "next_mds_rows c v =
     map (\<lambda>m. m\<lparr>m_extract_id := 202402, m_as_of_date := ''2024-02-01''\<rparr>) (ex_mds_rows c v)"

definition next_claims_rows :: "string \<Rightarrow> real \<Rightarrow> nh_quality_claims list" where
  "next_claims_rows c v = map (\<lambda>x. x\<lparr>c_extract_id := 202402\<rparr>) (ex_claims_rows c v)"

definition ex2_mds :: "nh_quality_mds list" where
  "ex2_mds = ex_mds @ concat (map (\<lambda>(c, q, u). next_mds_rows c q) ex2_facilities)"

definition ex2_claims :: "nh_quality_claims list" where
  "ex2_claims = ex_claims @ concat (map (\<lambda>(c, q, u). next_claims_rows c u) ex2_facilities)"

definition next_fac :: "string \<Rightarrow> real \<Rightarrow> real \<Rightarrow> composite_row" where
  "next_fac c q u = (ex_fac c q u)\<lparr>extract_id := 202402, as_of_date := ''2024-02-01''\<rparr>"

definition next_comps :: "composite_row list" where
  "next_comps = map (\<lambda>(c, q, u). next_fac c q u) ex2_facilities"

definition ex2_comps :: "composite_row list" where
  "ex2_comps = ex_comps @ next_comps"

definition ex2_conn :: connection where
  "ex2_conn = \<lparr> gold_nh_quality_mds_table = Some ex2_mds,
                gold_nh_quality_claims_table = Some ex2_claims,
                gold_nh_measure_definitions_table = Some ex_defs,
                metrics_crid_monthly = None \<rparr>"

definition ex2_table :: "crid_monthly_row list" where
  "ex2_table = table_rows (fst (main (full_run 3) ex2_conn))"

definition ex2_mds_blocks :: "((string \<times> int \<times> string \<times> string) \<times> nh_quality_mds list) list" where
  "ex2_mds_blocks =
     map (\<lambda>(c, q, u). ((c, 202401, ''2024-01-01'', ''01''), ex_mds_rows c q)) ex_facilities @
     map (\<lambda>(c, q, u). ((c, 202402, ''2024-02-01'', ''01''), next_mds_rows c q)) ex2_facilities"

definition ex2_claims_blocks :: "((string \<times> int) \<times> nh_quality_claims list) list" where
  "ex2_claims_blocks =
     map (\<lambda>(c, q, u). ((c, 202401), ex_claims_rows c u)) ex_facilities @
     map (\<lambda>(c, q, u). ((c, 202402), next_claims_rows c u)) ex2_facilities"

section \<open>Properties\<close>

subsection \<open>GROUP BY, LEFT JOIN and the statistics joined to a row\<close>

lemma filter_eq_distinct:
  "distinct ks \<Longrightarrow> filter (\<lambda>k'. k' = k) ks = (if k \<in> set ks then [k] else [])"
  by (induction ks) auto

lemma filter_group_by:
  "filter (\<lambda>kg. fst kg = k) (group_by key xs) =
     (if k \<in> key ` set xs then [(k, filter (\<lambda>x. key x = k) xs)] else [])"
proof -
  have "filter (\<lambda>kg. fst kg = k) (group_by key xs) =
        map (\<lambda>k. (k, filter (\<lambda>x. key x = k) xs)) (filter (\<lambda>k'. k' = k) (remdups (map key xs)))"
    by (simp add: group_by_def filter_map o_def)
  then show ?thesis by (simp add: filter_eq_distinct)
qed

lemma left_join_unique:
  assumes "\<And>x. x \<in> set xs \<Longrightarrow> length (filter (on x) ys) \<le> 1"
  shows "left_join on xs ys =
           map (\<lambda>x. (x, case filter (on x) ys of [] \<Rightarrow> None | y # _ \<Rightarrow> Some y)) xs"
  using assms
proof (induction xs)
  case Nil
  then show ?case by (simp add: left_join_def)
next
  case (Cons x xs)
  have "length (filter (on x) ys) \<le> 1" using Cons.prems by simp
  then have one: "(case filter (on x) ys of [] \<Rightarrow> [(x, None)] | ms \<Rightarrow> map (\<lambda>y. (x, Some y)) ms)
                 = [(x, case filter (on x) ys of [] \<Rightarrow> None | y # _ \<Rightarrow> Some y)]"
    by (cases "filter (on x) ys") (auto split: list.splits)
  have "left_join on xs ys =
           map (\<lambda>x. (x, case filter (on x) ys of [] \<Rightarrow> None | y # _ \<Rightarrow> Some y)) xs"
    using Cons by simp
  then show ?case using one by (simp add: left_join_def)
qed

lemma mapM_total:
  assumes "\<And>x. x \<in> set xs \<Longrightarrow> f x = Inr (g x)"
  shows "mapM f xs = Inr (map g xs)"
  using assms by (induction xs) auto

lemma z_score_expr_total: "\<exists>v. z_score_expr c cnt sd cv mu = Inr v"
  by (auto simp: z_score_expr_def sql_and_def sql_ge_def sql_gt_def sql_div_def sql_sub_def
           split: option.splits)

lemma z_score_expr_Some:
  "z_score_expr c cnt sd cv mu = Inr (Some q) \<longleftrightarrow>
     c \<and> (\<exists>n. cnt = Some n \<and> 10 \<le> n) \<and>
     (\<exists>x m y. cv = Some x \<and> mu = Some m \<and> sd = Some y \<and> 0 < y \<and> q = (x - m) / y)"
  by (auto simp: z_score_expr_def sql_and_def sql_ge_def sql_gt_def sql_div_def sql_sub_def
           split: option.splits)

lemma state_stats_lookup:
  fixes f :: composite_row
  shows "filter (\<lambda>s. state f = s_state s \<and> extract_id f = s_extract_id s) (state_stats comps) =
     (case cohort comps (state f) (extract_id f) of
        [] \<Rightarrow> []
      | g \<Rightarrow> [state_stats_row_of (state f) (extract_id f) g])"
proof -
  let ?key = "\<lambda>x::composite_row. (state x, extract_id x)"
  let ?xs = "filter is_complete comps"
  let ?mk = "\<lambda>((s, e), g). state_stats_row_of s e g"
  have P: "(\<lambda>s. state f = s_state s \<and> extract_id f = s_extract_id s) \<circ> ?mk
           = (\<lambda>kg. fst kg = ?key f)"
    by (auto simp: fun_eq_iff state_stats_row_of_def)
  have "filter (\<lambda>s. state f = s_state s \<and> extract_id f = s_extract_id s) (state_stats comps)
        = map ?mk (filter (\<lambda>kg. fst kg = ?key f) (group_by ?key ?xs))"
    unfolding state_stats_def filter_map P ..
  also have "\<dots> = (if ?key f \<in> ?key ` set ?xs
                     then [state_stats_row_of (state f) (extract_id f) (filter (\<lambda>x. ?key x = ?key f) ?xs)]
                     else [])"
    by (simp add: filter_group_by)
  finally have step: "filter (\<lambda>s. state f = s_state s \<and> extract_id f = s_extract_id s) (state_stats comps)
        = (if ?key f \<in> ?key ` set ?xs
                     then [state_stats_row_of (state f) (extract_id f) (filter (\<lambda>x. ?key x = ?key f) ?xs)]
                     else [])" .
  have c: "filter (\<lambda>x. ?key x = ?key f) ?xs = cohort comps (state f) (extract_id f)"
    by (simp add: cohort_def conj_commute conj_left_commute)
  have m: "?key f \<in> ?key ` set ?xs \<longleftrightarrow> cohort comps (state f) (extract_id f) \<noteq> []"
    by (force simp: cohort_def filter_empty_conv image_iff)
  show ?thesis unfolding step c m by (simp split: list.splits)
qed

lemma state_stats_join:
  "left_join (\<lambda>f s. state f = s_state s \<and> extract_id f = s_extract_id s) comps (state_stats comps)
     = map (\<lambda>f. (f, stats_for comps f)) comps"
proof -
  have "left_join (\<lambda>f s. state f = s_state s \<and> extract_id f = s_extract_id s) comps (state_stats comps)
     = map (\<lambda>x. (x, case filter (\<lambda>s. state x = s_state s \<and> extract_id x = s_extract_id s) (state_stats comps) of [] \<Rightarrow> None | y # _ \<Rightarrow> Some y)) comps"
    by (rule left_join_unique) (simp add: state_stats_lookup split: list.splits)
  then show ?thesis
    by (simp add: state_stats_lookup stats_for_def split: list.splits cong: map_cong)
qed

lemma with_z_scores_row_Inr: "with_z_scores_row fs = Inr (projr (with_z_scores_row fs))"
proof (cases fs)
  case (Pair f s)
  obtain mz where mz: "z_score_expr (is_complete f) (map_option s_facility_count s)
       (Option.bind s s_mds_stddev) (mds_composite f) (Option.bind s s_mds_mean) = Inr mz"
    using z_score_expr_total by blast
  obtain cz where cz: "z_score_expr (is_complete f) (map_option s_facility_count s)
       (Option.bind s s_claims_stddev) (claims_utilization f) (Option.bind s s_claims_mean) = Inr cz"
    using z_score_expr_total by blast
  show ?thesis unfolding Pair by (simp add: with_z_scores_row_def Let_def mz cz)
qed

lemma with_z_scores_total:
  "with_z_scores comps (state_stats comps) = Inr (map (z_of comps) comps)"
  unfolding with_z_scores_def state_stats_join
  by (simp add: mapM_total [where g = "\<lambda>fs. projr (with_z_scores_row fs)"] with_z_scores_row_Inr [symmetric] z_of_def o_def)

lemma with_z_scores_row_fields:
  assumes "with_z_scores_row (f, s) = Inr z"
  shows "ccn z = ccn f" "extract_id z = extract_id f" "state z = state f"
    "as_of_date z = as_of_date f"
    "is_complete z = is_complete f" "mds_composite z = mds_composite f"
    "claims_utilization z = claims_utilization f"
    "measures_present z = measures_present f" "measures_suppressed z = measures_suppressed f"
    "completeness_pct z = completeness_pct f"
    "state_facility_count z = map_option s_facility_count s"
    "state_mds_mean z = Option.bind s s_mds_mean"
    "state_mds_stddev z = Option.bind s s_mds_stddev"
    "state_claims_mean z = Option.bind s s_claims_mean"
    "state_claims_stddev z = Option.bind s s_claims_stddev"
    "is_small_state z = (coalesce_count (map_option s_facility_count s) < 10)"
    "z_score_expr (is_complete f) (map_option s_facility_count s) (Option.bind s s_mds_stddev)
        (mds_composite f) (Option.bind s s_mds_mean) = Inr (mds_z_score z)"
    "z_score_expr (is_complete f) (map_option s_facility_count s) (Option.bind s s_claims_stddev)
        (claims_utilization f) (Option.bind s s_claims_mean) = Inr (claims_z_score z)"
    "measure_410 z = measure_410 f" "measure_453 z = measure_453 f" "measure_407 z = measure_407 f"
    "measure_409 z = measure_409 f" "measure_551 z = measure_551 f" "measure_552 z = measure_552 f"
  using assms by (auto simp: with_z_scores_row_def Let_def split: sum.splits)

lemma z_of_row: "with_z_scores_row (f, stats_for comps f) = Inr (z_of comps f)"
  unfolding z_of_def by (rule with_z_scores_row_Inr)

lemmas z_of_fields = with_z_scores_row_fields [OF z_of_row]

lemma stats_for_count:
  "map_option s_facility_count (stats_for comps f) =
     (if cohort comps (state f) (extract_id f) = [] then None
      else Some (int (length (cohort comps (state f) (extract_id f)))))"
  by (simp add: stats_for_def state_stats_row_of_def split: list.splits)

lemma stats_for_cols:
  "Option.bind (stats_for comps f) s_mds_mean = sql_avg (map mds_composite (cohort comps (state f) (extract_id f)))"
  "Option.bind (stats_for comps f) s_mds_stddev = sql_stddev_pop (map mds_composite (cohort comps (state f) (extract_id f)))"
  "Option.bind (stats_for comps f) s_claims_mean = sql_avg (map claims_utilization (cohort comps (state f) (extract_id f)))"
  "Option.bind (stats_for comps f) s_claims_stddev = sql_stddev_pop (map claims_utilization (cohort comps (state f) (extract_id f)))"
  by (simp_all add: stats_for_def state_stats_row_of_def sql_avg_def sql_stddev_pop_def split: list.splits)

lemma materialize_sql_total:
  "materialize_sql p mds claims defs =
     Inr (map (\<lambda>f. final_select (with_crid_row p (map (z_of (facility_rows mds claims defs)) (facility_rows mds claims defs))
                       (z_of (facility_rows mds claims defs) f)))
            (facility_rows mds claims defs))"
  by (simp add: materialize_sql_def Let_def with_z_scores_total with_crid_def o_def)

lemma final_fields:
  "ccn (final_select (with_crid_row p zs z)) = ccn z"
  "extract_id (final_select (with_crid_row p zs z)) = extract_id z"
  "state (final_select (with_crid_row p zs z)) = state z"
  "is_complete (final_select (with_crid_row p zs z)) = is_complete z"
  "mds_composite (final_select (with_crid_row p zs z)) = mds_composite z"
  "claims_utilization (final_select (with_crid_row p zs z)) = claims_utilization z"
  "mds_z_score (final_select (with_crid_row p zs z)) = mds_z_score z"
  "claims_z_score (final_select (with_crid_row p zs z)) = claims_z_score z"
  "is_small_state (final_select (with_crid_row p zs z)) = is_small_state z"
  "state_facility_count (final_select (with_crid_row p zs z)) = state_facility_count z"
  "measures_present (final_select (with_crid_row p zs z)) = measures_present z"
  "measures_suppressed (final_select (with_crid_row p zs z)) = measures_suppressed z"
  "completeness_pct (final_select (with_crid_row p zs z)) = completeness_pct z"
  "crid_value (final_select (with_crid_row p zs z)) = crid_expr z"
  "flags (final_select (with_crid_row p zs z)) = flags_expr (with_crid_row p zs z)"
  "measure_410 (final_select (with_crid_row p zs z)) = measure_410 z"
  "measure_453 (final_select (with_crid_row p zs z)) = measure_453 z"
  "measure_407 (final_select (with_crid_row p zs z)) = measure_407 z"
  "measure_409 (final_select (with_crid_row p zs z)) = measure_409 z"
  "measure_551 (final_select (with_crid_row p zs z)) = measure_551 z"
  "measure_552 (final_select (with_crid_row p zs z)) = measure_552 z"
  "as_of_date (final_select (with_crid_row p zs z)) = as_of_date z"
  by (simp_all add: final_select_def with_crid_row_def)

lemma cohort_map:
  assumes "\<And>x. is_complete (h x) = is_complete x \<and> state (h x) = state x \<and> extract_id (h x) = extract_id x"
  shows "cohort (map h xs) st e = map h (cohort xs st e)"
  by (simp add: cohort_def filter_map o_def assms)

subsection \<open>The gate of the z-scores\<close>

lemma array_remove_null_empty: "array_remove_null xs = [] \<longleftrightarrow> (\<forall>x\<in>set xs. x = None)"
  by (induction xs rule: array_remove_null.induct) auto

lemma sql_stddev_pop_None: "sql_stddev_pop xs = None \<longleftrightarrow> (\<forall>x\<in>set xs. x = None)"
  by (simp add: sql_stddev_pop_def Let_def array_remove_null_empty)

lemma sql_avg_None: "sql_avg xs = None \<longleftrightarrow> (\<forall>x\<in>set xs. x = None)"
  by (simp add: sql_avg_def Let_def array_remove_null_empty)

lemma all_facilities_complete:
  assumes "f \<in> set (all_facilities ms cs)" "is_complete f"
  shows "measure_410 f \<noteq> None \<and> measure_453 f \<noteq> None \<and> measure_407 f \<noteq> None \<and>
         measure_409 f \<noteq> None \<and> measure_551 f \<noteq> None \<and> measure_552 f \<noteq> None"
  using assms by (auto simp: all_facilities_def all_facilities_row_def)

lemma composite_defined:
  assumes "f \<in> set (facility_rows mds claims defs)" "is_complete f"
  shows "mds_composite f \<noteq> None \<longleftrightarrow>
           w_410 (weight_values (measure_weights defs)) \<noteq> None \<and>
           w_453 (weight_values (measure_weights defs)) \<noteq> None \<and>
           w_407 (weight_values (measure_weights defs)) \<noteq> None \<and>
           w_409 (weight_values (measure_weights defs)) \<noteq> None"
    and "claims_utilization f \<noteq> None \<longleftrightarrow>
           w_551 (weight_values (measure_weights defs)) \<noteq> None \<and>
           w_552 (weight_values (measure_weights defs)) \<noteq> None"
proof -
  obtain f0 where f0: "f0 \<in> set (all_facilities (mds_base mds) (claims_base claims))"
      and f: "f = with_composites_row (weight_values (measure_weights defs)) f0"
    using assms(1) by (auto simp: facility_rows_def with_composites_def)
  have c0: "is_complete f0" using assms(2) by (simp add: f with_composites_row_def)
  note m = all_facilities_complete [OF f0 c0]
  show "mds_composite f \<noteq> None \<longleftrightarrow>
           w_410 (weight_values (measure_weights defs)) \<noteq> None \<and>
           w_453 (weight_values (measure_weights defs)) \<noteq> None \<and>
           w_407 (weight_values (measure_weights defs)) \<noteq> None \<and>
           w_409 (weight_values (measure_weights defs)) \<noteq> None"
    using m c0 by (auto simp: f with_composites_row_def sql_add_def sql_mul_def split: option.splits)
  show "claims_utilization f \<noteq> None \<longleftrightarrow>
           w_551 (weight_values (measure_weights defs)) \<noteq> None \<and>
           w_552 (weight_values (measure_weights defs)) \<noteq> None"
    using m c0 by (auto simp: f with_composites_row_def sql_add_def sql_mul_def split: option.splits)
qed

lemma cohort_subset: "x \<in> set (cohort rows st e) \<Longrightarrow> x \<in> set rows \<and> is_complete x"
  by (simp add: cohort_def)

lemma cohort_composite_defined:
  assumes f: "f \<in> set (facility_rows mds claims defs)" "is_complete f"
  shows "sql_stddev_pop (map mds_composite (cohort (facility_rows mds claims defs) st e)) \<noteq> None
           \<Longrightarrow> mds_composite f \<noteq> None"
    and "sql_stddev_pop (map claims_utilization (cohort (facility_rows mds claims defs) st e)) \<noteq> None
           \<Longrightarrow> claims_utilization f \<noteq> None"
proof -
  assume "sql_stddev_pop (map mds_composite (cohort (facility_rows mds claims defs) st e)) \<noteq> None"
  then obtain x where x: "x \<in> set (cohort (facility_rows mds claims defs) st e)" "mds_composite x \<noteq> None"
    by (auto simp: sql_stddev_pop_None)
  with composite_defined(1) [of x mds claims defs] composite_defined(1) [OF f]
  show "mds_composite f \<noteq> None" using cohort_subset [OF x(1)] by blast
next
  assume "sql_stddev_pop (map claims_utilization (cohort (facility_rows mds claims defs) st e)) \<noteq> None"
  then obtain x where x: "x \<in> set (cohort (facility_rows mds claims defs) st e)" "claims_utilization x \<noteq> None"
    by (auto simp: sql_stddev_pop_None)
  with composite_defined(2) [of x mds claims defs] composite_defined(2) [OF f]
  show "claims_utilization f \<noteq> None" using cohort_subset [OF x(1)] by blast
qed

text \<open>z-scores of a row of the pipeline, in terms of its cohort.\<close>

lemma z_of_z_scores:
  fixes comps :: "composite_row list" and f :: composite_row
  defines "g \<equiv> cohort comps (state f) (extract_id f)"
  shows "mds_z_score (z_of comps f) = Some q \<longleftrightarrow>
     is_complete f \<and> 10 \<le> length g \<and>
     (\<exists>x m y. mds_composite f = Some x \<and> sql_avg (map mds_composite g) = Some m \<and>
              sql_stddev_pop (map mds_composite g) = Some y \<and> 0 < y \<and> q = (x - m) / y)"
   and "claims_z_score (z_of comps f) = Some q \<longleftrightarrow>
     is_complete f \<and> 10 \<le> length g \<and>
     (\<exists>x m y. claims_utilization f = Some x \<and> sql_avg (map claims_utilization g) = Some m \<and>
              sql_stddev_pop (map claims_utilization g) = Some y \<and> 0 < y \<and> q = (x - m) / y)"
proof -
  have cnt: "(\<exists>n. map_option s_facility_count (stats_for comps f) = Some n \<and> 10 \<le> n) \<longleftrightarrow> 10 \<le> length g"
    by (auto simp: stats_for_count g_def)
  have "mds_z_score (z_of comps f) = Some q \<longleftrightarrow>
        z_score_expr (is_complete f) (map_option s_facility_count (stats_for comps f))
          (Option.bind (stats_for comps f) s_mds_stddev)
          (mds_composite f) (Option.bind (stats_for comps f) s_mds_mean) = Inr (Some q)"
    by (simp add: z_of_fields(17))
  then show "mds_z_score (z_of comps f) = Some q \<longleftrightarrow>
     is_complete f \<and> 10 \<le> length g \<and>
     (\<exists>x m y. mds_composite f = Some x \<and> sql_avg (map mds_composite g) = Some m \<and>
              sql_stddev_pop (map mds_composite g) = Some y \<and> 0 < y \<and> q = (x - m) / y)"
    unfolding z_score_expr_Some cnt by (simp add: stats_for_cols g_def)
  have "claims_z_score (z_of comps f) = Some q \<longleftrightarrow>
        z_score_expr (is_complete f) (map_option s_facility_count (stats_for comps f))
          (Option.bind (stats_for comps f) s_claims_stddev)
          (claims_utilization f) (Option.bind (stats_for comps f) s_claims_mean) = Inr (Some q)"
    by (simp add: z_of_fields(18))
  then show "claims_z_score (z_of comps f) = Some q \<longleftrightarrow>
     is_complete f \<and> 10 \<le> length g \<and>
     (\<exists>x m y. claims_utilization f = Some x \<and> sql_avg (map claims_utilization g) = Some m \<and>
              sql_stddev_pop (map claims_utilization g) = Some y \<and> 0 < y \<and> q = (x - m) / y)"
    unfolding z_score_expr_Some cnt by (simp add: stats_for_cols g_def)
qed

lemma array_remove_null_Some: "array_remove_null (map Some vs) = vs"
  by (induction vs) auto

lemma all_Some_map: "\<forall>x\<in>set xs. x \<noteq> None \<Longrightarrow> xs = map Some (map the xs)"
  by (induction xs) auto

lemma output_row:
  assumes "materialize_sql p mds claims defs = Inr out" "r \<in> set out"
  obtains f where "f \<in> set (facility_rows mds claims defs)"
    "is_complete r = is_complete f" "state r = state f" "extract_id r = extract_id f"
    "mds_composite r = mds_composite f" "claims_utilization r = claims_utilization f"
    "mds_z_score r = mds_z_score (z_of (facility_rows mds claims defs) f)"
    "claims_z_score r = claims_z_score (z_of (facility_rows mds claims defs) f)"
    "crid_value r = crid_expr (z_of (facility_rows mds claims defs) f)"
    "map mds_composite (cohort out (state r) (extract_id r)) =
       map mds_composite (cohort (facility_rows mds claims defs) (state f) (extract_id f))"
    "map claims_utilization (cohort out (state r) (extract_id r)) =
       map claims_utilization (cohort (facility_rows mds claims defs) (state f) (extract_id f))"
    "length (cohort out (state r) (extract_id r)) =
       length (cohort (facility_rows mds claims defs) (state f) (extract_id f))"
proof -
  let ?comps = "facility_rows mds claims defs"
  let ?zs = "map (z_of ?comps) ?comps"
  let ?h = "\<lambda>f. final_select (with_crid_row p ?zs (z_of ?comps f))"
  have out: "out = map ?h ?comps"
    using assms(1) by (simp add: materialize_sql_total)
  then obtain f where f: "f \<in> set ?comps" "r = ?h f" using assms(2) by auto
  have pres: "\<And>x. is_complete (?h x) = is_complete x \<and> state (?h x) = state x \<and> extract_id (?h x) = extract_id x"
    by (simp add: final_fields z_of_fields)
  have co: "cohort out st e = map ?h (cohort ?comps st e)" for st e
    unfolding out by (rule cohort_map) (rule pres)
  show thesis
  proof (rule that [OF f(1)])
    show "is_complete r = is_complete f" "state r = state f" "extract_id r = extract_id f"
      "mds_composite r = mds_composite f" "claims_utilization r = claims_utilization f"
      "mds_z_score r = mds_z_score (z_of ?comps f)"
      "claims_z_score r = claims_z_score (z_of ?comps f)"
      "crid_value r = crid_expr (z_of ?comps f)"
      by (simp_all add: f(2) final_fields z_of_fields)
    have sr: "state r = state f" "extract_id r = extract_id f"
      by (simp_all add: f(2) final_fields z_of_fields)
    show "map mds_composite (cohort out (state r) (extract_id r)) =
       map mds_composite (cohort ?comps (state f) (extract_id f))"
      unfolding co sr by (simp add: o_def final_fields z_of_fields)
    show "map claims_utilization (cohort out (state r) (extract_id r)) =
       map claims_utilization (cohort ?comps (state f) (extract_id f))"
      unfolding co sr by (simp add: o_def final_fields z_of_fields)
    show "length (cohort out (state r) (extract_id r)) =
       length (cohort ?comps (state f) (extract_id f))"
      unfolding co sr by simp
  qed
qed

lemma crid_expr_Some:
  "crid_expr z = Some v \<longleftrightarrow> (\<exists>q u. mds_z_score z = Some q \<and> claims_z_score z = Some u \<and> v = q - u)"
  by (auto simp: crid_expr_def sql_sub_def split: option.splits)

lemma crid_expr_None:
  "crid_expr z \<noteq> None \<longleftrightarrow> mds_z_score z \<noteq> None \<and> claims_z_score z \<noteq> None"
  by (auto simp: crid_expr_def sql_sub_def split: option.splits)

lemma row_gate:
  assumes "materialize_sql p mds claims defs = Inr out" "r \<in> set out"
  shows "mds_z_score r \<noteq> None \<longleftrightarrow>
           is_complete r \<and> 10 \<le> length (cohort out (state r) (extract_id r)) \<and>
           (\<exists>sd. sql_stddev_pop (map mds_composite (cohort out (state r) (extract_id r))) = Some sd \<and> 0 < sd)"
    and "claims_z_score r \<noteq> None \<longleftrightarrow>
           is_complete r \<and> 10 \<le> length (cohort out (state r) (extract_id r)) \<and>
           (\<exists>sd. sql_stddev_pop (map claims_utilization (cohort out (state r) (extract_id r))) = Some sd \<and> 0 < sd)"
proof -
  let ?comps = "facility_rows mds claims defs"
  obtain f where f: "f \<in> set ?comps"
    "is_complete r = is_complete f" "state r = state f" "extract_id r = extract_id f"
    "mds_composite r = mds_composite f" "claims_utilization r = claims_utilization f"
    "mds_z_score r = mds_z_score (z_of ?comps f)"
    "claims_z_score r = claims_z_score (z_of ?comps f)"
    "crid_value r = crid_expr (z_of ?comps f)"
    "map mds_composite (cohort out (state r) (extract_id r)) =
       map mds_composite (cohort ?comps (state f) (extract_id f))"
    "map claims_utilization (cohort out (state r) (extract_id r)) =
       map claims_utilization (cohort ?comps (state f) (extract_id f))"
    "length (cohort out (state r) (extract_id r)) =
       length (cohort ?comps (state f) (extract_id f))"
    using output_row [OF assms] by metis
  let ?g = "cohort ?comps (state f) (extract_id f)"
  have m: "mds_composite f \<noteq> None \<and> sql_avg (map mds_composite ?g) \<noteq> None"
    if "is_complete f" "sql_stddev_pop (map mds_composite ?g) \<noteq> None"
    using that cohort_composite_defined(1) [OF f(1)] by (auto simp: sql_avg_None sql_stddev_pop_None)
  have c: "claims_utilization f \<noteq> None \<and> sql_avg (map claims_utilization ?g) \<noteq> None"
    if "is_complete f" "sql_stddev_pop (map claims_utilization ?g) \<noteq> None"
    using that cohort_composite_defined(2) [OF f(1)] by (auto simp: sql_avg_None sql_stddev_pop_None)
  have "mds_z_score (z_of ?comps f) \<noteq> None \<longleftrightarrow>
          is_complete f \<and> 10 \<le> length ?g \<and> (\<exists>sd. sql_stddev_pop (map mds_composite ?g) = Some sd \<and> 0 < sd)"
  proof
    assume "mds_z_score (z_of ?comps f) \<noteq> None"
    then obtain q where "mds_z_score (z_of ?comps f) = Some q" by auto
    then show "is_complete f \<and> 10 \<le> length ?g \<and> (\<exists>sd. sql_stddev_pop (map mds_composite ?g) = Some sd \<and> 0 < sd)"
      unfolding z_of_z_scores by blast
  next
    assume a: "is_complete f \<and> 10 \<le> length ?g \<and> (\<exists>sd. sql_stddev_pop (map mds_composite ?g) = Some sd \<and> 0 < sd)"
    then obtain sd where sd: "sql_stddev_pop (map mds_composite ?g) = Some sd" "0 < sd" by blast
    from m a sd obtain x mu where "mds_composite f = Some x" "sql_avg (map mds_composite ?g) = Some mu"
      by auto
    with a sd have "mds_z_score (z_of ?comps f) = Some ((x - mu) / sd)"
      unfolding z_of_z_scores by blast
    then show "mds_z_score (z_of ?comps f) \<noteq> None" by simp
  qed
  then show "mds_z_score r \<noteq> None \<longleftrightarrow>
           is_complete r \<and> 10 \<le> length (cohort out (state r) (extract_id r)) \<and>
           (\<exists>sd. sql_stddev_pop (map mds_composite (cohort out (state r) (extract_id r))) = Some sd \<and> 0 < sd)"
    unfolding f(7) f(10) f(12) f(2) .
  have "claims_z_score (z_of ?comps f) \<noteq> None \<longleftrightarrow>
          is_complete f \<and> 10 \<le> length ?g \<and> (\<exists>sd. sql_stddev_pop (map claims_utilization ?g) = Some sd \<and> 0 < sd)"
  proof
    assume "claims_z_score (z_of ?comps f) \<noteq> None"
    then obtain q where "claims_z_score (z_of ?comps f) = Some q" by auto
    then show "is_complete f \<and> 10 \<le> length ?g \<and> (\<exists>sd. sql_stddev_pop (map claims_utilization ?g) = Some sd \<and> 0 < sd)"
      unfolding z_of_z_scores by blast
  next
    assume a: "is_complete f \<and> 10 \<le> length ?g \<and> (\<exists>sd. sql_stddev_pop (map claims_utilization ?g) = Some sd \<and> 0 < sd)"
    then obtain sd where sd: "sql_stddev_pop (map claims_utilization ?g) = Some sd" "0 < sd" by blast
    from c a sd obtain x mu where "claims_utilization f = Some x" "sql_avg (map claims_utilization ?g) = Some mu"
      by auto
    with a sd have "claims_z_score (z_of ?comps f) = Some ((x - mu) / sd)"
      unfolding z_of_z_scores by blast
    then show "claims_z_score (z_of ?comps f) \<noteq> None" by simp
  qed
  then show "claims_z_score r \<noteq> None \<longleftrightarrow>
           is_complete r \<and> 10 \<le> length (cohort out (state r) (extract_id r)) \<and>
           (\<exists>sd. sql_stddev_pop (map claims_utilization (cohort out (state r) (extract_id r))) = Some sd \<and> 0 < sd)"
    unfolding f(8) f(11) f(12) f(2) .
qed

subsection \<open>The worked example, evaluated\<close>

lemma ex_weights: "weight_values (measure_weights ex_defs) =
   \<lparr> w_410 = Some 1, w_453 = Some 1, w_407 = Some 1, w_409 = Some 1, w_551 = Some 1, w_552 = Some 1 \<rparr>"
  by (simp add: weight_values_def measure_weights_def ex_defs_def weight_of_def)

lemma ex_mds_base:
  "mds_base ex_mds =
     map (\<lambda>(c, q, u). \<lparr> b_ccn = c, b_extract_id = 202401, b_as_of_date = ''2024-01-01'',
                         b_state = ''01'', b_measure_410 = Some q, b_measure_453 = Some 0,
                         b_measure_407 = Some 0, b_measure_409 = Some 0,
                         b_sup_410 = 0, b_sup_453 = 0, b_sup_407 = 0, b_sup_409 = 0 \<rparr>) ex_facilities"
  by (simp add: mds_base_def ex_mds_def ex_facilities_def ex_mds_rows_def group_by_def
        mds_value_def mds_sup_def max_flag_def)

lemma ex_claims_base:
  "claims_base ex_claims =
     map (\<lambda>(c, q, u). \<lparr> cb_ccn = c, cb_extract_id = 202401,
                         cb_measure_551 = Some u, cb_measure_552 = Some 0,
                         cb_sup_551 = 0, cb_sup_552 = 0 \<rparr>) ex_facilities"
  by (simp add: claims_base_def ex_claims_def ex_facilities_def ex_claims_rows_def group_by_def
        claims_value_def claims_sup_def max_flag_def)

lemma ex_facility_rows: "facility_rows ex_mds ex_claims ex_defs = ex_comps"
  unfolding facility_rows_def ex_weights ex_mds_base ex_claims_base
  by (simp add: ex_comps_def ex_facilities_def ex_fac_def with_composites_def with_composites_row_def
        all_facilities_def all_facilities_row_def facility_join_def left_join_def
        c_measure_551_def c_measure_552_def coalesce_sup_551_def coalesce_sup_552_def
        sql_add_def sql_mul_def sql_round_def)

lemma sqrt_9: "sqrt 9 = 3"
  using real_sqrt_abs [of 3] by simp

lemma ex_cohort: "cohort ex_comps ''01'' 202401 = ex_comps"
  by (simp add: cohort_def ex_comps_def ex_facilities_def ex_fac_def)

lemma ex_stats:
  "sql_avg (map mds_composite ex_comps) = Some 5"
  "sql_stddev_pop (map mds_composite ex_comps) = Some 3"
  "sql_avg (map claims_utilization ex_comps) = Some 5"
  "sql_stddev_pop (map claims_utilization ex_comps) = Some 3"
  by (simp_all add: ex_comps_def ex_facilities_def ex_fac_def sql_avg_def sql_stddev_pop_def
        avg_def stddev_pop_def sqrt_9 power2_eq_square)

lemma ex_first:
  "ex_fac ''010001'' 6 4 \<in> set ex_comps"
  "state (ex_fac ''010001'' 6 4) = ''01''" "extract_id (ex_fac ''010001'' 6 4) = 202401"
  "is_complete (ex_fac ''010001'' 6 4)"
  "mds_composite (ex_fac ''010001'' 6 4) = Some 6"
  "claims_utilization (ex_fac ''010001'' 6 4) = Some 4"
  "length ex_comps = 10"
  by (simp_all add: ex_comps_def ex_facilities_def ex_fac_def)

lemma ex_z:
  "mds_z_score (z_of ex_comps (ex_fac ''010001'' 6 4)) = Some (1 / 3)"
  "claims_z_score (z_of ex_comps (ex_fac ''010001'' 6 4)) = Some (- 1 / 3)"
  unfolding z_of_z_scores ex_first ex_cohort ex_stats by (simp_all add: ex_first)

lemma ex_output:
  "materialize_sql p ex_mds ex_claims ex_defs = Inr out \<Longrightarrow>
     final_select (with_crid_row p (map (z_of ex_comps) ex_comps) (z_of ex_comps (ex_fac ''010001'' 6 4)))
       \<in> set out"
  using ex_first(1) by (auto simp: materialize_sql_total ex_facility_rows)

lemma ex_crid:
  "crid_value (final_select (with_crid_row p zs (z_of ex_comps (ex_fac ''010001'' 6 4)))) = Some (2 / 3)"
  by (simp add: final_fields crid_expr_def ex_z sql_sub_def)

subsection \<open>C1: the gating invariant\<close>

text \<open>
  C1. The statement never raises (a zero cohort standard deviation gives a NULL z-score, not
  a division fault), and for every row it produces: \<^verbatim>\<open>crid_value\<close> is non-NULL iff both
  z-scores are non-NULL, iff the row is complete, the cohort of complete facilities of its
  (state, extract) has at least 10 rows and both population standard deviations of that
  cohort are greater than 0.
\<close>

theorem gating_invariant:
  "\<exists>out. materialize_sql p mds claims defs = Inr out \<and>
     (\<forall>r\<in>set out.
        (crid_value r \<noteq> None \<longleftrightarrow> mds_z_score r \<noteq> None \<and> claims_z_score r \<noteq> None) \<and>
        (mds_z_score r \<noteq> None \<and> claims_z_score r \<noteq> None \<longleftrightarrow> cohort_gate out r) \<and>
        (sql_stddev_pop (map mds_composite (cohort out (state r) (extract_id r))) = Some 0
           \<longrightarrow> mds_z_score r = None) \<and>
        (sql_stddev_pop (map claims_utilization (cohort out (state r) (extract_id r))) = Some 0
           \<longrightarrow> claims_z_score r = None))"
proof -
  obtain out where out: "materialize_sql p mds claims defs = Inr out"
    by (simp add: materialize_sql_total)
  have "(crid_value r \<noteq> None \<longleftrightarrow> mds_z_score r \<noteq> None \<and> claims_z_score r \<noteq> None) \<and>
        (mds_z_score r \<noteq> None \<and> claims_z_score r \<noteq> None \<longleftrightarrow> cohort_gate out r) \<and>
        (sql_stddev_pop (map mds_composite (cohort out (state r) (extract_id r))) = Some 0
           \<longrightarrow> mds_z_score r = None) \<and>
        (sql_stddev_pop (map claims_utilization (cohort out (state r) (extract_id r))) = Some 0
           \<longrightarrow> claims_z_score r = None)" if r: "r \<in> set out" for r
  proof -
    obtain f where f: "mds_z_score r = mds_z_score (z_of (facility_rows mds claims defs) f)"
      "claims_z_score r = claims_z_score (z_of (facility_rows mds claims defs) f)"
      "crid_value r = crid_expr (z_of (facility_rows mds claims defs) f)"
      using output_row [OF out r] by metis
    have 1: "crid_value r \<noteq> None \<longleftrightarrow> mds_z_score r \<noteq> None \<and> claims_z_score r \<noteq> None"
      unfolding f by (rule crid_expr_None)
    note g = row_gate [OF out r]
    have 2: "mds_z_score r \<noteq> None \<and> claims_z_score r \<noteq> None \<longleftrightarrow> cohort_gate out r"
      unfolding g cohort_gate_def by blast
    have 3: "sql_stddev_pop (map mds_composite (cohort out (state r) (extract_id r))) = Some 0
           \<longrightarrow> mds_z_score r = None"
      using g(1) by auto
    have 4: "sql_stddev_pop (map claims_utilization (cohort out (state r) (extract_id r))) = Some 0
           \<longrightarrow> claims_z_score r = None"
      using g(2) by auto
    from 1 2 3 4 show ?thesis by blast
  qed
  with out show ?thesis by blast
qed

theorem gating_invariant_witness:
  "\<exists>out r. materialize_sql 2 ex_mds ex_claims ex_defs = Inr out \<and> r \<in> set out \<and>
      ccn r = ''010001'' \<and> crid_value r = Some (2 / 3) \<and> cohort_gate out r"
proof -
  obtain out where out: "materialize_sql 2 ex_mds ex_claims ex_defs = Inr out"
    and gate: "\<forall>r\<in>set out.
        (crid_value r \<noteq> None \<longleftrightarrow> mds_z_score r \<noteq> None \<and> claims_z_score r \<noteq> None) \<and>
        (mds_z_score r \<noteq> None \<and> claims_z_score r \<noteq> None \<longleftrightarrow> cohort_gate out r) \<and>
        (sql_stddev_pop (map mds_composite (cohort out (state r) (extract_id r))) = Some 0
           \<longrightarrow> mds_z_score r = None) \<and>
        (sql_stddev_pop (map claims_utilization (cohort out (state r) (extract_id r))) = Some 0
           \<longrightarrow> claims_z_score r = None)"
    using gating_invariant [of 2 ex_mds ex_claims ex_defs] by blast
  let ?r = "final_select (with_crid_row 2 (map (z_of ex_comps) ex_comps) (z_of ex_comps (ex_fac ''010001'' 6 4)))"
  have r: "?r \<in> set out" by (rule ex_output [OF out])
  have c: "crid_value ?r = Some (2 / 3)" by (rule ex_crid)
  have n: "ccn ?r = ''010001''" by (simp add: final_fields z_of_fields ex_fac_def)
  from gate r c have "cohort_gate out ?r" by auto
  with out r c n show ?thesis by blast
qed

subsection \<open>The score of a row of the SELECT\<close>

lemma score_identity_select:
  assumes "materialize_sql p mds claims defs = Inr out" "r \<in> set out" "crid_value r = Some v"
  shows "\<exists>q u cq cu qs us.
           mds_z_score r = Some q \<and> claims_z_score r = Some u \<and>
           v = q - u \<and> \<bar>v - (q - u)\<bar> < 1 / 10 ^ 9 \<and>
           mds_composite r = Some cq \<and> claims_utilization r = Some cu \<and>
           map mds_composite (cohort out (state r) (extract_id r)) = map Some qs \<and>
           map claims_utilization (cohort out (state r) (extract_id r)) = map Some us \<and>
           q = (cq - avg qs) / stddev_pop qs \<and>
           u = (cu - avg us) / stddev_pop us"
proof -
  let ?comps = "facility_rows mds claims defs"
  obtain f where f: "f \<in> set ?comps"
    "is_complete r = is_complete f" "state r = state f" "extract_id r = extract_id f"
    "mds_composite r = mds_composite f" "claims_utilization r = claims_utilization f"
    "mds_z_score r = mds_z_score (z_of ?comps f)"
    "claims_z_score r = claims_z_score (z_of ?comps f)"
    "crid_value r = crid_expr (z_of ?comps f)"
    "map mds_composite (cohort out (state r) (extract_id r)) =
       map mds_composite (cohort ?comps (state f) (extract_id f))"
    "map claims_utilization (cohort out (state r) (extract_id r)) =
       map claims_utilization (cohort ?comps (state f) (extract_id f))"
    "length (cohort out (state r) (extract_id r)) =
       length (cohort ?comps (state f) (extract_id f))"
    using output_row [OF assms(1,2)] by metis
  let ?g = "cohort ?comps (state f) (extract_id f)"
  from assms(3) obtain q u where qu: "mds_z_score (z_of ?comps f) = Some q"
      "claims_z_score (z_of ?comps f) = Some u" "v = q - u"
    unfolding f(9) crid_expr_Some by blast
  from qu(1) obtain cq mq sq where mq: "is_complete f" "10 \<le> length ?g"
      "mds_composite f = Some cq" "sql_avg (map mds_composite ?g) = Some mq"
      "sql_stddev_pop (map mds_composite ?g) = Some sq" "q = (cq - mq) / sq"
    unfolding z_of_z_scores by blast
  from qu(2) obtain cu mu su where mu:
      "claims_utilization f = Some cu" "sql_avg (map claims_utilization ?g) = Some mu"
      "sql_stddev_pop (map claims_utilization ?g) = Some su" "u = (cu - mu) / su"
    unfolding z_of_z_scores by blast
  have "\<forall>x\<in>set (map mds_composite ?g). x \<noteq> None"
    using cohort_composite_defined(1) [of _ mds claims defs "state f" "extract_id f"] mq(5)
      cohort_subset by fastforce
  then obtain qs where qs: "map mds_composite ?g = map Some qs"
    using all_Some_map by blast
  have "\<forall>x\<in>set (map claims_utilization ?g). x \<noteq> None"
    using cohort_composite_defined(2) [of _ mds claims defs "state f" "extract_id f"] mu(3)
      cohort_subset by fastforce
  then obtain us where us: "map claims_utilization ?g = map Some us"
    using all_Some_map by blast
  have mq': "mq = avg qs" "sq = stddev_pop qs"
    using mq(4,5) unfolding qs
    by (auto simp: sql_avg_def sql_stddev_pop_def array_remove_null_Some Let_def split: if_splits)
  have mu': "mu = avg us" "su = stddev_pop us"
    using mu(2,3) unfolding us
    by (auto simp: sql_avg_def sql_stddev_pop_def array_remove_null_Some Let_def split: if_splits)
  have "mds_z_score r = Some q \<and> claims_z_score r = Some u \<and>
           v = q - u \<and> \<bar>v - (q - u)\<bar> < 1 / 10 ^ 9 \<and>
           mds_composite r = Some cq \<and> claims_utilization r = Some cu \<and>
           map mds_composite (cohort out (state r) (extract_id r)) = map Some qs \<and>
           map claims_utilization (cohort out (state r) (extract_id r)) = map Some us \<and>
           q = (cq - avg qs) / stddev_pop qs \<and>
           u = (cu - avg us) / stddev_pop us"
    using qu mq(3,6) mu(1,4) mq' mu' qs us f(5-8,10,11) by simp
  then show ?thesis by blast
qed

subsection \<open>Completeness of a joined row\<close>

lemma max_flag_bit:
  "max_flag (map (\<lambda>x. if P x then 1 else 0) g) = (if \<exists>x\<in>set g. P x then 1 else 0)"
  by (induction g) (auto simp: max_flag_def)

lemma mds_sup_01: "mds_sup code g = 0 \<or> mds_sup code g = 1"
  unfolding mds_sup_def max_flag_bit by simp

lemma claims_sup_01: "claims_sup code g = 0 \<or> claims_sup code g = 1"
  unfolding claims_sup_def max_flag_bit by simp

lemma left_join_set:
  "set (left_join on xs ys) =
     {(x, None) | x. x \<in> set xs \<and> filter (on x) ys = []} \<union>
     {(x, Some y) | x y. x \<in> set xs \<and> y \<in> set ys \<and> on x y}"
proof -
  have one: "set (case filter (on x) ys of [] \<Rightarrow> [(x, None)] | ms \<Rightarrow> map (\<lambda>y. (x, Some y)) ms)
        = {(x, None) | z. z = x \<and> filter (on x) ys = []} \<union> {(x, Some y) | y. y \<in> set ys \<and> on x y}" for x
  proof (cases "filter (on x) ys")
    case Nil
    then have "\<forall>y\<in>set ys. \<not> on x y" by (simp add: filter_empty_conv)
    with Nil show ?thesis by auto
  next
    case (Cons a l)
    then have "set (a # l) = {y \<in> set ys. on x y}" by (metis set_filter)
    with Cons show ?thesis by auto
  qed
  show ?thesis unfolding left_join_def set_concat set_map image_image one by blast
qed

lemma left_join_member:
  "(x, y) \<in> set (left_join on xs ys) \<Longrightarrow>
     x \<in> set xs \<and> (case y of None \<Rightarrow> True | Some b \<Rightarrow> b \<in> set ys \<and> on x b)"
  unfolding left_join_set by (auto split: option.splits)

lemma mds_base_sup:
  assumes "m \<in> set (mds_base mds)"
  shows "b_sup_410 m \<in> {0, 1}" "b_sup_453 m \<in> {0, 1}" "b_sup_407 m \<in> {0, 1}" "b_sup_409 m \<in> {0, 1}"
proof -
  obtain g where "b_sup_410 m = mds_sup ''410'' g" "b_sup_453 m = mds_sup ''453'' g"
      "b_sup_407 m = mds_sup ''407'' g" "b_sup_409 m = mds_sup ''409'' g"
    using assms unfolding mds_base_def by (auto simp del: set_filter)
  then show "b_sup_410 m \<in> {0, 1}" "b_sup_453 m \<in> {0, 1}" "b_sup_407 m \<in> {0, 1}" "b_sup_409 m \<in> {0, 1}"
    using mds_sup_01 by auto
qed

lemma claims_base_sup:
  assumes "c \<in> set (claims_base claims)"
  shows "cb_sup_551 c \<in> {0, 1}" "cb_sup_552 c \<in> {0, 1}"
proof -
  obtain g where "cb_sup_551 c = claims_sup ''551'' g" "cb_sup_552 c = claims_sup ''552'' g"
    using assms unfolding claims_base_def by (auto simp del: set_filter)
  then show "cb_sup_551 c \<in> {0, 1}" "cb_sup_552 c \<in> {0, 1}"
    using claims_sup_01 by auto
qed

lemma pairs_sup_01:
  assumes "mc \<in> set (facility_join (mds_base mds) (claims_base claims))"
  shows "\<forall>p\<in>set (measure_pairs mc). snd p = 0 \<or> snd p = 1"
proof -
  obtain m c where mc: "mc = (m, c)" by (cases mc)
  have m: "m \<in> set (mds_base mds)" and c: "case c of None \<Rightarrow> True | Some b \<Rightarrow> b \<in> set (claims_base claims)"
    using assms left_join_member [of m c] unfolding mc facility_join_def by (auto split: option.splits)
  show ?thesis
    using mds_base_sup [OF m] c claims_base_sup
    by (auto simp: mc measure_pairs_def coalesce_sup_551_def coalesce_sup_552_def split: option.splits)
qed

lemma sum_flags:
  fixes ps :: "(real option \<times> int) list"
  assumes "\<forall>p\<in>set ps. snd p = 0 \<or> snd p = 1"
  shows "sum_list (map snd ps) = int (length (filter (\<lambda>(v, s). s = 1) ps))"
  using assms by (induction ps) auto

lemma sql_round_values:
  "sql_round (of_int 0 * 100 / 6) 2 = 0"
  "sql_round (of_int 1 * 100 / 6) 2 = 1667 / 100"
  "sql_round (of_int 2 * 100 / 6) 2 = 3333 / 100"
  "sql_round (of_int 3 * 100 / 6) 2 = 50"
  "sql_round (of_int 4 * 100 / 6) 2 = 6667 / 100"
  "sql_round (of_int 5 * 100 / 6) 2 = 8333 / 100"
  "sql_round (of_int 6 * 100 / 6) 2 = 100"
  by (simp_all add: sql_round_def)

lemma completeness_row:
  fixes w :: weight_values_row and mc :: "mds_base_row \<times> claims_base_row option"
  assumes "\<forall>p\<in>set (measure_pairs mc). snd p = 0 \<or> snd p = 1"
  defines "f \<equiv> with_composites_row w (all_facilities_row mc)"
  shows "measures_present f = count_present (measure_pairs mc)"
    "measures_suppressed f = count_suppressed (measure_pairs mc)"
    "completeness_pct f = sql_round (of_int (measures_present f) / 6 * 100) 2"
    "is_complete f = (measures_present f = 6)"
    "map fst (measure_pairs mc) =
       [measure_410 f, measure_453 f, measure_407 f, measure_409 f, measure_551 f, measure_552 f]"
proof -
  obtain m c where mc: "mc = (m, c)" by (cases mc)
  show "measures_present f = count_present (measure_pairs mc)"
    by (simp add: f_def mc with_composites_row_def all_facilities_row_def measure_pairs_def count_present_def)
  have "measures_suppressed f = sum_list (map snd (measure_pairs mc))"
    by (simp add: f_def mc with_composites_row_def all_facilities_row_def measure_pairs_def)
  then show "measures_suppressed f = count_suppressed (measure_pairs mc)"
    unfolding count_suppressed_def using sum_flags [OF assms(1)] by simp
  show "completeness_pct f = sql_round (of_int (measures_present f) / 6 * 100) 2"
    by (simp add: f_def mc with_composites_row_def)
  show "is_complete f = (measures_present f = 6)"
    by (simp add: f_def mc with_composites_row_def all_facilities_row_def)
  show "map fst (measure_pairs mc) =
       [measure_410 f, measure_453 f, measure_407 f, measure_409 f, measure_551 f, measure_552 f]"
    by (simp add: f_def mc with_composites_row_def all_facilities_row_def measure_pairs_def)
qed

lemma facility_rows_eq:
  "facility_rows mds claims defs =
     map (\<lambda>mc. with_composites_row (weight_values (measure_weights defs)) (all_facilities_row mc))
       (facility_join (mds_base mds) (claims_base claims))"
  by (simp add: facility_rows_def with_composites_def all_facilities_def)

lemma output_row_facility:
  assumes "materialize_sql p mds claims defs = Inr out" "r \<in> set out"
  shows "\<exists>f\<in>set (facility_rows mds claims defs).
           ccn r = ccn f \<and> extract_id r = extract_id f \<and> as_of_date r = as_of_date f \<and>
           state r = state f \<and>
           measure_410 r = measure_410 f \<and> measure_453 r = measure_453 f \<and>
           measure_407 r = measure_407 f \<and> measure_409 r = measure_409 f \<and>
           measure_551 r = measure_551 f \<and> measure_552 r = measure_552 f \<and>
           measures_present r = measures_present f \<and>
           measures_suppressed r = measures_suppressed f \<and>
           completeness_pct r = completeness_pct f \<and> is_complete r = is_complete f"
proof -
  let ?comps = "facility_rows mds claims defs"
  let ?zs = "map (z_of ?comps) ?comps"
  have "out = map (\<lambda>f. final_select (with_crid_row p ?zs (z_of ?comps f))) ?comps"
    using assms(1) by (simp add: materialize_sql_total)
  then obtain f where "f \<in> set ?comps" "r = final_select (with_crid_row p ?zs (z_of ?comps f))"
    using assms(2) by auto
  then show ?thesis by (intro bexI [of _ f]) (simp_all add: final_fields z_of_fields)
qed

subsection \<open>Storing rows\<close>

lemma stored_row_keys:
  "ccn (stored_row r) = ccn r" "extract_id (stored_row r) = extract_id r"
  "as_of_date (stored_row r) = as_of_date r" "state (stored_row r) = state r"
  "measures_present (stored_row r) = measures_present r"
  "measures_suppressed (stored_row r) = measures_suppressed r"
  "is_complete (stored_row r) = is_complete r"
  "is_small_state (stored_row r) = is_small_state r"
  "state_facility_count (stored_row r) = state_facility_count r"
  "flags (stored_row r) = flags r"
  by (simp_all add: stored_row_def)

lemma stored_row_values:
  "mds_composite (stored_row r) = round_12_6 (mds_composite r)"
  "claims_utilization (stored_row r) = round_12_6 (claims_utilization r)"
  "mds_z_score (stored_row r) = round_12_6 (mds_z_score r)"
  "claims_z_score (stored_row r) = round_12_6 (claims_z_score r)"
  "crid_value (stored_row r) = round_12_6 (crid_value r)"
  "crid_volatility (stored_row r) = round_12_6 (crid_volatility r)"
  "completeness_pct (stored_row r) = sql_round (completeness_pct r) 2"
  "measure_410 (stored_row r) = round_12_6 (measure_410 r)"
  "measure_453 (stored_row r) = round_12_6 (measure_453 r)"
  "measure_407 (stored_row r) = round_12_6 (measure_407 r)"
  "measure_409 (stored_row r) = round_12_6 (measure_409 r)"
  "measure_551 (stored_row r) = round_12_6 (measure_551 r)"
  "measure_552 (stored_row r) = round_12_6 (measure_552 r)"
  "state_mds_mean (stored_row r) = round_12_6 (state_mds_mean r)"
  "state_mds_stddev (stored_row r) = round_12_6 (state_mds_stddev r)"
  "state_claims_mean (stored_row r) = round_12_6 (state_claims_mean r)"
  "state_claims_stddev (stored_row r) = round_12_6 (state_claims_stddev r)"
  by (simp_all add: stored_row_def)

lemma mapM_insert_row:
  "mapM insert_row rows =
     (if \<forall>r\<in>set rows. row_fits r then Inr (map stored_row rows) else Inl NumericValueOutOfRange)"
  by (induction rows) (simp_all add: insert_row_def)

lemma stored_unique: "crid_monthly_unique (old @ map stored_row rows) = crid_monthly_unique (old @ rows)"
  by (simp add: crid_monthly_unique_def o_def stored_row_keys)

lemma materialize_crid_eq:
  assumes "W \<in> {3, 4}" "metrics_crid_monthly conn = Some old" "sources_exist conn"
    "materialize_sql (nat (W - 1)) (gold_nh_quality_mds conn) (gold_nh_quality_claims conn)
       (gold_nh_measure_definitions conn) = Inr out"
  shows "materialize_crid conn W =
     (if \<not> (\<forall>r\<in>set out. row_fits r) then (conn, Inl NumericValueOutOfRange)
      else if crid_monthly_unique (old @ out)
      then (conn\<lparr>metrics_crid_monthly := Some (old @ map stored_row out)\<rparr>, Inr (length out))
      else (conn, Inl UniqueViolation))"
  using assms by (simp add: materialize_crid_def Let_def mapM_insert_row stored_unique)

lemma materialize_crid_success:
  assumes "W \<in> {3, 4}" "metrics_crid_monthly conn = Some []" "sources_exist conn"
    "materialize_sql (nat (W - 1)) (gold_nh_quality_mds conn) (gold_nh_quality_claims conn)
       (gold_nh_measure_definitions conn) = Inr out"
    "\<forall>r\<in>set out. row_fits r" "crid_monthly_unique out"
  shows "materialize_crid conn W =
           (conn\<lparr>metrics_crid_monthly := Some (map stored_row out)\<rparr>, Inr (length out))"
  using materialize_crid_eq [OF assms(1-4)] assms(5,6) by simp

subsection \<open>C9: the volatility window is validated before anything runs\<close>

text \<open>
  C9. A window size other than 3 or 4 is rejected with the connection unchanged, both by
  \<^verbatim>\<open>materialize_crid\<close> (ValueError, before the statement is run) and by \<^verbatim>\<open>main\<close>
  (argparse, before the connection is used). For 3 and 4 neither rejection happens, and a
  full run goes on to rebuild the table.
\<close>

theorem volatility_window_validation:
  "(W \<notin> {3, 4} \<longrightarrow>
       materialize_crid conn W = (conn, Inl ValueError) \<and>
       main (a\<lparr>volatility_window := W\<rparr>) conn = (conn, Some ArgparseError)) \<and>
   (W \<in> {3, 4} \<longrightarrow>
       snd (materialize_crid conn W) \<noteq> Inl ValueError \<and>
       snd (main (a\<lparr>volatility_window := W\<rparr>) conn) \<noteq> Some ArgparseError \<and>
       (\<not> dry_run a \<and> \<not> validate a \<longrightarrow>
          metrics_crid_monthly (fst (main (a\<lparr>volatility_window := W\<rparr>) conn)) \<noteq> None))"
proof (intro conjI impI)
  assume "W \<notin> {3, 4}"
  then show "materialize_crid conn W = (conn, Inl ValueError)"
    by (simp add: materialize_crid_def)
  from \<open>W \<notin> {3, 4}\<close> show "main (a\<lparr>volatility_window := W\<rparr>) conn = (conn, Some ArgparseError)"
    by (simp add: main_def)
next
  assume W: "W \<in> {3, 4}"
  show "snd (materialize_crid conn W) \<noteq> Inl ValueError"
    using W
    by (auto simp: materialize_crid_def Let_def materialize_sql_total mapM_insert_row
          split: option.splits)
  show "snd (main (a\<lparr>volatility_window := W\<rparr>) conn) \<noteq> Some ArgparseError"
    using W
    by (auto simp: main_def run_validation_def materialize_crid_def Let_def materialize_sql_total
          mapM_insert_row drop_and_create_table_def create_schema_def create_indexes_def
          split: option.splits)
next
  assume W: "W \<in> {3, 4}" and full: "\<not> dry_run a \<and> \<not> validate a"
  show "metrics_crid_monthly (fst (main (a\<lparr>volatility_window := W\<rparr>) conn)) \<noteq> None"
    using W full
    by (auto simp: main_def run_validation_def materialize_crid_def Let_def materialize_sql_total
          mapM_insert_row drop_and_create_table_def create_schema_def create_indexes_def
          split: option.splits)
qed

theorem volatility_window_validation_witness:
  "(5::int) \<notin> {3, 4} \<and> (3::int) \<in> {3, 4} \<and> \<not> dry_run (full_run 0) \<and> \<not> validate (full_run 0) \<and>
   materialize_crid empty_conn 5 = (empty_conn, Inl ValueError) \<and>
   main (full_run 5) empty_conn = (empty_conn, Some ArgparseError) \<and>
   snd (materialize_crid empty_conn 3) \<noteq> Inl ValueError \<and>
   snd (main (full_run 3) empty_conn) \<noteq> Some ArgparseError \<and>
   metrics_crid_monthly (fst (main (full_run 3) empty_conn)) \<noteq> None"
  using volatility_window_validation [of 5 empty_conn "full_run 0"]
        volatility_window_validation [of 3 empty_conn "full_run 0"]
  by (simp add: full_run_def)

subsection \<open>Flags\<close>

lemma set_array_remove_null: "x \<in> set (array_remove_null xs) \<longleftrightarrow> Some x \<in> set xs"
  by (induction xs rule: array_remove_null.induct) auto

lemma case_when_eq: "Some x = case_when c v \<longleftrightarrow> c = Some True \<and> v = x"
  by (auto simp: case_when_def)

lemma sql_cmp_True:
  "sql_gt a (Some t) = Some True \<longleftrightarrow> (\<exists>v. a = Some v \<and> t < v)"
  "sql_lt a (Some t) = Some True \<longleftrightarrow> (\<exists>v. a = Some v \<and> v < t)"
  by (auto simp: sql_gt_def sql_lt_def split: option.splits)

lemma sql_and_True: "sql_and a b = Some True \<longleftrightarrow> a = Some True \<and> b = Some True"
  by (auto simp: sql_and_def)

lemma sql_abs_Some: "sql_abs a = Some v \<longleftrightarrow> (\<exists>x. a = Some x \<and> v = \<bar>x\<bar>)"
  by (cases a) (auto simp: sql_abs_def)

lemma flags_iff:
  fixes r :: "'a crid_row_scheme"
  shows "''INCOMPLETE_MEASURES'' \<in> set (flags_expr r) \<longleftrightarrow> \<not> is_complete r"
    "''SMALL_STATE'' \<in> set (flags_expr r) \<longleftrightarrow> is_small_state r"
    "''HIGH_POSITIVE_CRID'' \<in> set (flags_expr r) \<longleftrightarrow> (\<exists>v. crid_value r = Some v \<and> 2 < v)"
    "''HIGH_NEGATIVE_CRID'' \<in> set (flags_expr r) \<longleftrightarrow> (\<exists>v. crid_value r = Some v \<and> v < - 2)"
    "''EXTREME_POSITIVE_CRID'' \<in> set (flags_expr r) \<longleftrightarrow> (\<exists>v. crid_value r = Some v \<and> 3 < v)"
    "''EXTREME_NEGATIVE_CRID'' \<in> set (flags_expr r) \<longleftrightarrow> (\<exists>v. crid_value r = Some v \<and> v < - 3)"
    "''HIGH_VOLATILITY'' \<in> set (flags_expr r) \<longleftrightarrow> (\<exists>v. crid_volatility r = Some v \<and> 3 / 2 < v)"
    "''MDS_OUTLIER'' \<in> set (flags_expr r) \<longleftrightarrow>
       (\<exists>q u. mds_z_score r = Some q \<and> claims_z_score r = Some u \<and> 2 < \<bar>q\<bar> \<and> \<bar>u\<bar> < 1)"
    "''CLAIMS_OUTLIER'' \<in> set (flags_expr r) \<longleftrightarrow>
       (\<exists>q u. mds_z_score r = Some q \<and> claims_z_score r = Some u \<and> 2 < \<bar>u\<bar> \<and> \<bar>q\<bar> < 1)"
  unfolding flags_expr_def set_array_remove_null
  by (simp_all add: case_when_eq sql_cmp_True sql_and_True sql_abs_Some) auto

lemma flags_expr_cong:
  fixes r :: "'a crid_row_scheme" and r' :: "'b crid_row_scheme"
  assumes "is_complete r = is_complete r'" "is_small_state r = is_small_state r'"
    "crid_value r = crid_value r'" "crid_volatility r = crid_volatility r'"
    "mds_z_score r = mds_z_score r'" "claims_z_score r = claims_z_score r'"
  shows "flags_expr r = flags_expr r'"
  by (simp add: flags_expr_def assms)

lemma final_select_flags: "flags (final_select c) = flags_expr (final_select c)"
  unfolding final_select_def by (simp, rule flags_expr_cong) simp_all

lemma output_small_state:
  assumes "materialize_sql p mds claims defs = Inr out" "r \<in> set out"
  shows "flags r = flags_expr r"
    and "is_small_state r \<longleftrightarrow> length (cohort out (state r) (extract_id r)) < 10"
proof -
  let ?comps = "facility_rows mds claims defs"
  let ?zs = "map (z_of ?comps) ?comps"
  let ?h = "\<lambda>f. final_select (with_crid_row p ?zs (z_of ?comps f))"
  have out: "out = map ?h ?comps"
    using assms(1) by (simp add: materialize_sql_total)
  then obtain f where f: "f \<in> set ?comps" "r = ?h f" using assms(2) by auto
  show "flags r = flags_expr r" unfolding f(2) by (rule final_select_flags)
  have "\<exists>f' :: composite_row. state r = state f' \<and> extract_id r = extract_id f' \<and>
      length (cohort out (state r) (extract_id r)) = length (cohort ?comps (state f') (extract_id f'))"
    by (rule output_row [OF assms]) blast
  then obtain f' :: composite_row where f': "state r = state f'" "extract_id r = extract_id f'"
      "length (cohort out (state r) (extract_id r)) = length (cohort ?comps (state f') (extract_id f'))"
    by blast
  have "is_small_state r \<longleftrightarrow> length (cohort ?comps (state f) (extract_id f)) < 10"
    by (simp add: f(2) final_fields z_of_fields stats_for_count coalesce_count_def)
  moreover have "state f = state f'" "extract_id f = extract_id f'"
    using f' by (simp_all add: f(2) final_fields z_of_fields)
  ultimately show "is_small_state r \<longleftrightarrow> length (cohort out (state r) (extract_id r)) < 10"
    using f'(3) by simp
qed

subsection \<open>C8: flag semantics\<close>

text \<open>
  C8. Each magnitude, volatility and outlier flag is present exactly when its operand is
  non-NULL and passes the strict comparison; an extreme flag never comes without the
  corresponding high flag; and in the output every row whose (state, extract) has fewer than
  10 complete facilities carries \<^verbatim>\<open>SMALL_STATE\<close>, whether or not the row itself is
  complete.
\<close>

theorem flag_semantics:
  fixes r :: "'a crid_row_scheme"
  shows
  "(''HIGH_POSITIVE_CRID'' \<in> set (flags_expr r) \<longleftrightarrow> (\<exists>v. crid_value r = Some v \<and> 2 < v)) \<and>
   (''HIGH_NEGATIVE_CRID'' \<in> set (flags_expr r) \<longleftrightarrow> (\<exists>v. crid_value r = Some v \<and> v < - 2)) \<and>
   (''EXTREME_POSITIVE_CRID'' \<in> set (flags_expr r) \<longleftrightarrow> (\<exists>v. crid_value r = Some v \<and> 3 < v)) \<and>
   (''EXTREME_NEGATIVE_CRID'' \<in> set (flags_expr r) \<longleftrightarrow> (\<exists>v. crid_value r = Some v \<and> v < - 3)) \<and>
   (''HIGH_VOLATILITY'' \<in> set (flags_expr r) \<longleftrightarrow> (\<exists>v. crid_volatility r = Some v \<and> 3 / 2 < v)) \<and>
   (''MDS_OUTLIER'' \<in> set (flags_expr r) \<longleftrightarrow>
       (\<exists>q u. mds_z_score r = Some q \<and> claims_z_score r = Some u \<and> 2 < \<bar>q\<bar> \<and> \<bar>u\<bar> < 1)) \<and>
   (''CLAIMS_OUTLIER'' \<in> set (flags_expr r) \<longleftrightarrow>
       (\<exists>q u. mds_z_score r = Some q \<and> claims_z_score r = Some u \<and> 2 < \<bar>u\<bar> \<and> \<bar>q\<bar> < 1)) \<and>
   (''EXTREME_POSITIVE_CRID'' \<in> set (flags_expr r) \<longrightarrow> ''HIGH_POSITIVE_CRID'' \<in> set (flags_expr r)) \<and>
   (''EXTREME_NEGATIVE_CRID'' \<in> set (flags_expr r) \<longrightarrow> ''HIGH_NEGATIVE_CRID'' \<in> set (flags_expr r)) \<and>
   (materialize_sql p mds claims defs = Inr out \<and> x \<in> set out \<longrightarrow>
      flags x = flags_expr x \<and>
      (''SMALL_STATE'' \<in> set (flags x) \<longleftrightarrow> length (cohort out (state x) (extract_id x)) < 10) \<and>
      (''INCOMPLETE_MEASURES'' \<in> set (flags x) \<longleftrightarrow> \<not> is_complete x))"
proof -
  have ext: "''EXTREME_POSITIVE_CRID'' \<in> set (flags_expr r) \<longrightarrow> ''HIGH_POSITIVE_CRID'' \<in> set (flags_expr r)"
    "''EXTREME_NEGATIVE_CRID'' \<in> set (flags_expr r) \<longrightarrow> ''HIGH_NEGATIVE_CRID'' \<in> set (flags_expr r)"
    unfolding flags_iff by auto
  have pipe: "flags x = flags_expr x \<and>
      (''SMALL_STATE'' \<in> set (flags x) \<longleftrightarrow> length (cohort out (state x) (extract_id x)) < 10) \<and>
      (''INCOMPLETE_MEASURES'' \<in> set (flags x) \<longleftrightarrow> \<not> is_complete x)"
    if "materialize_sql p mds claims defs = Inr out" "x \<in> set out"
    using output_small_state [OF that] by (simp add: flags_iff)
  show ?thesis using flags_iff(3-9) [of r] ext pipe by blast
qed


lemma ex8_facility_rows:
  "map is_complete (facility_rows ex4_mds (ex_claims_rows ''015009'' 4) defs) = [True]"
  by (simp add: facility_rows_def with_composites_def with_composites_row_def
        all_facilities_def all_facilities_row_def facility_join_def left_join_def
        mds_base_def claims_base_def group_by_def ex4_mds_def ex_claims_rows_def ex_mds_rows_def
        mds_value_def mds_sup_def claims_value_def claims_sup_def max_flag_def
        c_measure_551_def c_measure_552_def coalesce_sup_551_def coalesce_sup_552_def)

theorem flag_semantics_witness:
  "(\<exists>out r. materialize_sql 2 ex4_mds (ex_claims_rows ''015009'' 4) ex_defs = Inr out \<and>
       r \<in> set out \<and> is_complete r \<and> length (cohort out (state r) (extract_id r)) = 1 \<and>
       ''SMALL_STATE'' \<in> set (flags r) \<and> ''INCOMPLETE_MEASURES'' \<notin> set (flags r)) \<and>
   ''HIGH_POSITIVE_CRID'' \<notin> set (flags_expr (ex_flag_row (Some 2))) \<and>
   ''HIGH_POSITIVE_CRID'' \<in> set (flags_expr (ex_flag_row (Some (20001 / 10000)))) \<and>
   ''HIGH_POSITIVE_CRID'' \<in> set (flags_expr (ex_flag_row (Some (7 / 2)))) \<and>
   ''EXTREME_POSITIVE_CRID'' \<in> set (flags_expr (ex_flag_row (Some (7 / 2)))) \<and>
   ''HIGH_POSITIVE_CRID'' \<notin> set (flags_expr (ex_flag_row None)) \<and>
   ''HIGH_NEGATIVE_CRID'' \<notin> set (flags_expr (ex_flag_row None))"
proof -
  obtain out where out: "materialize_sql 2 ex4_mds (ex_claims_rows ''015009'' 4) ex_defs = Inr out"
    by (simp add: materialize_sql_total)
  have "map is_complete out =
          map is_complete (facility_rows ex4_mds (ex_claims_rows ''015009'' 4) ex_defs)"
    using out by (auto simp: materialize_sql_total final_fields z_of_fields)
  then have "map is_complete out = [True]" by (simp add: ex8_facility_rows)
  then obtain r where r: "out = [r]" "is_complete r" by auto
  have c: "length (cohort out (state r) (extract_id r)) = 1"
    by (simp add: r cohort_def)
  have rin: "r \<in> set out" by (simp add: r)
  note last = flag_semantics [THEN conjunct2, THEN conjunct2, THEN conjunct2, THEN conjunct2,
      THEN conjunct2, THEN conjunct2, THEN conjunct2, THEN conjunct2, THEN conjunct2]
  have "(''SMALL_STATE'' \<in> set (flags r) \<longleftrightarrow> length (cohort out (state r) (extract_id r)) < 10) \<and>
      (''INCOMPLETE_MEASURES'' \<in> set (flags r) \<longleftrightarrow> \<not> is_complete r)"
    using last [of 2 ex4_mds "ex_claims_rows ''015009'' 4" ex_defs out r] out rin by blast
  then have "''SMALL_STATE'' \<in> set (flags r) \<and> ''INCOMPLETE_MEASURES'' \<notin> set (flags r)"
    using c r(2) by simp
  with out c r(2) rin have 1: "\<exists>out r. materialize_sql 2 ex4_mds (ex_claims_rows ''015009'' 4) ex_defs = Inr out \<and>
       r \<in> set out \<and> is_complete r \<and> length (cohort out (state r) (extract_id r)) = 1 \<and>
       ''SMALL_STATE'' \<in> set (flags r) \<and> ''INCOMPLETE_MEASURES'' \<notin> set (flags r)"
    by blast
  note hp = flag_semantics [THEN conjunct1]
  note hn = flag_semantics [THEN conjunct2, THEN conjunct1]
  note ep = flag_semantics [THEN conjunct2, THEN conjunct2, THEN conjunct1]
  have cv: "crid_value (ex_flag_row v) = v" for v by (simp add: ex_flag_row_def)
  have 2: "''HIGH_POSITIVE_CRID'' \<notin> set (flags_expr (ex_flag_row (Some 2)))"
    unfolding hp cv by simp
  have 3: "''HIGH_POSITIVE_CRID'' \<in> set (flags_expr (ex_flag_row (Some (20001 / 10000))))"
    unfolding hp cv by (rule exI [of _ "20001 / 10000"]) simp
  have 4: "''HIGH_POSITIVE_CRID'' \<in> set (flags_expr (ex_flag_row (Some (7 / 2))))"
     "''EXTREME_POSITIVE_CRID'' \<in> set (flags_expr (ex_flag_row (Some (7 / 2))))"
    unfolding hp ep cv by (rule exI [of _ "7 / 2"], simp)+
  have 5: "''HIGH_POSITIVE_CRID'' \<notin> set (flags_expr (ex_flag_row None))"
     "''HIGH_NEGATIVE_CRID'' \<notin> set (flags_expr (ex_flag_row None))"
    unfolding hp hn cv by simp_all
  from 1 2 3 4 5 show ?thesis by blast
qed

subsection \<open>Weights\<close>

lemma sql_max_None: "sql_max xs = None \<longleftrightarrow> (\<forall>x\<in>set xs. x = None)"
  by (induction xs rule: sql_max.induct) (auto split: option.splits)

lemma sql_max_Some:
  "sql_max xs = Some m \<Longrightarrow> m = Max {y. Some y \<in> set xs}"
proof (induction xs arbitrary: m rule: sql_max.induct)
  case 1
  then show ?case by simp
next
  case (2 xs)
  from "2.prems" have "sql_max xs = Some m" by simp
  then have "m = Max {y. Some y \<in> set xs}" by (rule "2.IH")
  moreover have "{y. Some y \<in> set (None # xs)} = {y. Some y \<in> set xs}" by auto
  ultimately show ?case by simp
next
  case (3 x xs)
  have fin: "finite {y. Some y \<in> set xs}"
  proof -
    have "{y. Some y \<in> set xs} \<subseteq> the ` set xs" by force
    then show ?thesis by (rule finite_subset) simp
  qed
  have split: "{y. Some y \<in> set (Some x # xs)} = insert x {y. Some y \<in> set xs}" by auto
  show ?case
  proof (cases "sql_max xs")
    case None
    then have "\<forall>z\<in>set xs. z = None" by (simp add: sql_max_None)
    then have "{y. Some y \<in> set xs} = {}" by force
    with "3.prems" None show ?thesis by (simp add: split)
  next
    case (Some m')
    then have m': "m' = Max {y. Some y \<in> set xs}" by (rule "3.IH")
    have "\<exists>z\<in>set xs. z \<noteq> None"
      using Some sql_max_None [of xs] by simp
    then obtain y where "Some y \<in> set xs" by force
    then have ne: "{y. Some y \<in> set xs} \<noteq> {}" by blast
    from "3.prems" Some have "m = max x m'" by simp
    then show ?thesis unfolding split m' using fin ne by (simp add: Max_insert)
  qed
qed

lemma weight_of_None:
  "weight_of code (measure_weights defs) = None \<longleftrightarrow>
     (\<forall>d\<in>set defs. d_used_in_crid d = Some True \<and> d_measure_code d = code \<longrightarrow> d_crid_weight d = None)"
proof -
  let ?g = "\<lambda>d. if d_measure_code d = code then d_crid_weight d else None"
  have "weight_of code (measure_weights defs) = None \<longleftrightarrow> (\<forall>d\<in>set (measure_weights defs). ?g d = None)"
    unfolding weight_of_def sql_max_None set_map by (simp only: ball_simps)
  also have "\<dots> \<longleftrightarrow> (\<forall>d\<in>set defs. d_used_in_crid d = Some True \<and> d_measure_code d = code \<longrightarrow> d_crid_weight d = None)"
  proof
    assume L: "\<forall>d\<in>set (measure_weights defs). ?g d = None"
    show "\<forall>d\<in>set defs. d_used_in_crid d = Some True \<and> d_measure_code d = code \<longrightarrow> d_crid_weight d = None"
    proof (intro ballI impI)
      fix d assume d: "d \<in> set defs" "d_used_in_crid d = Some True \<and> d_measure_code d = code"
      then have "d \<in> set (measure_weights defs)" by (simp add: measure_weights_def)
      with L have "?g d = None" by blast
      with d(2) show "d_crid_weight d = None" by simp
    qed
  next
    assume R: "\<forall>d\<in>set defs. d_used_in_crid d = Some True \<and> d_measure_code d = code \<longrightarrow> d_crid_weight d = None"
    show "\<forall>d\<in>set (measure_weights defs). ?g d = None"
    proof
      fix d assume "d \<in> set (measure_weights defs)"
      then have d: "d \<in> set defs" "d_used_in_crid d = Some True" by (simp_all add: measure_weights_def)
      show "?g d = None"
      proof (cases "d_measure_code d = code")
        case True
        with R d have "d_crid_weight d = None" by blast
        with True show ?thesis by simp
      next
        case False
        then show ?thesis by simp
      qed
    qed
  qed
  finally show ?thesis .
qed

lemma weight_of_Some:
  assumes "weight_of code (measure_weights defs) = Some x"
  shows "x = Max {y. \<exists>d\<in>set defs. d_used_in_crid d = Some True \<and> d_measure_code d = code \<and> d_crid_weight d = Some y}"
proof -
  let ?xs = "map (\<lambda>d. if d_measure_code d = code then d_crid_weight d else None) (measure_weights defs)"
  have "x = Max {y. Some y \<in> set ?xs}"
    using assms unfolding weight_of_def by (rule sql_max_Some)
  moreover have "Some y \<in> set ?xs \<longleftrightarrow>
     (\<exists>d\<in>set defs. d_used_in_crid d = Some True \<and> d_measure_code d = code \<and> d_crid_weight d = Some y)" for y
  proof
    assume "Some y \<in> set ?xs"
    then obtain d where d: "d \<in> set (measure_weights defs)"
        "Some y = (if d_measure_code d = code then d_crid_weight d else None)"
      unfolding set_map image_iff by blast
    then have "d_measure_code d = code \<and> d_crid_weight d = Some y"
      by (cases "d_measure_code d = code") simp_all
    moreover have "d \<in> set defs \<and> d_used_in_crid d = Some True"
      using d(1) by (simp add: measure_weights_def)
    ultimately show "\<exists>d\<in>set defs. d_used_in_crid d = Some True \<and> d_measure_code d = code \<and> d_crid_weight d = Some y"
      by blast
  next
    assume "\<exists>d\<in>set defs. d_used_in_crid d = Some True \<and> d_measure_code d = code \<and> d_crid_weight d = Some y"
    then obtain d where d: "d \<in> set defs" "d_used_in_crid d = Some True" "d_measure_code d = code"
        "d_crid_weight d = Some y" by blast
    then have "d \<in> set (measure_weights defs)" by (simp add: measure_weights_def)
    moreover have "(if d_measure_code d = code then d_crid_weight d else None) = Some y"
      using d by simp
    ultimately show "Some y \<in> set ?xs"
      unfolding set_map image_iff by (intro bexI [of _ d]) simp_all
  qed
  ultimately show ?thesis by simp
qed

lemma sql_null_arith:
  "sql_mul None b = None" "sql_add None b = None" "sql_add a None = None"
  by (simp_all add: sql_mul_def sql_add_def split: option.splits)

lemma composite_null_weight:
  assumes "f \<in> set (facility_rows mds claims defs)"
  shows "weight_of ''410'' (measure_weights defs) = None \<or> weight_of ''453'' (measure_weights defs) = None \<or>
         weight_of ''407'' (measure_weights defs) = None \<or> weight_of ''409'' (measure_weights defs) = None
           \<Longrightarrow> mds_composite f = None"
    and "weight_of ''551'' (measure_weights defs) = None \<or> weight_of ''552'' (measure_weights defs) = None
           \<Longrightarrow> claims_utilization f = None"
proof -
  let ?w = "weight_values (measure_weights defs)"
  obtain f0 where f: "f = with_composites_row ?w f0"
    using assms by (auto simp: facility_rows_def with_composites_def)
  have w: "w_410 ?w = weight_of ''410'' (measure_weights defs)"
    "w_453 ?w = weight_of ''453'' (measure_weights defs)"
    "w_407 ?w = weight_of ''407'' (measure_weights defs)"
    "w_409 ?w = weight_of ''409'' (measure_weights defs)"
    "w_551 ?w = weight_of ''551'' (measure_weights defs)"
    "w_552 ?w = weight_of ''552'' (measure_weights defs)"
    by (simp_all add: weight_values_def)
  have m: "mds_composite f =
      (if is_complete f0 then
            sql_add (sql_add (sql_add (sql_mul (w_410 ?w) (measure_410 f0))
                                      (sql_mul (w_453 ?w) (measure_453 f0)))
                             (sql_mul (w_407 ?w) (measure_407 f0)))
                    (sql_mul (w_409 ?w) (measure_409 f0))
          else None)"
    by (simp add: f with_composites_row_def)
  have c: "claims_utilization f =
      (if is_complete f0 then
            sql_add (sql_mul (w_551 ?w) (measure_551 f0)) (sql_mul (w_552 ?w) (measure_552 f0))
          else None)"
    by (simp add: f with_composites_row_def)
  show "mds_composite f = None"
    if "weight_of ''410'' (measure_weights defs) = None \<or> weight_of ''453'' (measure_weights defs) = None \<or>
         weight_of ''407'' (measure_weights defs) = None \<or> weight_of ''409'' (measure_weights defs) = None"
    using that unfolding m w by (auto simp: sql_null_arith)
  show "claims_utilization f = None"
    if "weight_of ''551'' (measure_weights defs) = None \<or> weight_of ''552'' (measure_weights defs) = None"
    using that unfolding c w by (auto simp: sql_null_arith)
qed


lemma output_map:
  assumes "materialize_sql p mds claims defs = Inr out"
  shows "map ccn out = map ccn (facility_rows mds claims defs)"
    "map extract_id out = map extract_id (facility_rows mds claims defs)"
    "map is_complete out = map is_complete (facility_rows mds claims defs)"
    "map mds_composite out = map mds_composite (facility_rows mds claims defs)"
    "map claims_utilization out = map claims_utilization (facility_rows mds claims defs)"
    "map measures_present out = map measures_present (facility_rows mds claims defs)"
    "length out = length (facility_rows mds claims defs)"
  using assms by (auto simp: materialize_sql_total final_fields z_of_fields)

lemma c7_composites:
  "map mds_composite (facility_rows ex4_mds (ex_claims_rows ''015009'' 4) c7_duplicate_defs) = [Some 12]"
  by (simp add: facility_rows_def with_composites_def with_composites_row_def
        all_facilities_def all_facilities_row_def facility_join_def left_join_def
        mds_base_def claims_base_def group_by_def ex4_mds_def ex_claims_rows_def ex_mds_rows_def
        mds_value_def mds_sup_def claims_value_def claims_sup_def max_flag_def
        c_measure_551_def c_measure_552_def coalesce_sup_551_def coalesce_sup_552_def
        weight_values_def weight_of_def measure_weights_def c7_duplicate_defs_def ex_defs_def
        sql_add_def sql_mul_def)

lemma single_row_unique: "length out = 1 \<Longrightarrow> crid_monthly_unique out"
  by (cases out) (simp_all add: crid_monthly_unique_def)

subsection \<open>The window frame\<close>

lemma filter_index_interval:
  assumes "\<And>j. j < length s \<Longrightarrow> P (s ! j) \<longleftrightarrow> a \<le> j \<and> j < b"
  shows "filter P s = drop a (take b s)"
  using assms
proof (induction s arbitrary: a b)
  case Nil
  then show ?case by simp
next
  case (Cons x xs)
  have head: "P x \<longleftrightarrow> a = 0 \<and> 0 < b"
    using Cons.prems [of 0] by simp
  have tail: "P (xs ! j) \<longleftrightarrow> a - 1 \<le> j \<and> j < b - 1" if "j < length xs" for j
    using Cons.prems [of "Suc j"] that by auto
  have IH: "filter P xs = drop (a - 1) (take (b - 1) xs)"
    by (rule Cons.IH) (rule tail)
  show ?case
  proof (cases a)
    case 0
    then show ?thesis using head IH by (cases b) simp_all
  next
    case (Suc a')
    then show ?thesis using head IH by (cases b) simp_all
  qed
qed

lemma strict_sorted_nth:
  assumes "sorted (map f s)" "distinct (map f s)" "j < length s" "k < length s"
  shows "f (s ! j) < f (s ! k) \<longleftrightarrow> j < k"
    and "f (s ! j) \<le> f (s ! k) \<longleftrightarrow> j \<le> k"
proof -
  have ss: "sorted_wrt (<) (map f s)"
    using assms(1,2) by (simp add: strict_sorted_iff)
  have lt: "f (s ! a) < f (s ! b)" if "a < b" "b < length s" for a b
    using sorted_wrt_nth_less [OF ss, of a b] that by simp
  show "f (s ! j) < f (s ! k) \<longleftrightarrow> j < k"
  proof
    assume "f (s ! j) < f (s ! k)"
    show "j < k"
    proof (rule ccontr)
      assume "\<not> j < k"
      then have "k = j \<or> k < j" by auto
      then show False
      proof
        assume "k = j" with \<open>f (s ! j) < f (s ! k)\<close> show False by simp
      next
        assume "k < j"
        from lt [OF this assms(3)] \<open>f (s ! j) < f (s ! k)\<close> show False by simp
      qed
    qed
  next
    assume "j < k" then show "f (s ! j) < f (s ! k)" by (rule lt) (rule assms(4))
  qed
  then show "f (s ! j) \<le> f (s ! k) \<longleftrightarrow> j \<le> k"
    using lt [of k j] assms(3) by (cases "j = k") (auto simp: not_less [symmetric] simp del: not_less)
qed

lemma row_position_nth:
  "z \<in> set s \<Longrightarrow> row_position z s < length s \<and> s ! row_position z s = z"
  by (induction s) auto

lemma sorted_window:
  assumes "sorted (map f s)" "distinct (map f s)" "i < length s"
  shows "filter (\<lambda>x. f x \<le> f (s ! i) \<and>
                      length (filter (\<lambda>y. f x < f y \<and> f y \<le> f (s ! i)) s) < Suc p) s
         = drop (i - p) (take (Suc i) s)"
proof (rule filter_index_interval)
  fix j assume j: "j < length s"
  note nth = strict_sorted_nth [OF assms(1,2)]
  have count: "length (filter (\<lambda>y. f (s ! j) < f y \<and> f y \<le> f (s ! i)) s) = i - j"
  proof -
    have "filter (\<lambda>y. f (s ! j) < f y \<and> f y \<le> f (s ! i)) s = drop (Suc j) (take (Suc i) s)"
    proof (rule filter_index_interval)
      fix k assume k: "k < length s"
      show "(f (s ! j) < f (s ! k) \<and> f (s ! k) \<le> f (s ! i)) = (Suc j \<le> k \<and> k < Suc i)"
        using nth(1) [OF j k] nth(2) [OF k assms(3)] by auto
    qed
    then show ?thesis using assms(3) by simp
  qed
  show "(f (s ! j) \<le> f (s ! i) \<and>
          length (filter (\<lambda>y. f (s ! j) < f y \<and> f y \<le> f (s ! i)) s) < Suc p)
        = (i - p \<le> j \<and> j < Suc i)"
    unfolding count nth(2) [OF j assms(3)] by auto
qed

lemma distinct_partition_keys:
  assumes "distinct (map (\<lambda>z. (g z, f z)) zs)"
  shows "distinct (map f (filter (\<lambda>x. g x = c) zs))"
  using assms
proof (induction zs)
  case Nil
  then show ?case by simp
next
  case (Cons a zs)
  then have IH: "distinct (map f (filter (\<lambda>x. g x = c) zs))"
    and new: "(g a, f a) \<notin> (\<lambda>z. (g z, f z)) ` set zs" by simp_all
  show ?case
  proof (cases "g a = c")
    case True
    have "f a \<notin> f ` {x \<in> set zs. g x = c}"
    proof
      assume "f a \<in> f ` {x \<in> set zs. g x = c}"
      then obtain x where "x \<in> set zs" "g x = c" "f a = f x" by auto
      with True have "(g a, f a) = (g x, f x)" by simp
      with \<open>x \<in> set zs\<close> new show False by force
    qed
    with True IH show ?thesis by simp
  next
    case False
    with IH show ?thesis by simp
  qed
qed

lemma length_filter_mset: "mset xs = mset ys \<Longrightarrow> length (filter P xs) = length (filter P ys)"
  by (metis mset_filter size_mset)

lemma window_frame_spec:
  assumes d: "distinct (map (\<lambda>z. (ccn z, extract_id z)) zs)" and z: "z \<in> set zs"
  shows "mset (window_frame p zs z) =
         mset (filter (\<lambda>x. ccn x = ccn z \<and> extract_id x \<le> extract_id z \<and>
                 length (filter (\<lambda>y. ccn y = ccn z \<and> extract_id x < extract_id y \<and>
                                      extract_id y \<le> extract_id z) zs) < Suc p) zs)"
proof -
  let ?part = "filter (\<lambda>x. ccn x = ccn z) zs"
  let ?s = "sort_key extract_id ?part"
  let ?i = "row_position z ?s"
  let ?Qs = "\<lambda>x. extract_id x \<le> extract_id z \<and>
                length (filter (\<lambda>y. extract_id x < extract_id y \<and> extract_id y \<le> extract_id z) ?s) < Suc p"
  let ?Qp = "\<lambda>x. extract_id x \<le> extract_id z \<and>
                length (filter (\<lambda>y. extract_id x < extract_id y \<and> extract_id y \<le> extract_id z) ?part) < Suc p"
  have ms: "mset ?s = mset ?part" by simp
  have dp: "distinct (map extract_id ?part)"
    using d by (rule distinct_partition_keys)
  have "mset (map extract_id ?s) = mset (map extract_id ?part)" by simp
  then have ds: "distinct (map extract_id ?s)"
    using dp by (metis mset_eq_imp_distinct_iff)
  have so: "sorted (map extract_id ?s)" by (rule sorted_sort_key)
  have "z \<in> set ?s" using z by simp
  then have i: "?i < length ?s" "?s ! ?i = z"
    using row_position_nth [of z ?s] by simp_all
  have "window_frame p zs z = drop (?i - p) (take (Suc ?i) ?s)"
    by (simp add: window_frame_def Let_def)
  also have "\<dots> = filter ?Qs ?s"
    using sorted_window [OF so ds i(1), of p] unfolding i(2) by simp
  finally have "mset (window_frame p zs z) = mset (filter ?Qs ?s)" by simp
  also have "?Qs = ?Qp"
    using length_filter_mset [OF ms] by (auto simp: fun_eq_iff)
  also have "mset (filter ?Qp ?s) = mset (filter ?Qp ?part)"
    by (simp only: mset_filter mset_sort)
  also have "filter ?Qp ?part =
      filter (\<lambda>x. ccn x = ccn z \<and> extract_id x \<le> extract_id z \<and>
                 length (filter (\<lambda>y. ccn y = ccn z \<and> extract_id x < extract_id y \<and>
                                      extract_id y \<le> extract_id z) zs) < Suc p) zs"
    by (simp add: conj_commute conj_left_commute cong: conj_cong)
  finally show ?thesis .
qed

lemma sql_sub_crid_expr: "sql_sub (mds_z_score x) (claims_z_score x) = crid_expr x"
  by (simp add: crid_expr_def sql_sub_def split: option.splits)

lemma with_crid_row_fields:
  "ccn (with_crid_row p zs z) = ccn z"
  "extract_id (with_crid_row p zs z) = extract_id z"
  "crid_value (with_crid_row p zs z) = crid_expr z"
  by (simp_all add: with_crid_row_def)

lemma with_crid_row_volatility:
  "crid_volatility (with_crid_row p zs z) =
     (if crid_expr z \<noteq> None then sql_stddev_pop (map crid_expr (window_frame p zs z)) else None)"
  unfolding crid_expr_None by (simp add: with_crid_row_def sql_sub_crid_expr)

lemma mset_array_remove_null:
  "mset (array_remove_null xs) = image_mset the (filter_mset (\<lambda>x. x \<noteq> None) (mset xs))"
  by (induction xs rule: array_remove_null.induct) simp_all

lemma stddev_pop_mset:
  assumes "mset xs = mset ys"
  shows "stddev_pop xs = stddev_pop ys"
proof -
  have l: "length xs = length ys" using assms by (rule mset_eq_length)
  have s: "sum_list (map g xs) = sum_list (map g ys)" for g :: "real \<Rightarrow> real"
    using assms by (metis mset_map sum_mset_sum_list)
  have "sum_list xs = sum_list ys" using s [of "\<lambda>x. x"] by simp
  then have a: "avg xs = avg ys" by (simp add: avg_def l)
  show ?thesis unfolding stddev_pop_def a l s ..
qed

lemma sql_stddev_pop_mset:
  assumes "mset xs = mset ys"
  shows "sql_stddev_pop xs = sql_stddev_pop ys"
proof -
  have m: "mset (array_remove_null xs) = mset (array_remove_null ys)"
    by (simp add: mset_array_remove_null assms)
  then have "array_remove_null xs = [] \<longleftrightarrow> array_remove_null ys = []"
    by (metis mset_zero_iff)
  then show ?thesis
    using stddev_pop_mset [OF m] by (simp add: sql_stddev_pop_def Let_def)
qed

lemma spec_window_map:
  fixes h :: "'a facility_scheme \<Rightarrow> 'b facility_scheme"
  assumes "\<And>x. ccn (h x) = ccn x" "\<And>x. extract_id (h x) = extract_id x"
  shows "spec_window W (map h zs) (h z) =
     map h (filter (\<lambda>x. ccn x = ccn z \<and> extract_id x \<le> extract_id z \<and>
                 length (filter (\<lambda>y. ccn y = ccn z \<and> extract_id x < extract_id y \<and>
                                      extract_id y \<le> extract_id z) zs) < W) zs)"
  by (simp add: spec_window_def filter_map o_def assms)

lemma volatility_window:
  assumes d: "distinct (map (\<lambda>z. (ccn z, extract_id z)) zs)"
    and r: "r \<in> set (with_crid p zs)"
  shows "crid_volatility r =
     (if crid_value r = None then None
      else sql_stddev_pop (map crid_value (spec_window (Suc p) (with_crid p zs) r)))"
proof -
  obtain z where z: "z \<in> set zs" "r = with_crid_row p zs z"
    using r by (auto simp: with_crid_def)
  have w: "map crid_value (spec_window (Suc p) (with_crid p zs) r) =
      map crid_expr (filter (\<lambda>x. ccn x = ccn z \<and> extract_id x \<le> extract_id z \<and>
                 length (filter (\<lambda>y. ccn y = ccn z \<and> extract_id x < extract_id y \<and>
                                      extract_id y \<le> extract_id z) zs) < Suc p) zs)"
    unfolding with_crid_def z(2)
    by (subst spec_window_map) (simp_all add: with_crid_row_fields o_def)
  have "mset (map crid_expr (window_frame p zs z)) =
        mset (map crid_value (spec_window (Suc p) (with_crid p zs) r))"
    unfolding w mset_map window_frame_spec [OF d z(1)] ..
  then have "sql_stddev_pop (map crid_expr (window_frame p zs z)) =
        sql_stddev_pop (map crid_value (spec_window (Suc p) (with_crid p zs) r))"
    by (rule sql_stddev_pop_mset)
  then show ?thesis by (simp add: z(2) with_crid_row_fields with_crid_row_volatility)
qed

lemma with_crid_keys:
  "map (\<lambda>r. (ccn r, extract_id r)) (with_crid p zs) = map (\<lambda>z. (ccn z, extract_id z)) zs"
  by (simp add: with_crid_def with_crid_row_fields o_def)

lemma current_in_spec_window:
  "r \<in> set out \<Longrightarrow> r \<in> set (spec_window (Suc p) out r)"
proof -
  assume "r \<in> set out"
  have "filter (\<lambda>y. ccn y = ccn r \<and> extract_id r < extract_id y \<and> extract_id y \<le> extract_id r) out = []"
    by (simp add: filter_empty_conv)
  with \<open>r \<in> set out\<close> show ?thesis by (simp add: spec_window_def)
qed

lemma array_remove_null_map_filter:
  "array_remove_null (map f xs) = map (the \<circ> f) (filter (\<lambda>x. f x \<noteq> None) xs)"
  by (induction xs) (auto split: option.splits)

lemma sql_stddev_pop_Some:
  "\<exists>x\<in>set xs. x \<noteq> None \<Longrightarrow> sql_stddev_pop xs = Some (stddev_pop (array_remove_null xs))"
  by (simp add: sql_stddev_pop_def Let_def array_remove_null_empty)

lemma volatility_window_values:
  assumes d: "distinct (map (\<lambda>z. (ccn z, extract_id z)) zs)"
    and r: "r \<in> set (with_crid p zs)" and v: "crid_value r \<noteq> None"
  shows "crid_volatility r =
     Some (stddev_pop (array_remove_null (map crid_value (spec_window (Suc p) (with_crid p zs) r))))"
proof -
  have "r \<in> set (spec_window (Suc p) (with_crid p zs) r)"
    using r by (rule current_in_spec_window)
  with v have "\<exists>x\<in>set (map crid_value (spec_window (Suc p) (with_crid p zs) r)). x \<noteq> None"
    by auto
  then show ?thesis
    using volatility_window [OF d r] v by (simp add: sql_stddev_pop_Some)
qed

lemma spec_window_map':
  fixes h :: "'a facility_scheme \<Rightarrow> 'b facility_scheme"
  assumes "\<And>x. ccn (h x) = ccn x" "\<And>x. extract_id (h x) = extract_id x"
  shows "spec_window W (map h zs) (h z) = map h (spec_window W zs z)"
  unfolding spec_window_map [of h, OF assms] by (simp add: spec_window_def)

lemma final_select_fields:
  "ccn (final_select c) = ccn c" "extract_id (final_select c) = extract_id c"
  "crid_value (final_select c) = crid_value c" "crid_volatility (final_select c) = crid_volatility c"
  by (simp_all add: final_select_def)

lemma materialize_sql_with_crid:
  "materialize_sql p mds claims defs =
     Inr (map final_select (with_crid p (map (z_of (facility_rows mds claims defs))
                                            (facility_rows mds claims defs))))"
  by (simp add: materialize_sql_total with_crid_def o_def)

lemma output_with_crid:
  assumes out: "materialize_sql p mds claims defs = Inr out"
    and u: "crid_monthly_unique out" and x: "x \<in> set out"
  obtains zs c where "out = map final_select (with_crid p zs)"
    "distinct (map (\<lambda>z. (ccn z, extract_id z)) zs)"
    "c \<in> set (with_crid p zs)" "x = final_select c"
proof -
  let ?zs = "map (z_of (facility_rows mds claims defs)) (facility_rows mds claims defs)"
  have o: "out = map final_select (with_crid p ?zs)"
    using out by (simp add: materialize_sql_with_crid)
  have "map (\<lambda>r. (ccn r, extract_id r)) out = map (\<lambda>z. (ccn z, extract_id z)) ?zs"
    unfolding o with_crid_keys [symmetric, of ?zs p] by (simp add: o_def final_select_fields)
  then have d: "distinct (map (\<lambda>z. (ccn z, extract_id z)) ?zs)"
    using u by (simp add: crid_monthly_unique_def)
  obtain c where "c \<in> set (with_crid p ?zs)" "x = final_select c"
    using x unfolding o by auto
  with o d show thesis by (rule that)
qed

lemma output_volatility:
  assumes out: "materialize_sql p mds claims defs = Inr out"
    and u: "crid_monthly_unique out" and x: "x \<in> set out"
  shows "crid_volatility x =
     (if crid_value x = None then None
      else sql_stddev_pop (map crid_value (spec_window (Suc p) out x)))"
proof -
  obtain zs c where o: "out = map final_select (with_crid p zs)"
    and d: "distinct (map (\<lambda>z. (ccn z, extract_id z)) zs)"
    and c: "c \<in> set (with_crid p zs)" "x = final_select c"
    using output_with_crid [OF assms] by blast
  have "map crid_value (spec_window (Suc p) out x) =
        map crid_value (spec_window (Suc p) (with_crid p zs) c)"
    unfolding o c(2)
    by (subst spec_window_map') (simp_all add: final_select_fields o_def)
  then show ?thesis
    using volatility_window [OF d c(1)] by (simp add: c(2) final_select_fields)
qed

lemma current_in_frame:
  assumes "z \<in> set zs"
  shows "z \<in> set (window_frame p zs z)"
proof -
  let ?s = "sort_key extract_id (filter (\<lambda>x. ccn x = ccn z) zs)"
  let ?i = "row_position z ?s"
  have "z \<in> set ?s" using assms by simp
  then have i: "?i < length ?s" "?s ! ?i = z"
    using row_position_nth [of z ?s] by simp_all
  have f: "window_frame p zs z = drop (?i - p) (take (Suc ?i) ?s)"
    by (simp add: window_frame_def Let_def)
  have k: "?i - (?i - p) < length (drop (?i - p) (take (Suc ?i) ?s))"
    using i(1) by auto
  have "drop (?i - p) (take (Suc ?i) ?s) ! (?i - (?i - p)) = ?s ! ?i"
    using i(1) by simp
  then have "z = drop (?i - p) (take (Suc ?i) ?s) ! (?i - (?i - p))"
    using i(2) by simp
  then show ?thesis unfolding f using k by (metis nth_mem)
qed

lemma volatility_iff:
  assumes "r \<in> set (with_crid p zs)"
  shows "crid_volatility r \<noteq> None \<longleftrightarrow> crid_value r \<noteq> None"
proof -
  obtain z where z: "z \<in> set zs" "r = with_crid_row p zs z"
    using assms by (auto simp: with_crid_def)
  have "sql_stddev_pop (map crid_expr (window_frame p zs z)) \<noteq> None" if "crid_expr z \<noteq> None"
    unfolding sql_stddev_pop_None using current_in_frame [OF z(1), of p] that by auto
  then show ?thesis
    by (auto simp: z(2) with_crid_row_fields with_crid_row_volatility)
qed

lemma output_volatility_iff:
  assumes "materialize_sql p mds claims defs = Inr out" "x \<in> set out"
  shows "crid_volatility x \<noteq> None \<longleftrightarrow> crid_value x \<noteq> None"
proof -
  obtain c where c: "c \<in> set (with_crid p (map (z_of (facility_rows mds claims defs))
                                            (facility_rows mds claims defs)))" "x = final_select c"
    using assms unfolding materialize_sql_with_crid by auto
  show ?thesis unfolding c(2) final_select_fields by (rule volatility_iff [OF c(1)])
qed

lemma stddev_pop_single: "stddev_pop [v] = 0"
  by (simp add: stddev_pop_def avg_def)

lemma single_key_row:
  assumes d: "distinct (map f xs)" and r: "r \<in> set xs"
  shows "filter (\<lambda>x. f x = f r) xs = [r]"
  using assms
proof (induction xs)
  case Nil
  then show ?case by simp
next
  case (Cons a xs)
  then have new: "f a \<notin> f ` set xs" and d': "distinct (map f xs)" by simp_all
  show ?case
  proof (cases "r = a")
    case True
    have "\<forall>x\<in>set xs. f x \<noteq> f a"
      using new by (metis image_eqI)
    then have "filter (\<lambda>x. f x = f a) xs = []"
      by (simp add: filter_empty_conv)
    with True show ?thesis by simp
  next
    case False
    with Cons.prems have rin: "r \<in> set xs" by simp
    then have "f a \<noteq> f r" using new by auto
    with Cons.IH [OF d' rin] show ?thesis by simp
  qed
qed

lemma volatility_single:
  fixes zs :: "z_row list"
  assumes d: "distinct (map (\<lambda>z. (ccn z, extract_id z)) zs)"
    and r: "r \<in> set (with_crid p zs)" and v: "crid_value r \<noteq> None"
    and prev: "\<forall>y\<in>set (spec_window (Suc p) (with_crid p zs) r).
                 extract_id y < extract_id r \<longrightarrow> crid_value y = None"
  shows "crid_volatility r = Some 0"
proof -
  let ?out = "with_crid p zs"
  let ?key = "\<lambda>x::crid_row. (ccn x, extract_id x)"
  let ?win = "spec_window (Suc p) ?out r"
  have dk: "distinct (map ?key ?out)" using d by (simp only: with_crid_keys)
  have rw: "r \<in> set ?win" using r by (rule current_in_spec_window)
  have "filter (\<lambda>x. crid_value x \<noteq> None) ?win = filter (\<lambda>x. ?key x = ?key r) ?out"
  proof -
    have "filter (\<lambda>x. crid_value x \<noteq> None) ?win =
          filter (\<lambda>x. x \<in> set ?win \<and> crid_value x \<noteq> None) ?out"
      unfolding spec_window_def filter_filter
      by (rule filter_cong) auto
    also have "\<dots> = filter (\<lambda>x. ?key x = ?key r) ?out"
    proof (rule filter_cong [OF refl])
      fix x assume x: "x \<in> set ?out"
      show "(x \<in> set ?win \<and> crid_value x \<noteq> None) = (?key x = ?key r)"
      proof
        assume a: "x \<in> set ?win \<and> crid_value x \<noteq> None"
        then have "ccn x = ccn r" "extract_id x \<le> extract_id r"
          by (simp_all add: spec_window_def)
        moreover have "\<not> extract_id x < extract_id r"
        proof -
          from a have xw: "x \<in> set ?win" and xv: "crid_value x \<noteq> None" by simp_all
          from prev xw have "extract_id x < extract_id r \<longrightarrow> crid_value x = None"
            by (rule bspec)
          with xv show ?thesis by auto
        qed
        ultimately show "?key x = ?key r" by simp
      next
        assume "?key x = ?key r"
        then have "x = r"
          using dk x r by (metis (mono_tags, lifting) distinct_map inj_onD)
        with rw v show "x \<in> set ?win \<and> crid_value x \<noteq> None" by simp
      qed
    qed
    finally show ?thesis .
  qed
  also have "\<dots> = [r]" using dk r by (rule single_key_row)
  finally have "array_remove_null (map crid_value ?win) = [the (crid_value r)]"
    by (simp add: array_remove_null_map_filter)
  then show ?thesis
    unfolding volatility_window_values [OF d r v] by (simp add: stddev_pop_single)
qed

lemma ex_history_window:
  "map crid_value (spec_window 3 (with_crid 2 ex_history)
       (with_crid_row 2 ex_history (ex_z_row 202403 (Some (3 / 2))))) = [Some (3 / 2), Some (1 / 2), Some 1]"
  unfolding with_crid_def
  by (subst spec_window_map')
     (simp_all add: with_crid_row_fields o_def spec_window_def ex_history_def ex_z_row_def
        crid_expr_def sql_sub_def)

lemma ex_history_gap_window:
  "map crid_value (spec_window 3 (with_crid 2 ex_history_gap)
       (with_crid_row 2 ex_history_gap (ex_z_row 202403 (Some (3 / 2))))) = [Some (1 / 2), None, Some (3 / 2)]"
  unfolding with_crid_def
  by (subst spec_window_map')
     (simp_all add: with_crid_row_fields o_def spec_window_def ex_history_gap_def ex_z_row_def
        crid_expr_def sql_sub_def)

lemma stddev_examples:
  "stddev_pop [3 / 2, 1 / 2, 1] = sqrt (1 / 6)"
  "stddev_pop [1 / 2, 3 / 2] = 1 / 2"
proof -
  show "stddev_pop [3 / 2, 1 / 2, 1] = sqrt (1 / 6)"
    by (simp add: stddev_pop_def avg_def power2_eq_square)
  have "stddev_pop [1 / 2, 3 / 2] = sqrt ((1 / 2)\<^sup>2)"
    by (simp add: stddev_pop_def avg_def power2_eq_square)
  then show "stddev_pop [1 / 2, 3 / 2] = 1 / 2"
    by simp
qed

lemma sqrt_sixth_bounds: "4082 / 10000 < sqrt (1 / 6)" "sqrt (1 / 6) < 4083 / 10000"
proof -
  have "(4082 / 10000 :: real)\<^sup>2 < 1 / 6" by (simp add: power2_eq_square)
  then show "4082 / 10000 < sqrt (1 / 6)" by (rule real_less_rsqrt)
  have "1 / 6 < (4083 / 10000 :: real)\<^sup>2" by (simp add: power2_eq_square)
  then show "sqrt (1 / 6) < 4083 / 10000" by (intro real_less_lsqrt) simp_all
qed

lemma ex_history_rows:
  "distinct (map (\<lambda>z. (ccn z, extract_id z)) ex_history)"
  "distinct (map (\<lambda>z. (ccn z, extract_id z)) ex_history_gap)"
  "with_crid_row 2 ex_history (ex_z_row 202403 (Some (3 / 2))) \<in> set (with_crid 2 ex_history)"
  "with_crid_row 2 ex_history_gap (ex_z_row 202403 (Some (3 / 2))) \<in> set (with_crid 2 ex_history_gap)"
  "crid_value (with_crid_row 2 zs (ex_z_row 202403 (Some (3 / 2)))) = Some (3 / 2)"
  by (simp_all add: ex_history_def ex_history_gap_def ex_z_row_def with_crid_def
        with_crid_row_fields crid_expr_def sql_sub_def)

subsection \<open>Values that fit their columns\<close>

lemma fits_numeric_bound: "\<bar>x\<bar> \<le> 999999 \<Longrightarrow> fits_numeric 12 6 x"
proof -
  assume a: "\<bar>x\<bar> \<le> 999999"
  have "\<bar>sql_round x 6\<bar> = of_int \<lfloor>\<bar>x\<bar> * 10 ^ 6 + 1 / 2\<rfloor> / 10 ^ 6"
    by (cases "x = 0") (simp_all add: sql_round_def abs_mult abs_sgn_eq)
  also have "\<dots> \<le> (\<bar>x\<bar> * 10 ^ 6 + 1 / 2) / 10 ^ 6"
    by (intro divide_right_mono) simp_all
  also have "\<dots> < 10 ^ 6" using a by (simp add: field_simps)
  finally show ?thesis by (simp add: fits_numeric_def)
qed

lemma fits_12_6_bounded: "bounded_by B v \<Longrightarrow> B \<le> 999999 \<Longrightarrow> fits_12_6 v"
  by (cases v) (simp_all add: fits_12_6_def bounded_by_def fits_numeric_bound)

lemma bounded_by_mono: "bounded_by B v \<Longrightarrow> B \<le> C \<Longrightarrow> bounded_by C v"
  by (cases v) (simp_all add: bounded_by_def)

lemma sum_list_abs_bound:
  fixes xs :: "real list"
  assumes "\<forall>x\<in>set xs. \<bar>x\<bar> \<le> M"
  shows "\<bar>sum_list xs\<bar> \<le> M * real (length xs)"
  using assms by (induction xs) (auto simp: algebra_simps)

lemma sum_list_bound:
  fixes xs :: "real list"
  assumes "\<forall>x\<in>set xs. g x \<le> M"
  shows "sum_list (map g xs) \<le> M * real (length xs)"
  using assms by (induction xs) (auto simp: algebra_simps)

lemma avg_bound:
  assumes "xs \<noteq> []" "\<forall>x\<in>set xs. \<bar>x\<bar> \<le> M"
  shows "\<bar>avg xs\<bar> \<le> M"
proof -
  have n: "0 < real (length xs)" using assms(1) by simp
  have "\<bar>avg xs\<bar> = \<bar>sum_list xs\<bar> / real (length xs)" by (simp add: avg_def)
  also have "\<dots> \<le> (M * real (length xs)) / real (length xs)"
    by (intro divide_right_mono sum_list_abs_bound assms(2)) simp
  also have "\<dots> = M" using n by simp
  finally show ?thesis .
qed

lemma stddev_pop_nonneg: "0 \<le> stddev_pop xs"
  unfolding stddev_pop_def
  by (intro real_sqrt_ge_zero divide_nonneg_nonneg sum_list_nonneg) auto

lemma stddev_pop_bound:
  assumes "xs \<noteq> []" "\<forall>x\<in>set xs. \<bar>x\<bar> \<le> M"
  shows "\<bar>stddev_pop xs\<bar> \<le> 2 * M"
proof -
  have n: "0 < real (length xs)" using assms(1) by simp
  obtain x0 where "x0 \<in> set xs" using assms(1) by (cases xs) auto
  then have M: "0 \<le> M" using assms(2) by force
  have a: "\<bar>avg xs\<bar> \<le> M" using assms by (rule avg_bound)
  have "(x - avg xs)\<^sup>2 \<le> (2 * M)\<^sup>2" if "x \<in> set xs" for x
  proof -
    have "\<bar>x - avg xs\<bar> \<le> 2 * M" using a assms(2) that by force
    then have "\<bar>x - avg xs\<bar> \<le> \<bar>2 * M\<bar>" using M by simp
    then show ?thesis by (simp only: abs_le_square_iff)
  qed
  then have "sum_list (map (\<lambda>x. (x - avg xs)\<^sup>2) xs) \<le> (2 * M)\<^sup>2 * real (length xs)"
    by (intro sum_list_bound) simp
  then have "sum_list (map (\<lambda>x. (x - avg xs)\<^sup>2) xs) / real (length xs) \<le> (2 * M)\<^sup>2"
    using n by (simp add: field_simps)
  then have "stddev_pop xs \<le> sqrt ((2 * M)\<^sup>2)"
    unfolding stddev_pop_def by (rule real_sqrt_le_mono)
  moreover have "sqrt ((2 * M)\<^sup>2) = \<bar>2 * M\<bar>" by (rule real_sqrt_abs)
  moreover have "\<bar>2 * M\<bar> = 2 * M" using M by simp
  ultimately have "stddev_pop xs \<le> 2 * M" by (simp only:)
  with stddev_pop_nonneg [of xs] show ?thesis by simp
qed

lemma bounded_array:
  "\<forall>v\<in>set vs. bounded_by B v \<Longrightarrow> \<forall>x\<in>set (array_remove_null vs). \<bar>x\<bar> \<le> B"
  by (induction vs rule: array_remove_null.induct) (simp_all add: bounded_by_def)

lemma sql_avg_bounded: "\<forall>v\<in>set vs. bounded_by B v \<Longrightarrow> bounded_by B (sql_avg vs)"
  using avg_bound [of "array_remove_null vs" B] bounded_array [of vs B]
  by (simp add: sql_avg_def bounded_by_def Let_def)

lemma sql_stddev_pop_bounded:
  "\<forall>v\<in>set vs. bounded_by B v \<Longrightarrow> bounded_by (2 * B) (sql_stddev_pop vs)"
  using stddev_pop_bound [of "array_remove_null vs" B] bounded_array [of vs B]
  by (simp add: sql_stddev_pop_def bounded_by_def Let_def)

lemma crid_expr_bounded:
  "bounded_by B (mds_z_score z) \<Longrightarrow> bounded_by B (claims_z_score z) \<Longrightarrow> bounded_by (2 * B) (crid_expr z)"
  by (auto simp: crid_expr_def bounded_by_def sql_sub_def split: option.splits)

lemma final_stats_fields:
  "state_mds_mean (final_select (with_crid_row p zs z)) = state_mds_mean z"
  "state_mds_stddev (final_select (with_crid_row p zs z)) = state_mds_stddev z"
  "state_claims_mean (final_select (with_crid_row p zs z)) = state_claims_mean z"
  "state_claims_stddev (final_select (with_crid_row p zs z)) = state_claims_stddev z"
  by (simp_all add: final_select_def with_crid_row_def)

lemma facility_counts:
  assumes "f \<in> set (facility_rows mds claims defs)"
  shows "0 \<le> measures_present f" "measures_present f \<le> 6"
    "0 \<le> measures_suppressed f" "measures_suppressed f \<le> 6"
    "completeness_pct f = sql_round (of_int (measures_present f) / 6 * 100) 2"
proof -
  from assms obtain mc where mc: "mc \<in> set (facility_join (mds_base mds) (claims_base claims))"
      "f = with_composites_row (weight_values (measure_weights defs)) (all_facilities_row mc)"
    unfolding facility_rows_eq by auto
  note row = completeness_row [OF pairs_sup_01 [OF mc(1)], of "weight_values (measure_weights defs)",
      folded mc(2)]
  have l: "length (measure_pairs mc) = 6" by (cases mc) (simp add: measure_pairs_def)
  have "length (filter P (measure_pairs mc)) \<le> 6" for P
    using length_filter_le [of P "measure_pairs mc"] l by simp
  then show "0 \<le> measures_present f" "measures_present f \<le> 6"
    "0 \<le> measures_suppressed f" "measures_suppressed f \<le> 6"
    unfolding row(1,2) count_present_def count_suppressed_def by simp_all
  show "completeness_pct f = sql_round (of_int (measures_present f) / 6 * 100) 2" by (rule row(3))
qed

lemma completeness_pct_fits:
  assumes "0 \<le> k" "k \<le> 6"
  shows "fits_numeric 5 2 (sql_round (of_int k / 6 * 100) 2)"
proof -
  from assms have "k = 0 \<or> k = 1 \<or> k = 2 \<or> k = 3 \<or> k = 4 \<or> k = 5 \<or> k = 6" by auto
  then show ?thesis
    by (elim disjE) (simp_all add: fits_numeric_def sql_round_def)
qed

lemma spec_window_subset: "set (spec_window W out r) \<subseteq> set out"
  by (auto simp: spec_window_def)

lemma cohort_set: "set (cohort rows st e) \<subseteq> set rows"
  by (auto simp: cohort_def)

lemma output_rows_fit:
  assumes out: "materialize_sql p mds claims defs = Inr out" and u: "crid_monthly_unique out"
    and n: "length (facility_rows mds claims defs) < 2 ^ 31"
    and B: "4 * B \<le> 999999"
    and b: "\<And>f. f \<in> set (facility_rows mds claims defs) \<Longrightarrow>
        bounded_by B (mds_composite f) \<and> bounded_by B (claims_utilization f) \<and>
        bounded_by B (measure_410 f) \<and> bounded_by B (measure_453 f) \<and>
        bounded_by B (measure_407 f) \<and> bounded_by B (measure_409 f) \<and>
        bounded_by B (measure_551 f) \<and> bounded_by B (measure_552 f) \<and>
        bounded_by B (mds_z_score (z_of (facility_rows mds claims defs) f)) \<and>
        bounded_by B (claims_z_score (z_of (facility_rows mds claims defs) f))"
  shows "\<forall>r\<in>set out. row_fits r"
proof
  let ?comps = "facility_rows mds claims defs"
  let ?zs = "map (z_of ?comps) ?comps"
  let ?h = "\<lambda>f. final_select (with_crid_row p ?zs (z_of ?comps f))"
  have o: "out = map ?h ?comps" using out by (simp add: materialize_sql_total)
  have B0: "B \<le> 999999" "2 * B \<le> 999999"
  proof -
    show "2 * B \<le> 999999"
    proof (cases "0 \<le> B")
      case True
      then show ?thesis using B by simp
    next
      case False
      then show ?thesis by simp
    qed
    then show "B \<le> 999999" using B by (cases "0 \<le> B") simp_all
  qed
  have crid: "bounded_by (2 * B) (crid_value x)" if "x \<in> set out" for x
  proof -
    from that obtain f where f: "f \<in> set ?comps" "x = ?h f" unfolding o by auto
    show ?thesis unfolding f(2) final_fields using b [OF f(1)] by (intro crid_expr_bounded) simp_all
  qed
  fix r assume r: "r \<in> set out"
  then obtain f where f: "f \<in> set ?comps" "r = ?h f" unfolding o by auto
  let ?g = "cohort ?comps (state f) (extract_id f)"
  note bf = b [OF f(1)]
  have g: "\<forall>v\<in>set (map mds_composite ?g). bounded_by B v"
      "\<forall>v\<in>set (map claims_utilization ?g). bounded_by B v"
    using b cohort_set [of ?comps "state f" "extract_id f"] by auto
  have vol: "bounded_by (2 * (2 * B)) (crid_volatility r)"
  proof (cases "crid_value r = None")
    case True
    then show ?thesis unfolding output_volatility [OF out u r] by (simp add: bounded_by_def)
  next
    case False
    have "\<forall>v\<in>set (map crid_value (spec_window (Suc p) out r)). bounded_by (2 * B) v"
      using crid spec_window_subset [of "Suc p" out r] by auto
    then have "bounded_by (2 * (2 * B)) (sql_stddev_pop (map crid_value (spec_window (Suc p) out r)))"
      by (rule sql_stddev_pop_bounded)
    with False show ?thesis unfolding output_volatility [OF out u r] by (auto simp: bounded_by_def)
  qed
  have cnt: "case state_facility_count r of None \<Rightarrow> True | Some k \<Rightarrow> fits_integer k"
  proof -
    have "length ?g \<le> length ?comps" by (simp add: cohort_def)
    then have "int (length ?g) < 2 ^ 31" using n by simp
    then show ?thesis
      unfolding f(2) final_fields z_of_fields stats_for_count
      by (simp add: fits_integer_def)
  qed
  have cols: "fits_12_6 (mds_composite r)" "fits_12_6 (claims_utilization r)"
    "fits_12_6 (mds_z_score r)" "fits_12_6 (claims_z_score r)"
    "fits_12_6 (measure_410 r)" "fits_12_6 (measure_453 r)" "fits_12_6 (measure_407 r)"
    "fits_12_6 (measure_409 r)" "fits_12_6 (measure_551 r)" "fits_12_6 (measure_552 r)"
    unfolding f(2) final_fields z_of_fields using bf B0(1) by (auto intro: fits_12_6_bounded)
  have c: "fits_12_6 (crid_value r)"
    using crid [OF r] B0(2) by (rule fits_12_6_bounded)
  have v: "fits_12_6 (crid_volatility r)"
    using vol B by (intro fits_12_6_bounded) simp_all
  have st: "fits_12_6 (state_mds_mean r)" "fits_12_6 (state_claims_mean r)"
    unfolding f(2) final_stats_fields z_of_fields stats_for_cols
    using sql_avg_bounded [OF g(1)] sql_avg_bounded [OF g(2)] B0(1) by (auto intro: fits_12_6_bounded)
  have sd: "fits_12_6 (state_mds_stddev r)" "fits_12_6 (state_claims_stddev r)"
    unfolding f(2) final_stats_fields z_of_fields stats_for_cols
    using sql_stddev_pop_bounded [OF g(1)] sql_stddev_pop_bounded [OF g(2)] B0(2)
    by (auto intro: fits_12_6_bounded)
  note fc = facility_counts [OF f(1)]
  have pct: "fits_numeric 5 2 (completeness_pct r)"
    unfolding f(2) final_fields z_of_fields fc(5) using fc(1,2) by (rule completeness_pct_fits)
  have ints: "fits_integer (measures_present r)" "fits_integer (measures_suppressed r)"
    unfolding f(2) final_fields z_of_fields using fc(1-4) by (simp_all add: fits_integer_def)
  show "row_fits r"
    unfolding row_fits_def using cols c v st sd pct ints cnt by simp
qed

lemma ex8_rows:
  "facility_rows ex4_mds (ex_claims_rows ''015009'' 4) ex_defs = [ex_fac ''015009'' 6 4]"
  "facility_rows ex4_mds (ex_claims_rows ''015009'' 4) c7_missing_defs =
     [(ex_fac ''015009'' 6 4)\<lparr>mds_composite := None\<rparr>]"
  "facility_rows ex4_mds (ex_claims_rows ''015009'' 4) c7_duplicate_defs =
     [(ex_fac ''015009'' 6 4)\<lparr>mds_composite := Some 12\<rparr>]"
  "facility_rows ex4_mds (ex_claims_rows ''015009'' 4) c5_big_defs =
     [(ex_fac ''015009'' 6 4)\<lparr>mds_composite := Some 6000000\<rparr>]"
  by (simp_all add: facility_rows_def with_composites_def with_composites_row_def
        all_facilities_def all_facilities_row_def facility_join_def left_join_def
        mds_base_def claims_base_def group_by_def ex4_mds_def ex_claims_rows_def ex_mds_rows_def
        mds_value_def mds_sup_def claims_value_def claims_sup_def max_flag_def
        c_measure_551_def c_measure_552_def coalesce_sup_551_def coalesce_sup_552_def
        weight_values_def weight_of_def measure_weights_def c7_duplicate_defs_def
        c7_missing_defs_def c5_big_defs_def ex_defs_def
        sql_add_def sql_mul_def ex_fac_def sql_round_def)

lemma small_cohort_z:
  fixes comps :: "composite_row list"
  assumes "length comps < 10"
  shows "mds_z_score (z_of comps f) = None" "claims_z_score (z_of comps f) = None"
proof -
  have "length (cohort comps (state f) (extract_id f)) \<le> length comps" by (simp add: cohort_def)
  then have l: "\<not> 10 \<le> length (cohort comps (state f) (extract_id f))" using assms by simp
  have "mds_z_score (z_of comps f) \<noteq> Some q" for q
    unfolding z_of_z_scores using l by blast
  then show "mds_z_score (z_of comps f) = None" by (cases "mds_z_score (z_of comps f)") auto
  have "claims_z_score (z_of comps f) \<noteq> Some q" for q
    unfolding z_of_z_scores using l by blast
  then show "claims_z_score (z_of comps f) = None" by (cases "claims_z_score (z_of comps f)") auto
qed

lemma ex8_rows_fit:
  assumes "defs \<in> {c7_missing_defs, c7_duplicate_defs, ex_defs}"
    "materialize_sql 2 ex4_mds (ex_claims_rows ''015009'' 4) defs = Inr out"
  shows "\<forall>r\<in>set out. row_fits r"
proof -
  let ?comps = "facility_rows ex4_mds (ex_claims_rows ''015009'' 4) defs"
  have rows: "?comps = [ex_fac ''015009'' 6 4] \<or> ?comps = [(ex_fac ''015009'' 6 4)\<lparr>mds_composite := None\<rparr>] \<or>
              ?comps = [(ex_fac ''015009'' 6 4)\<lparr>mds_composite := Some 12\<rparr>]"
    using assms(1) ex8_rows(1-3) by auto
  then have len: "length ?comps = 1" by auto
  have "length (map is_complete out) = 1"
    unfolding output_map(3) [OF assms(2)] using len by simp
  then have u: "crid_monthly_unique out" by (intro single_row_unique) simp
  show ?thesis
  proof (rule output_rows_fit [OF assms(2) u, of 12])
    show "length ?comps < 2 ^ 31" using len by simp
    show "4 * (12::real) \<le> 999999" by simp
    fix f assume "f \<in> set ?comps"
    then have "f = ex_fac ''015009'' 6 4 \<or> f = (ex_fac ''015009'' 6 4)\<lparr>mds_composite := None\<rparr> \<or>
              f = (ex_fac ''015009'' 6 4)\<lparr>mds_composite := Some 12\<rparr>"
      using rows by auto
    then have "bounded_by 12 (mds_composite f) \<and> bounded_by 12 (claims_utilization f) \<and>
        bounded_by 12 (measure_410 f) \<and> bounded_by 12 (measure_453 f) \<and>
        bounded_by 12 (measure_407 f) \<and> bounded_by 12 (measure_409 f) \<and>
        bounded_by 12 (measure_551 f) \<and> bounded_by 12 (measure_552 f)"
      by (elim disjE) (simp_all add: ex_fac_def bounded_by_def)
    then show "bounded_by 12 (mds_composite f) \<and> bounded_by 12 (claims_utilization f) \<and>
        bounded_by 12 (measure_410 f) \<and> bounded_by 12 (measure_453 f) \<and>
        bounded_by 12 (measure_407 f) \<and> bounded_by 12 (measure_409 f) \<and>
        bounded_by 12 (measure_551 f) \<and> bounded_by 12 (measure_552 f) \<and>
        bounded_by 12 (mds_z_score (z_of ?comps f)) \<and>
        bounded_by 12 (claims_z_score (z_of ?comps f))"
      using small_cohort_z [of ?comps f] len by (simp add: bounded_by_def)
  qed
qed

lemma c5_overflow_row:
  assumes "materialize_sql 2 ex4_mds (ex_claims_rows ''015009'' 4) c5_big_defs = Inr out"
  shows "\<not> (\<forall>r\<in>set out. row_fits r)"
proof -
  have "map mds_composite out = [Some 6000000]"
    unfolding output_map(4) [OF assms] ex8_rows by simp
  then obtain r where r: "r \<in> set out" "mds_composite r = Some 6000000" by auto
  have "\<not> fits_12_6 (Some 6000000)"
    by (simp add: fits_12_6_def fits_numeric_def sql_round_def)
  then have "\<not> row_fits r" by (simp add: row_fits_def r(2))
  with r(1) show ?thesis by blast
qed

lemma c7_defs:
  "c7_missing_defs \<in> {c7_missing_defs, c7_duplicate_defs, ex_defs}"
  "c7_duplicate_defs \<in> {c7_missing_defs, c7_duplicate_defs, ex_defs}"
  "ex_defs \<in> {c7_missing_defs, c7_duplicate_defs, ex_defs}"
  by simp_all

lemma c7_run:
  assumes "defs \<in> {c7_missing_defs, c7_duplicate_defs, ex_defs}"
  shows "\<exists>out. materialize_crid (c7_conn defs) 3 =
            ((c7_conn defs)\<lparr>metrics_crid_monthly := Some (map stored_row out)\<rparr>, Inr 1) \<and>
     materialize_sql 2 ex4_mds (ex_claims_rows ''015009'' 4) defs = Inr out"
proof -
  obtain out where out: "materialize_sql 2 ex4_mds (ex_claims_rows ''015009'' 4) defs = Inr out"
    by (simp add: materialize_sql_total)
  have "length (map is_complete out) = 1"
    unfolding output_map(3) [OF out] ex8_facility_rows by simp
  then have len: "length out = 1" by simp
  have c: "metrics_crid_monthly (c7_conn defs) = Some []" "sources_exist (c7_conn defs)"
    "gold_nh_quality_mds (c7_conn defs) = ex4_mds"
    "gold_nh_quality_claims (c7_conn defs) = ex_claims_rows ''015009'' 4"
    "gold_nh_measure_definitions (c7_conn defs) = defs"
    by (simp_all add: c7_conn_def sources_exist_def gold_nh_quality_mds_def
          gold_nh_quality_claims_def gold_nh_measure_definitions_def)
  have "materialize_crid (c7_conn defs) 3 =
          ((c7_conn defs)\<lparr>metrics_crid_monthly := Some (map stored_row out)\<rparr>, Inr (length out))"
    by (rule materialize_crid_success)
       (simp_all add: c out single_row_unique [OF len] ex8_rows_fit [OF assms out])
  with len out show ?thesis by auto
qed

subsection \<open>C7: the weight set is not validated\<close>

text \<open>
  The claim that a missing or duplicate weight definition raises a configuration error fails:
  with the definition of measure 410 missing the run succeeds and inserts its row, and with
  two definitions of measure 410 (weights 1 and 2) it succeeds with the composite computed
  from the larger weight.
\<close>

theorem weight_validation_counterexample:
  "snd (materialize_crid (c7_conn c7_missing_defs) 3) = Inr 1 \<and>
   snd (materialize_crid (c7_conn c7_duplicate_defs) 3) = Inr 1 \<and>
   map mds_composite (table_rows (fst (materialize_crid (c7_conn c7_duplicate_defs) 3))) = [Some 12]"
proof -
  obtain out where out: "materialize_crid (c7_conn c7_duplicate_defs) 3 =
        ((c7_conn c7_duplicate_defs)\<lparr>metrics_crid_monthly := Some (map stored_row out)\<rparr>, Inr 1)"
      "materialize_sql 2 ex4_mds (ex_claims_rows ''015009'' 4) c7_duplicate_defs = Inr out"
    using c7_run [OF c7_defs(2)] by blast
  have "map mds_composite out = [Some 12]"
    unfolding output_map(4) [OF out(2)] by (rule c7_composites)
  then have "map mds_composite (map stored_row out) = [Some 12]"
    by (auto simp: stored_row_values round_12_6_def sql_round_def)
  moreover obtain out' where "materialize_crid (c7_conn c7_missing_defs) 3 =
        ((c7_conn c7_missing_defs)\<lparr>metrics_crid_monthly := Some (map stored_row out')\<rparr>, Inr 1)"
    using c7_run [OF c7_defs(1)] by blast
  ultimately show ?thesis
    using out(1) by (simp add: table_rows_def)
qed

lemma output_null_weight:
  assumes out: "materialize_sql p mds claims defs = Inr out" and r: "r \<in> set out"
  shows "weight_of ''410'' (measure_weights defs) = None \<or> weight_of ''453'' (measure_weights defs) = None \<or>
         weight_of ''407'' (measure_weights defs) = None \<or> weight_of ''409'' (measure_weights defs) = None
           \<Longrightarrow> mds_composite r = None \<and> mds_z_score r = None \<and> crid_value r = None"
    and "weight_of ''551'' (measure_weights defs) = None \<or> weight_of ''552'' (measure_weights defs) = None
           \<Longrightarrow> claims_utilization r = None \<and> claims_z_score r = None \<and> crid_value r = None"
proof -
  let ?comps = "facility_rows mds claims defs"
  have "\<exists>f. f \<in> set ?comps \<and>
    mds_composite r = mds_composite f \<and> claims_utilization r = claims_utilization f \<and>
    mds_z_score r = mds_z_score (z_of ?comps f) \<and>
    claims_z_score r = claims_z_score (z_of ?comps f) \<and>
    crid_value r = crid_expr (z_of ?comps f)"
    by (rule output_row [OF out r]) blast
  then obtain f where f: "f \<in> set ?comps"
    "mds_composite r = mds_composite f" "claims_utilization r = claims_utilization f"
    "mds_z_score r = mds_z_score (z_of ?comps f)"
    "claims_z_score r = claims_z_score (z_of ?comps f)"
    "crid_value r = crid_expr (z_of ?comps f)"
    by blast
  have mz: "mds_z_score (z_of ?comps f) = None" if "mds_composite f = None"
  proof (cases "mds_z_score (z_of ?comps f)")
    case None
    then show ?thesis .
  next
    case (Some q)
    then show ?thesis using that unfolding z_of_z_scores by simp
  qed
  have cz: "claims_z_score (z_of ?comps f) = None" if "claims_utilization f = None"
  proof (cases "claims_z_score (z_of ?comps f)")
    case None
    then show ?thesis .
  next
    case (Some q)
    then show ?thesis using that unfolding z_of_z_scores by simp
  qed
  show "mds_composite r = None \<and> mds_z_score r = None \<and> crid_value r = None"
    if "weight_of ''410'' (measure_weights defs) = None \<or> weight_of ''453'' (measure_weights defs) = None \<or>
         weight_of ''407'' (measure_weights defs) = None \<or> weight_of ''409'' (measure_weights defs) = None"
  proof -
    have "mds_composite f = None" using composite_null_weight(1) [OF f(1) that] .
    with mz show ?thesis unfolding f by (simp add: crid_expr_def)
  qed
  show "claims_utilization r = None \<and> claims_z_score r = None \<and> crid_value r = None"
    if "weight_of ''551'' (measure_weights defs) = None \<or> weight_of ''552'' (measure_weights defs) = None"
  proof -
    have "claims_utilization f = None" using composite_null_weight(2) [OF f(1) that] .
    with cz show ?thesis unfolding f by (simp add: crid_expr_def)
  qed
qed

text \<open>
  C7, as the code has it. The statement never raises on account of the weights. A required
  code without a usable definition has a NULL weight, which makes the composite of its family,
  that z-score and \<^verbatim>\<open>crid_value\<close> NULL on every row (the weight is not taken as zero);
  a code with several definitions has the largest of their weights.
\<close>

theorem weight_set_handling:
  "\<exists>out. materialize_sql p mds claims defs = Inr out \<and>
     (\<forall>r\<in>set out.
        (weight_of ''410'' (measure_weights defs) = None \<or> weight_of ''453'' (measure_weights defs) = None \<or>
         weight_of ''407'' (measure_weights defs) = None \<or> weight_of ''409'' (measure_weights defs) = None
           \<longrightarrow> mds_composite r = None \<and> mds_z_score r = None \<and> crid_value r = None) \<and>
        (weight_of ''551'' (measure_weights defs) = None \<or> weight_of ''552'' (measure_weights defs) = None
           \<longrightarrow> claims_utilization r = None \<and> claims_z_score r = None \<and> crid_value r = None)) \<and>
     (\<forall>code.
        (weight_of code (measure_weights defs) = None \<longleftrightarrow>
           (\<forall>d\<in>set defs. d_used_in_crid d = Some True \<and> d_measure_code d = code \<longrightarrow> d_crid_weight d = None)) \<and>
        (\<forall>x. weight_of code (measure_weights defs) = Some x \<longrightarrow>
           x = Max {y. \<exists>d\<in>set defs. d_used_in_crid d = Some True \<and> d_measure_code d = code \<and>
                        d_crid_weight d = Some y}))"
proof -
  obtain out where out: "materialize_sql p mds claims defs = Inr out"
    by (simp add: materialize_sql_total)
  show ?thesis
    using out output_null_weight [OF out] weight_of_None [of _ defs] weight_of_Some [of _ defs]
    by (intro exI [of _ out]) blast
qed

lemma c7_missing_weight: "weight_of ''410'' (measure_weights c7_missing_defs) = None"
  by (simp add: weight_of_def measure_weights_def c7_missing_defs_def ex_defs_def)

theorem weight_set_handling_witness:
  "\<exists>out r. materialize_sql 2 ex4_mds (ex_claims_rows ''015009'' 4) c7_missing_defs = Inr out \<and>
      r \<in> set out \<and> is_complete r \<and>
      weight_of ''410'' (measure_weights c7_missing_defs) = None \<and>
      mds_composite r = None \<and> mds_z_score r = None \<and> crid_value r = None"
proof -
  obtain out where out: "materialize_sql 2 ex4_mds (ex_claims_rows ''015009'' 4) c7_missing_defs = Inr out"
    and nul: "\<forall>r\<in>set out.
        (weight_of ''410'' (measure_weights c7_missing_defs) = None \<or> weight_of ''453'' (measure_weights c7_missing_defs) = None \<or>
         weight_of ''407'' (measure_weights c7_missing_defs) = None \<or> weight_of ''409'' (measure_weights c7_missing_defs) = None
           \<longrightarrow> mds_composite r = None \<and> mds_z_score r = None \<and> crid_value r = None)"
    using weight_set_handling [of 2 ex4_mds "ex_claims_rows ''015009'' 4" c7_missing_defs] by blast
  have "map is_complete out = [True]"
    unfolding output_map(3) [OF out] by (rule ex8_facility_rows)
  then obtain r where r: "r \<in> set out" "is_complete r" by auto
  from nul r(1) c7_missing_weight
  have "mds_composite r = None \<and> mds_z_score r = None \<and> crid_value r = None" by blast
  with out r c7_missing_weight show ?thesis by blast
qed

subsection \<open>Keys of the output\<close>

lemma group_by_keys: "map fst (group_by key xs) = remdups (map key xs)"
  by (simp add: group_by_def o_def)

lemma claims_base_lookup:
  "length (filter (\<lambda>c. k = (cb_ccn c, cb_extract_id c)) (claims_base claims)) \<le> 1"
proof -
  let ?key = "\<lambda>c. (c_ccn c, c_extract_id c)"
  let ?xs = "filter (\<lambda>c. c_measure_code c \<in> set [''551'', ''552'']) claims"
  let ?mk = "\<lambda>((c, e), g).
            \<lparr> cb_ccn = c, cb_extract_id = e,
              cb_measure_551 = claims_value ''551'' g, cb_measure_552 = claims_value ''552'' g,
              cb_sup_551 = claims_sup ''551'' g, cb_sup_552 = claims_sup ''552'' g \<rparr>"
  have P: "(\<lambda>c. k = (cb_ccn c, cb_extract_id c)) \<circ> ?mk = (\<lambda>kg. fst kg = k)"
    by (auto simp: fun_eq_iff)
  have "filter (\<lambda>c. k = (cb_ccn c, cb_extract_id c)) (claims_base claims)
        = map ?mk (filter (\<lambda>kg. fst kg = k) (group_by ?key ?xs))"
    unfolding claims_base_def filter_map P ..
  then show ?thesis by (simp add: filter_group_by del: set_filter)
qed

lemma facility_join_fst:
  "map fst (facility_join (mds_base mds) (claims_base claims)) = mds_base mds"
proof -
  have "facility_join (mds_base mds) (claims_base claims) =
      map (\<lambda>x. (x, case filter (\<lambda>c. b_ccn x = cb_ccn c \<and> b_extract_id x = cb_extract_id c) (claims_base claims) of
                      [] \<Rightarrow> None | y # _ \<Rightarrow> Some y)) (mds_base mds)"
    unfolding facility_join_def
  proof (rule left_join_unique)
    fix x
    have "(\<lambda>c. b_ccn x = cb_ccn c \<and> b_extract_id x = cb_extract_id c)
        = (\<lambda>c. (b_ccn x, b_extract_id x) = (cb_ccn c, cb_extract_id c))" by auto
    then show "length (filter (\<lambda>c. b_ccn x = cb_ccn c \<and> b_extract_id x = cb_extract_id c) (claims_base claims)) \<le> 1"
      using claims_base_lookup [of "(b_ccn x, b_extract_id x)" claims] by simp
  qed
  then show ?thesis by (simp add: o_def)
qed

lemma facility_rows_keys:
  "map (\<lambda>f. (ccn f, extract_id f)) (facility_rows mds claims defs) =
     map (\<lambda>m. (b_ccn m, b_extract_id m)) (mds_base mds)"
proof -
  have "map (\<lambda>f. (ccn f, extract_id f)) (facility_rows mds claims defs) =
        map ((\<lambda>m. (b_ccn m, b_extract_id m)) \<circ> fst) (facility_join (mds_base mds) (claims_base claims))"
    by (simp add: facility_rows_eq o_def with_composites_row_def all_facilities_row_def split_beta)
  also have "\<dots> = map (\<lambda>m. (b_ccn m, b_extract_id m)) (mds_base mds)"
    unfolding map_map [symmetric] facility_join_fst ..
  finally show ?thesis .
qed

lemma mds_base_keys:
  "set (map (\<lambda>m. (b_ccn m, b_extract_id m)) (mds_base mds)) =
     {(m_ccn m, m_extract_id m) | m. m \<in> set mds \<and> m_measure_code m \<in> set quality_codes}"
proof -
  let ?key = "\<lambda>m. (m_ccn m, m_extract_id m, m_as_of_date m, m_state m)"
  let ?xs = "filter (\<lambda>m. m_measure_code m \<in> set [''410'', ''453'', ''407'', ''409'']) mds"
  have "map (\<lambda>m. (b_ccn m, b_extract_id m)) (mds_base mds) =
        map ((\<lambda>(c, e, d, s). (c, e)) \<circ> fst) (group_by ?key ?xs)"
    by (simp add: mds_base_def o_def split_beta)
  also have "\<dots> = map (\<lambda>(c, e, d, s). (c, e)) (remdups (map ?key ?xs))"
    unfolding map_map [symmetric] group_by_keys ..
  finally have "set (map (\<lambda>m. (b_ccn m, b_extract_id m)) (mds_base mds)) =
      (\<lambda>(c, e, d, s). (c, e)) ` ?key ` set ?xs" by simp
  also have "\<dots> = {(m_ccn m, m_extract_id m) | m. m \<in> set mds \<and> m_measure_code m \<in> set quality_codes}"
    unfolding quality_codes_def by (auto simp: image_iff)
  finally show ?thesis .
qed

lemma count_distinct_key:
  "distinct (map f xs) \<Longrightarrow> length (filter (\<lambda>x. f x = k) xs) = (if k \<in> f ` set xs then 1 else 0)"
proof (induction xs)
  case Nil
  then show ?case by simp
next
  case (Cons a xs)
  then have IH: "length (filter (\<lambda>x. f x = k) xs) = (if k \<in> f ` set xs then 1 else 0)"
    and new: "f a \<notin> f ` set xs" by simp_all
  show ?case
  proof (cases "f a = k")
    case True
    with new have "k \<notin> f ` set xs" by simp
    with IH True show ?thesis by simp
  next
    case False
    with IH show ?thesis by auto
  qed
qed

lemma materialize_crid_Inr:
  assumes "materialize_crid conn W = (conn', Inr n)" "metrics_crid_monthly conn = Some []"
  shows "\<exists>out. materialize_sql (nat (W - 1)) (gold_nh_quality_mds conn) (gold_nh_quality_claims conn)
           (gold_nh_measure_definitions conn) = Inr out \<and>
         (\<forall>r\<in>set out. row_fits r) \<and> crid_monthly_unique out \<and>
         conn' = conn\<lparr>metrics_crid_monthly := Some (map stored_row out)\<rparr> \<and> n = length out"
proof -
  obtain out where out: "materialize_sql (nat (W - 1)) (gold_nh_quality_mds conn)
      (gold_nh_quality_claims conn) (gold_nh_measure_definitions conn) = Inr out"
    by (simp add: materialize_sql_total)
  from assms(1) have W: "W \<in> {3, 4}" and ex: "sources_exist conn"
    by (auto simp: materialize_crid_def Let_def assms(2) split: if_splits)
  from assms(1) show ?thesis
    unfolding materialize_crid_eq [OF W assms(2) ex out]
    by (intro exI [of _ out]) (auto simp: out split: if_splits)
qed

subsection \<open>C6: which facility-periods get a row\<close>

text \<open>
  C6, as the code has it. After a successful insert into the freshly created table, every
  (ccn, extract\_id) that has an observation of one of the four quality measure codes in the
  quality table has exactly one row, and no other key has a row. The rows are driven by
  \<^verbatim>\<open>mds_base\<close>, to which \<^verbatim>\<open>claims_base\<close> is LEFT JOINed.
\<close>

theorem output_coverage:
  assumes "materialize_crid conn W = (conn', Inr n)" "metrics_crid_monthly conn = Some []"
  shows "\<exists>rows. metrics_crid_monthly conn' = Some rows \<and> length rows = n \<and>
           (\<forall>c e. length (filter (\<lambda>r. (ccn r, extract_id r) = (c, e)) rows) =
              (if \<exists>m\<in>set (gold_nh_quality_mds conn).
                    m_ccn m = c \<and> m_extract_id m = e \<and> m_measure_code m \<in> set quality_codes
               then 1 else 0))"
proof -
  obtain out where out: "materialize_sql (nat (W - 1)) (gold_nh_quality_mds conn) (gold_nh_quality_claims conn)
           (gold_nh_measure_definitions conn) = Inr out"
    and u: "crid_monthly_unique out"
    and c: "conn' = conn\<lparr>metrics_crid_monthly := Some (map stored_row out)\<rparr>"
    and n: "n = length out"
    using materialize_crid_Inr [OF assms] by blast
  let ?key = "\<lambda>r::crid_monthly_row. (ccn r, extract_id r)"
  have st: "length (filter (\<lambda>r. ?key r = (c, e)) (map stored_row out)) =
            length (filter (\<lambda>r. ?key r = (c, e)) out)" for c e
    by (simp add: filter_map o_def stored_row_keys)
  have keys: "map ?key out = map (\<lambda>m. (b_ccn m, b_extract_id m)) (mds_base (gold_nh_quality_mds conn))"
  proof -
    have "map ?key out = map (\<lambda>f. (ccn f, extract_id f))
             (facility_rows (gold_nh_quality_mds conn) (gold_nh_quality_claims conn) (gold_nh_measure_definitions conn))"
      using out by (auto simp: materialize_sql_total final_fields z_of_fields)
    then show ?thesis by (simp only: facility_rows_keys)
  qed
  have d: "distinct (map ?key out)" using u by (simp add: crid_monthly_unique_def)
  have "length (filter (\<lambda>r. ?key r = (c, e)) out) =
          (if \<exists>m\<in>set (gold_nh_quality_mds conn).
                    m_ccn m = c \<and> m_extract_id m = e \<and> m_measure_code m \<in> set quality_codes
               then 1 else 0)" for c e
  proof -
    have "(c, e) \<in> ?key ` set out \<longleftrightarrow>
        (\<exists>m\<in>set (gold_nh_quality_mds conn).
                    m_ccn m = c \<and> m_extract_id m = e \<and> m_measure_code m \<in> set quality_codes)"
    proof -
      have "?key ` set out = {(m_ccn m, m_extract_id m) | m. m \<in> set (gold_nh_quality_mds conn) \<and>
               m_measure_code m \<in> set quality_codes}"
        using mds_base_keys [of "gold_nh_quality_mds conn"] unfolding keys [symmetric] set_map .
      then have "(c, e) \<in> ?key ` set out \<longleftrightarrow> (c, e) \<in> {(m_ccn m, m_extract_id m) | m.
               m \<in> set (gold_nh_quality_mds conn) \<and> m_measure_code m \<in> set quality_codes}"
        by (rule arg_cong)
      also have "\<dots> \<longleftrightarrow> (\<exists>m\<in>set (gold_nh_quality_mds conn).
                    m_ccn m = c \<and> m_extract_id m = e \<and> m_measure_code m \<in> set quality_codes)"
        by auto
      finally show ?thesis .
    qed
    then show ?thesis using count_distinct_key [OF d, of "(c, e)"] by simp
  qed
  then have "length (filter (\<lambda>r. ?key r = (c, e)) (map stored_row out)) =
          (if \<exists>m\<in>set (gold_nh_quality_mds conn).
                    m_ccn m = c \<and> m_extract_id m = e \<and> m_measure_code m \<in> set quality_codes
               then 1 else 0)" for c e
    unfolding st .
  then show ?thesis using c n by (intro exI [of _ "map stored_row out"]) simp
qed

lemma empty_statement: "materialize_sql p [] claims defs = Inr []"
  by (simp add: materialize_sql_total facility_rows_def with_composites_def all_facilities_def
        facility_join_def left_join_def mds_base_def group_by_def)

text \<open>
  The claim that a facility-period present only in the utilization family gets a row fails:
  with facility 015009 present in the claims table alone, the run succeeds and inserts
  nothing.
\<close>

theorem output_coverage_counterexample:
  "map c_ccn (gold_nh_quality_claims c6_conn) = [''015009'', ''015009''] \<and>
   table_rows (fst (materialize_crid c6_conn 3)) = [] \<and>
   snd (materialize_crid c6_conn 3) = Inr 0"
proof -
  have c: "gold_nh_quality_mds c6_conn = []" "sources_exist c6_conn"
    "metrics_crid_monthly c6_conn = Some []"
    "gold_nh_quality_claims c6_conn = ex_claims_rows ''015009'' 4"
    by (simp_all add: c6_conn_def sources_exist_def gold_nh_quality_mds_def gold_nh_quality_claims_def)
  have "materialize_crid c6_conn 3 =
      (c6_conn\<lparr>metrics_crid_monthly := Some (map stored_row [])\<rparr>, Inr (length ([] :: crid_monthly_row list)))"
    by (rule materialize_crid_success)
       (simp_all add: c empty_statement crid_monthly_unique_def)
  then show ?thesis
    by (simp add: table_rows_def c) (simp add: ex_claims_rows_def)
qed

theorem output_coverage_witness:
  "\<exists>conn' rows. materialize_crid (c7_conn ex_defs) 3 = (conn', Inr 1) \<and>
      metrics_crid_monthly (c7_conn ex_defs) = Some [] \<and>
      metrics_crid_monthly conn' = Some rows \<and> length rows = 1 \<and>
      length (filter (\<lambda>r. (ccn r, extract_id r) = (''015009'', 202401)) rows) = 1 \<and>
      length (filter (\<lambda>r. (ccn r, extract_id r) = (''015009'', 202402)) rows) = 0"
proof -
  obtain out where run: "materialize_crid (c7_conn ex_defs) 3 =
      ((c7_conn ex_defs)\<lparr>metrics_crid_monthly := Some out\<rparr>, Inr 1)"
    using c7_run [OF c7_defs(3)] by blast
  have e: "metrics_crid_monthly (c7_conn ex_defs) = Some []" by (simp add: c7_conn_def)
  have m: "gold_nh_quality_mds (c7_conn ex_defs) = ex4_mds"
    by (simp add: c7_conn_def gold_nh_quality_mds_def)
  from output_coverage [OF run e]
  have "length out = 1 \<and>
      length (filter (\<lambda>r. (ccn r, extract_id r) = (''015009'', 202401)) out) = 1 \<and>
      length (filter (\<lambda>r. (ccn r, extract_id r) = (''015009'', 202402)) out) = 0"
    unfolding m by (simp add: ex4_mds_def ex_mds_rows_def quality_codes_def)
  with run e show ?thesis by simp
qed

subsection \<open>A full run\<close>

lemma main_full_run:
  assumes a: "volatility_window a \<in> {3, 4}" "\<not> dry_run a" "\<not> validate a"
    and out: "materialize_sql (nat (volatility_window a - 1)) (gold_nh_quality_mds conn)
             (gold_nh_quality_claims conn) (gold_nh_measure_definitions conn) = Inr out"
  shows "main a conn =
     (if \<not> sources_exist conn then (conn\<lparr>metrics_crid_monthly := Some []\<rparr>, Some UndefinedTable)
      else if \<not> (\<forall>r\<in>set out. row_fits r)
      then (conn\<lparr>metrics_crid_monthly := Some []\<rparr>, Some NumericValueOutOfRange)
      else if crid_monthly_unique out
      then (conn\<lparr>metrics_crid_monthly := Some (map stored_row out)\<rparr>, None)
      else (conn\<lparr>metrics_crid_monthly := Some []\<rparr>, Some UniqueViolation))"
    and "main_commits a conn =
     (if sources_exist conn \<and> (\<forall>r\<in>set out. row_fits r) \<and> crid_monthly_unique out
      then [conn, conn\<lparr>metrics_crid_monthly := Some []\<rparr>,
            conn\<lparr>metrics_crid_monthly := Some (map stored_row out)\<rparr>,
            conn\<lparr>metrics_crid_monthly := Some (map stored_row out)\<rparr>]
      else [conn, conn\<lparr>metrics_crid_monthly := Some []\<rparr>])"
proof -
  let ?conn2 = "drop_and_create_table (create_schema conn)"
  have c2: "?conn2 = conn\<lparr>metrics_crid_monthly := Some []\<rparr>"
    by (simp add: drop_and_create_table_def create_schema_def)
  have src: "metrics_crid_monthly ?conn2 = Some []" "sources_exist ?conn2 = sources_exist conn"
    "materialize_sql (nat (volatility_window a - 1)) (gold_nh_quality_mds ?conn2)
             (gold_nh_quality_claims ?conn2) (gold_nh_measure_definitions ?conn2) = Inr out"
    using out by (simp_all add: c2 sources_exist_def gold_nh_quality_mds_def
          gold_nh_quality_claims_def gold_nh_measure_definitions_def)
  have m: "main a conn = (case materialize_crid ?conn2 (volatility_window a) of
             (conn3, Inl e) \<Rightarrow> (conn3, Some e)
           | (conn3, Inr rows) \<Rightarrow> run_validation (create_indexes conn3))"
    using a by (simp add: main_def Let_def)
  have mc: "main_commits a conn = (case materialize_crid ?conn2 (volatility_window a) of
             (conn3, Inl e) \<Rightarrow> [create_schema conn, ?conn2]
           | (conn3, Inr rows) \<Rightarrow> [create_schema conn, ?conn2, conn3, create_indexes conn3])"
    using a by (simp add: main_commits_def Let_def)
  have run: "materialize_crid ?conn2 (volatility_window a) =
     (if \<not> sources_exist conn then (?conn2, Inl UndefinedTable)
      else if \<not> (\<forall>r\<in>set out. row_fits r) then (?conn2, Inl NumericValueOutOfRange)
      else if crid_monthly_unique out
      then (?conn2\<lparr>metrics_crid_monthly := Some (map stored_row out)\<rparr>, Inr (length out))
      else (?conn2, Inl UniqueViolation))"
  proof (cases "sources_exist conn")
    case True
    then show ?thesis
      using materialize_crid_eq [OF a(1) src(1) _ src(3)] src(2) by simp
  next
    case False
    then show ?thesis
      using a(1) src(1,2) by (simp add: materialize_crid_def Let_def)
  qed
  have v: "sources_exist conn \<Longrightarrow> run_validation (create_indexes (?conn2\<lparr>metrics_crid_monthly := Some rows\<rparr>))
             = (conn\<lparr>metrics_crid_monthly := Some rows\<rparr>, None)" for rows
    by (simp add: run_validation_def create_indexes_def c2 sources_exist_def)
  show "main a conn =
     (if \<not> sources_exist conn then (conn\<lparr>metrics_crid_monthly := Some []\<rparr>, Some UndefinedTable)
      else if \<not> (\<forall>r\<in>set out. row_fits r)
      then (conn\<lparr>metrics_crid_monthly := Some []\<rparr>, Some NumericValueOutOfRange)
      else if crid_monthly_unique out
      then (conn\<lparr>metrics_crid_monthly := Some (map stored_row out)\<rparr>, None)
      else (conn\<lparr>metrics_crid_monthly := Some []\<rparr>, Some UniqueViolation))"
    unfolding m run using v by (simp add: c2)
  show "main_commits a conn =
     (if sources_exist conn \<and> (\<forall>r\<in>set out. row_fits r) \<and> crid_monthly_unique out
      then [conn, conn\<lparr>metrics_crid_monthly := Some []\<rparr>,
            conn\<lparr>metrics_crid_monthly := Some (map stored_row out)\<rparr>,
            conn\<lparr>metrics_crid_monthly := Some (map stored_row out)\<rparr>]
      else [conn, conn\<lparr>metrics_crid_monthly := Some []\<rparr>])"
    unfolding mc run
    by (simp add: create_schema_def create_indexes_def drop_and_create_table_def)
qed

lemma full_run_args:
  "volatility_window (full_run 3) \<in> {3, 4}" "\<not> dry_run (full_run 3)" "\<not> validate (full_run 3)"
  "nat (volatility_window (full_run 3) - 1) = 2"
  by (simp_all add: full_run_def)

lemma c5_sources:
  "gold_nh_quality_mds c5_fresh_conn = ex4_mds"
  "gold_nh_quality_claims c5_fresh_conn = ex_claims_rows ''015009'' 4"
  "gold_nh_measure_definitions c5_fresh_conn = ex_defs"
  "sources_exist c5_fresh_conn"
  by (simp_all add: c5_fresh_conn_def sources_exist_def gold_nh_quality_mds_def
        gold_nh_quality_claims_def gold_nh_measure_definitions_def)

lemma ex8_run:
  assumes "gold_nh_quality_mds conn = ex4_mds"
    "gold_nh_quality_claims conn = ex_claims_rows ''015009'' 4"
    "gold_nh_measure_definitions conn = ex_defs" "sources_exist conn"
  shows "\<exists>x. materialize_sql 2 ex4_mds (ex_claims_rows ''015009'' 4) ex_defs = Inr [x] \<and>
     main (full_run 3) conn = (conn\<lparr>metrics_crid_monthly := Some [stored_row x]\<rparr>, None) \<and>
     main_commits (full_run 3) conn =
       [conn, conn\<lparr>metrics_crid_monthly := Some []\<rparr>,
        conn\<lparr>metrics_crid_monthly := Some [stored_row x]\<rparr>,
        conn\<lparr>metrics_crid_monthly := Some [stored_row x]\<rparr>]"
proof -
  obtain out where out: "materialize_sql 2 ex4_mds (ex_claims_rows ''015009'' 4) ex_defs = Inr out"
    by (simp add: materialize_sql_total)
  have "length (map is_complete out) = 1"
    unfolding output_map(3) [OF out] ex8_facility_rows by simp
  then have len: "length out = 1" by simp
  then obtain x where x: "out = [x]" by (cases out) auto
  have u: "crid_monthly_unique out" using len by (rule single_row_unique)
  have fit: "\<forall>r\<in>set out. row_fits r" by (rule ex8_rows_fit [OF c7_defs(3) out])
  have o: "materialize_sql (nat (volatility_window (full_run 3) - 1)) (gold_nh_quality_mds conn)
             (gold_nh_quality_claims conn) (gold_nh_measure_definitions conn) = Inr out"
    unfolding full_run_args assms by (rule out)
  show ?thesis
    using main_full_run [OF full_run_args(1-3) o] out u fit assms(4) unfolding x
    by (intro exI [of _ x]) simp
qed

lemma c5_first_run_eq:
  "\<exists>x. materialize_sql 2 ex4_mds (ex_claims_rows ''015009'' 4) ex_defs = Inr [x] \<and>
       c5_first_run = c5_fresh_conn\<lparr>metrics_crid_monthly := Some [stored_row x]\<rparr>"
  using ex8_run [OF c5_sources] unfolding c5_first_run_def by auto

lemma c5_first_run_sources:
  "gold_nh_quality_mds c5_first_run = ex4_mds"
  "gold_nh_quality_claims c5_first_run = ex_claims_rows ''015009'' 4"
  "gold_nh_measure_definitions c5_first_run = ex_defs"
  "sources_exist c5_first_run"
  "length (table_rows c5_first_run) = 1"
proof -
  obtain x where x: "c5_first_run = c5_fresh_conn\<lparr>metrics_crid_monthly := Some [stored_row x]\<rparr>"
    using c5_first_run_eq by blast
  show "gold_nh_quality_mds c5_first_run = ex4_mds"
    "gold_nh_quality_claims c5_first_run = ex_claims_rows ''015009'' 4"
    "gold_nh_measure_definitions c5_first_run = ex_defs"
    "sources_exist c5_first_run"
    "length (table_rows c5_first_run) = 1"
    unfolding x
    by (simp_all add: c5_fresh_conn_def sources_exist_def gold_nh_quality_mds_def
        gold_nh_quality_claims_def gold_nh_measure_definitions_def table_rows_def)
qed

subsection \<open>C5: what a full run leaves behind\<close>

text \<open>
  C5, as the code has it. A full run drops and recreates the table and commits that before
  the INSERT is run, so the second committed state of every full run has an empty table.
  The INSERT is one statement: when the source tables exist, every value fits its column and
  the keys are unique, the run ends with the table holding exactly the stored rows of the
  statement; otherwise the run ends with the error of the statement and the table left
  empty. The output is never partial, and the prior output does not survive either way.
\<close>

theorem full_run_outcome:
  assumes "volatility_window a \<in> {3, 4}" "\<not> dry_run a" "\<not> validate a"
  shows "\<exists>out. materialize_sql (nat (volatility_window a - 1)) (gold_nh_quality_mds conn)
             (gold_nh_quality_claims conn) (gold_nh_measure_definitions conn) = Inr out \<and>
           (if sources_exist conn \<and> (\<forall>r\<in>set out. row_fits r) \<and> crid_monthly_unique out
            then main a conn = (conn\<lparr>metrics_crid_monthly := Some (map stored_row out)\<rparr>, None)
            else fst (main a conn) = conn\<lparr>metrics_crid_monthly := Some []\<rparr> \<and>
                 snd (main a conn) \<in> {Some UndefinedTable, Some NumericValueOutOfRange,
                                       Some UniqueViolation}) \<and>
           main_commits a conn ! 1 = conn\<lparr>metrics_crid_monthly := Some []\<rparr>"
proof -
  obtain out where out: "materialize_sql (nat (volatility_window a - 1)) (gold_nh_quality_mds conn)
             (gold_nh_quality_claims conn) (gold_nh_measure_definitions conn) = Inr out"
    by (simp add: materialize_sql_total)
  show ?thesis
    using main_full_run [OF assms out] out by (intro exI [of _ out]) simp
qed

text \<open>
  The claim that a failed run leaves the previous output untouched, and that the prior output
  is never gone while the new one is absent, fails. After a first run has written one row:
  with the definitions table dropped the next run ends with \<^verbatim>\<open>UndefinedTable\<close> and an
  empty table; with the weight of measure 410 set to 1000000 it ends with a numeric overflow
  and an empty table; and a successful run on unchanged data commits an empty table before
  it commits the new row.
\<close>

theorem atomicity_counterexample:
  "length (table_rows c5_first_run) = 1 \<and>
   main (full_run 3) c5_no_defs_conn =
     (c5_no_defs_conn\<lparr>metrics_crid_monthly := Some []\<rparr>, Some UndefinedTable) \<and>
   main (full_run 3) c5_overflow_conn =
     (c5_overflow_conn\<lparr>metrics_crid_monthly := Some []\<rparr>, Some NumericValueOutOfRange) \<and>
   snd (main (full_run 3) c5_first_run) = None \<and>
   length (table_rows (fst (main (full_run 3) c5_first_run))) = 1 \<and>
   table_rows (main_commits (full_run 3) c5_first_run ! 1) = []"
proof -
  obtain out where out: "materialize_sql 2 ex4_mds (ex_claims_rows ''015009'' 4) c5_big_defs = Inr out"
    by (simp add: materialize_sql_total)
  have nd: "\<not> sources_exist c5_no_defs_conn"
    by (simp add: c5_no_defs_conn_def sources_exist_def)
  have "materialize_sql (nat (volatility_window (full_run 3) - 1)) (gold_nh_quality_mds c5_no_defs_conn)
             (gold_nh_quality_claims c5_no_defs_conn) (gold_nh_measure_definitions c5_no_defs_conn) =
        Inr (projr (materialize_sql (nat (volatility_window (full_run 3) - 1)) (gold_nh_quality_mds c5_no_defs_conn)
             (gold_nh_quality_claims c5_no_defs_conn) (gold_nh_measure_definitions c5_no_defs_conn)))"
    by (simp add: materialize_sql_total)
  from main_full_run(1) [OF full_run_args(1-3) this]
  have 1: "main (full_run 3) c5_no_defs_conn =
     (c5_no_defs_conn\<lparr>metrics_crid_monthly := Some []\<rparr>, Some UndefinedTable)"
    using nd by simp
  have s: "gold_nh_quality_mds c5_overflow_conn = ex4_mds"
    "gold_nh_quality_claims c5_overflow_conn = ex_claims_rows ''015009'' 4"
    "gold_nh_measure_definitions c5_overflow_conn = c5_big_defs"
    "sources_exist c5_overflow_conn"
    using c5_first_run_sources
    by (simp_all add: c5_overflow_conn_def sources_exist_def gold_nh_quality_mds_def
        gold_nh_quality_claims_def gold_nh_measure_definitions_def)
  have o: "materialize_sql (nat (volatility_window (full_run 3) - 1)) (gold_nh_quality_mds c5_overflow_conn)
             (gold_nh_quality_claims c5_overflow_conn) (gold_nh_measure_definitions c5_overflow_conn) = Inr out"
    unfolding full_run_args s by (rule out)
  have 2: "main (full_run 3) c5_overflow_conn =
     (c5_overflow_conn\<lparr>metrics_crid_monthly := Some []\<rparr>, Some NumericValueOutOfRange)"
    using main_full_run(1) [OF full_run_args(1-3) o] s(4) c5_overflow_row [OF out] by simp
  from ex8_run [OF c5_first_run_sources(1-4)]
  have 3: "snd (main (full_run 3) c5_first_run) = None \<and>
   length (table_rows (fst (main (full_run 3) c5_first_run))) = 1 \<and>
   table_rows (main_commits (full_run 3) c5_first_run ! 1) = []"
    by (auto simp: table_rows_def)
  from 1 2 3 c5_first_run_sources(5) show ?thesis by simp
qed

theorem full_run_outcome_witness:
  "volatility_window (full_run 3) \<in> {3, 4} \<and> \<not> dry_run (full_run 3) \<and> \<not> validate (full_run 3) \<and>
   sources_exist c5_first_run \<and> \<not> sources_exist c5_no_defs_conn \<and>
   (\<exists>out. materialize_sql 2 ex4_mds (ex_claims_rows ''015009'' 4) ex_defs = Inr out \<and>
      (\<forall>r\<in>set out. row_fits r) \<and> crid_monthly_unique out \<and> length out = 1 \<and>
      main (full_run 3) c5_first_run =
        (c5_first_run\<lparr>metrics_crid_monthly := Some (map stored_row out)\<rparr>, None)) \<and>
   fst (main (full_run 3) c5_no_defs_conn) = c5_no_defs_conn\<lparr>metrics_crid_monthly := Some []\<rparr> \<and>
   snd (main (full_run 3) c5_no_defs_conn) \<in>
      {Some UndefinedTable, Some NumericValueOutOfRange, Some UniqueViolation} \<and>
   main_commits (full_run 3) c5_first_run ! 1 = c5_first_run\<lparr>metrics_crid_monthly := Some []\<rparr>"
proof -
  obtain out where out: "materialize_sql 2 ex4_mds (ex_claims_rows ''015009'' 4) ex_defs = Inr out"
    and m: "if sources_exist c5_first_run \<and> (\<forall>r\<in>set out. row_fits r) \<and> crid_monthly_unique out
            then main (full_run 3) c5_first_run = (c5_first_run\<lparr>metrics_crid_monthly := Some (map stored_row out)\<rparr>, None)
            else fst (main (full_run 3) c5_first_run) = c5_first_run\<lparr>metrics_crid_monthly := Some []\<rparr> \<and>
                 snd (main (full_run 3) c5_first_run) \<in> {Some UndefinedTable, Some NumericValueOutOfRange,
                                       Some UniqueViolation}"
    and c: "main_commits (full_run 3) c5_first_run ! 1 = c5_first_run\<lparr>metrics_crid_monthly := Some []\<rparr>"
    using full_run_outcome [OF full_run_args(1-3), of c5_first_run]
    unfolding full_run_args(4) c5_first_run_sources by blast
  have "length (map is_complete out) = 1"
    unfolding output_map(3) [OF out] ex8_facility_rows by simp
  then have len: "length out = 1" by simp
  have u: "crid_monthly_unique out" using len by (rule single_row_unique)
  have fit: "\<forall>r\<in>set out. row_fits r" by (rule ex8_rows_fit [OF c7_defs(3) out])
  have nd: "\<not> sources_exist c5_no_defs_conn"
    by (simp add: c5_no_defs_conn_def sources_exist_def)
  obtain out' where
    "if sources_exist c5_no_defs_conn \<and> (\<forall>r\<in>set out'. row_fits r) \<and> crid_monthly_unique out'
            then main (full_run 3) c5_no_defs_conn = (c5_no_defs_conn\<lparr>metrics_crid_monthly := Some (map stored_row out')\<rparr>, None)
            else fst (main (full_run 3) c5_no_defs_conn) = c5_no_defs_conn\<lparr>metrics_crid_monthly := Some []\<rparr> \<and>
                 snd (main (full_run 3) c5_no_defs_conn) \<in> {Some UndefinedTable, Some NumericValueOutOfRange,
                                       Some UniqueViolation}"
    using full_run_outcome [OF full_run_args(1-3), of c5_no_defs_conn] by blast
  with nd have f: "fst (main (full_run 3) c5_no_defs_conn) = c5_no_defs_conn\<lparr>metrics_crid_monthly := Some []\<rparr> \<and>
                 snd (main (full_run 3) c5_no_defs_conn) \<in> {Some UndefinedTable, Some NumericValueOutOfRange,
                                       Some UniqueViolation}"
    by simp
  from m u fit c5_first_run_sources(4)
  have "main (full_run 3) c5_first_run = (c5_first_run\<lparr>metrics_crid_monthly := Some (map stored_row out)\<rparr>, None)"
    by simp
  with out fit u len c f nd c5_first_run_sources(4) full_run_args(1-3) show ?thesis by blast
qed

subsection \<open>Completeness from the source tables\<close>

lemma group_by_set:
  "set (group_by key xs) = (\<lambda>k. (k, filter (\<lambda>x. key x = k) xs)) ` key ` set xs"
  by (simp add: group_by_def)

lemma mds_value_present:
  "mds_value code g \<noteq> None \<longleftrightarrow> (\<exists>x\<in>set g. m_measure_code x = code \<and> m_four_quarter_avg x \<noteq> None)"
  unfolding mds_value_def sql_max_None by (auto split: if_splits) metis+

lemma claims_value_present:
  "claims_value code g \<noteq> None \<longleftrightarrow> (\<exists>x\<in>set g. c_measure_code x = code \<and> c_adjusted_score x \<noteq> None)"
  unfolding claims_value_def sql_max_None by (auto split: if_splits) metis+

lemma mds_sup_flag:
  "mds_sup code g = (if \<exists>x\<in>set g. m_measure_code x = code \<and> m_has_suppression x = Some True then 1 else 0)"
  unfolding mds_sup_def max_flag_bit ..

lemma claims_sup_flag:
  "claims_sup code g = (if \<exists>x\<in>set g. c_measure_code x = code \<and> c_has_suppression x = Some True then 1 else 0)"
  unfolding claims_sup_def max_flag_bit ..

lemma mds_base_row:
  assumes "m \<in> set (mds_base mds)"
  defines "g \<equiv> filter (\<lambda>x. (m_ccn x, m_extract_id x, m_as_of_date x, m_state x) =
                           (b_ccn m, b_extract_id m, b_as_of_date m, b_state m))
                 (filter (\<lambda>m. m_measure_code m \<in> set [''410'', ''453'', ''407'', ''409'']) mds)"
  shows "b_measure_410 m = mds_value ''410'' g" "b_measure_453 m = mds_value ''453'' g"
    "b_measure_407 m = mds_value ''407'' g" "b_measure_409 m = mds_value ''409'' g"
    "b_sup_410 m = mds_sup ''410'' g" "b_sup_453 m = mds_sup ''453'' g"
    "b_sup_407 m = mds_sup ''407'' g" "b_sup_409 m = mds_sup ''409'' g"
proof -
  let ?key = "\<lambda>m. (m_ccn m, m_extract_id m, m_as_of_date m, m_state m)"
  let ?xs = "filter (\<lambda>m. m_measure_code m \<in> set [''410'', ''453'', ''407'', ''409'']) mds"
  from assms(1) obtain k where k: "m = (\<lambda>((c, e, d, s), g).
            \<lparr> b_ccn = c, b_extract_id = e, b_as_of_date = d, b_state = s,
              b_measure_410 = mds_value ''410'' g, b_measure_453 = mds_value ''453'' g,
              b_measure_407 = mds_value ''407'' g, b_measure_409 = mds_value ''409'' g,
              b_sup_410 = mds_sup ''410'' g, b_sup_453 = mds_sup ''453'' g,
              b_sup_407 = mds_sup ''407'' g, b_sup_409 = mds_sup ''409'' g \<rparr>)
          (k, filter (\<lambda>x. ?key x = k) ?xs)"
    unfolding mds_base_def set_map group_by_set by blast
  obtain c e d s where ced: "k = (c, e, d, s)" by (cases k)
  have g: "g = filter (\<lambda>x. ?key x = k) ?xs"
    unfolding g_def k ced by simp
  show "b_measure_410 m = mds_value ''410'' g" "b_measure_453 m = mds_value ''453'' g"
    "b_measure_407 m = mds_value ''407'' g" "b_measure_409 m = mds_value ''409'' g"
    "b_sup_410 m = mds_sup ''410'' g" "b_sup_453 m = mds_sup ''453'' g"
    "b_sup_407 m = mds_sup ''407'' g" "b_sup_409 m = mds_sup ''409'' g"
    unfolding g by (simp_all add: k ced)
qed

lemma claims_base_row:
  assumes "c \<in> set (claims_base claims)"
  defines "g \<equiv> filter (\<lambda>x. (c_ccn x, c_extract_id x) = (cb_ccn c, cb_extract_id c))
                 (filter (\<lambda>c. c_measure_code c \<in> set [''551'', ''552'']) claims)"
  shows "cb_measure_551 c = claims_value ''551'' g" "cb_measure_552 c = claims_value ''552'' g"
    "cb_sup_551 c = claims_sup ''551'' g" "cb_sup_552 c = claims_sup ''552'' g"
proof -
  let ?key = "\<lambda>c. (c_ccn c, c_extract_id c)"
  let ?xs = "filter (\<lambda>c. c_measure_code c \<in> set [''551'', ''552'']) claims"
  from assms(1) obtain k where k: "c = (\<lambda>((c, e), g).
            \<lparr> cb_ccn = c, cb_extract_id = e,
              cb_measure_551 = claims_value ''551'' g, cb_measure_552 = claims_value ''552'' g,
              cb_sup_551 = claims_sup ''551'' g, cb_sup_552 = claims_sup ''552'' g \<rparr>)
          (k, filter (\<lambda>x. ?key x = k) ?xs)"
    unfolding claims_base_def set_map group_by_set by blast
  obtain a e where ae: "k = (a, e)" by (cases k)
  have g: "g = filter (\<lambda>x. ?key x = k) ?xs"
    unfolding g_def k ae by simp
  show "cb_measure_551 c = claims_value ''551'' g" "cb_measure_552 c = claims_value ''552'' g"
    "cb_sup_551 c = claims_sup ''551'' g" "cb_sup_552 c = claims_sup ''552'' g"
    unfolding g by (simp_all add: k ae)
qed

lemma claims_base_key_set:
  "(\<lambda>c. (cb_ccn c, cb_extract_id c)) ` set (claims_base claims) =
     (\<lambda>c. (c_ccn c, c_extract_id c)) ` set (filter (\<lambda>c. c_measure_code c \<in> set [''551'', ''552'']) claims)"
proof -
  have "map (\<lambda>c. (cb_ccn c, cb_extract_id c)) (claims_base claims) =
        map fst (group_by (\<lambda>c. (c_ccn c, c_extract_id c))
                   (filter (\<lambda>c. c_measure_code c \<in> set [''551'', ''552'']) claims))"
    by (simp add: claims_base_def o_def split_beta)
  then have "set (map (\<lambda>c. (cb_ccn c, cb_extract_id c)) (claims_base claims)) =
        set (remdups (map (\<lambda>c. (c_ccn c, c_extract_id c))
                   (filter (\<lambda>c. c_measure_code c \<in> set [''551'', ''552'']) claims)))"
    unfolding group_by_keys by simp
  then show ?thesis by simp
qed

lemma facility_join_claims:
  assumes "(m, c) \<in> set (facility_join (mds_base mds) (claims_base claims))"
  defines "g \<equiv> filter (\<lambda>x. (c_ccn x, c_extract_id x) = (b_ccn m, b_extract_id m))
                 (filter (\<lambda>c. c_measure_code c \<in> set [''551'', ''552'']) claims)"
  shows "c_measure_551 c = claims_value ''551'' g" "c_measure_552 c = claims_value ''552'' g"
    "coalesce_sup_551 c = claims_sup ''551'' g" "coalesce_sup_552 c = claims_sup ''552'' g"
    "m \<in> set (mds_base mds)"
proof -
  let ?on = "\<lambda>m c. b_ccn m = cb_ccn c \<and> b_extract_id m = cb_extract_id c"
  from assms(1) have cases: "m \<in> set (mds_base mds) \<and>
      ((c = None \<and> filter (?on m) (claims_base claims) = []) \<or>
       (\<exists>y. c = Some y \<and> y \<in> set (claims_base claims) \<and> ?on m y))"
    unfolding facility_join_def left_join_set by auto
  then show "m \<in> set (mds_base mds)" by simp
  have "c_measure_551 c = claims_value ''551'' g \<and> c_measure_552 c = claims_value ''552'' g \<and>
    coalesce_sup_551 c = claims_sup ''551'' g \<and> coalesce_sup_552 c = claims_sup ''552'' g"
  proof (cases c)
    case None
    with cases have "filter (?on m) (claims_base claims) = []" by simp
    then have "(b_ccn m, b_extract_id m) \<notin> (\<lambda>c. (cb_ccn c, cb_extract_id c)) ` set (claims_base claims)"
      by (auto simp: filter_empty_conv)
    then have "(b_ccn m, b_extract_id m) \<notin> (\<lambda>c. (c_ccn c, c_extract_id c)) `
        set (filter (\<lambda>c. c_measure_code c \<in> set [''551'', ''552'']) claims)"
      unfolding claims_base_key_set .
    then have "\<forall>x\<in>set (filter (\<lambda>c. c_measure_code c \<in> set [''551'', ''552'']) claims).
        (c_ccn x, c_extract_id x) \<noteq> (b_ccn m, b_extract_id m)"
      by (metis (mono_tags, lifting) image_eqI)
    then have "g = []" unfolding g_def by (simp only: filter_empty_conv)
    then show ?thesis
      by (simp add: None c_measure_551_def c_measure_552_def coalesce_sup_551_def coalesce_sup_552_def
            claims_value_def claims_sup_def max_flag_def)
  next
    case (Some y)
    with cases have y: "y \<in> set (claims_base claims)" "b_ccn m = cb_ccn y" "b_extract_id m = cb_extract_id y"
      by simp_all
    show ?thesis
      using claims_base_row [OF y(1)] unfolding g_def y(2,3)
      by (simp add: Some c_measure_551_def c_measure_552_def coalesce_sup_551_def coalesce_sup_552_def)
  qed
  then show "c_measure_551 c = claims_value ''551'' g" "c_measure_552 c = claims_value ''552'' g"
    "coalesce_sup_551 c = claims_sup ''551'' g" "coalesce_sup_552 c = claims_sup ''552'' g"
    by simp_all
qed

lemma length_filter_maps:
  assumes "map P xs = map Q ys"
  shows "length (filter P xs) = length (filter Q ys)"
proof -
  have "length xs = length ys" using assms by (rule map_eq_imp_length_eq)
  then show ?thesis using assms
    by (induction xs ys rule: list_induct2) auto
qed

lemma pairs_observations:
  fixes r :: "'a facility_scheme"
  assumes mc: "(m, c) \<in> set (facility_join (mds_base mds) (claims_base claims))"
    and r: "ccn r = b_ccn m" "extract_id r = b_extract_id m" "as_of_date r = b_as_of_date m"
       "state r = b_state m"
  shows "map (\<lambda>p. fst p \<noteq> None) (measure_pairs (m, c)) =
           map (\<lambda>k. has_value (observations mds claims r k)) crid_codes"
    and "map (\<lambda>p. snd p = 1) (measure_pairs (m, c)) =
           map (\<lambda>k. flagged (observations mds claims r k)) crid_codes"
    and "map (\<lambda>p. snd p = 0) (measure_pairs (m, c)) =
           map (\<lambda>k. \<not> flagged (observations mds claims r k)) crid_codes"
proof -
  note cl = facility_join_claims [OF mc]
  note md = mds_base_row [OF cl(5)]
  have q: "has_value (observations mds claims r k) \<longleftrightarrow>
             (\<exists>x\<in>set mds. m_measure_code x = k \<and> m_ccn x = b_ccn m \<and> m_extract_id x = b_extract_id m \<and>
                m_as_of_date x = b_as_of_date m \<and> m_state x = b_state m \<and> m_four_quarter_avg x \<noteq> None)"
       "flagged (observations mds claims r k) \<longleftrightarrow>
             (\<exists>x\<in>set mds. m_measure_code x = k \<and> m_ccn x = b_ccn m \<and> m_extract_id x = b_extract_id m \<and>
                m_as_of_date x = b_as_of_date m \<and> m_state x = b_state m \<and> m_has_suppression x = Some True)"
    if "k \<in> set quality_codes" for k
    using that
    by (auto simp: has_value_def flagged_def observations_def r quality_codes_def utilization_codes_def)
       blast+
  have u: "has_value (observations mds claims r k) \<longleftrightarrow>
             (\<exists>x\<in>set claims. c_measure_code x = k \<and> c_ccn x = b_ccn m \<and> c_extract_id x = b_extract_id m \<and>
                c_adjusted_score x \<noteq> None)"
       "flagged (observations mds claims r k) \<longleftrightarrow>
             (\<exists>x\<in>set claims. c_measure_code x = k \<and> c_ccn x = b_ccn m \<and> c_extract_id x = b_extract_id m \<and>
                c_has_suppression x = Some True)"
    if "k \<in> set utilization_codes" for k
    using that
    by (auto simp: has_value_def flagged_def observations_def r quality_codes_def utilization_codes_def)
       blast+
  have qc: "''410'' \<in> set quality_codes" "''453'' \<in> set quality_codes" "''407'' \<in> set quality_codes"
    "''409'' \<in> set quality_codes" "''551'' \<in> set utilization_codes" "''552'' \<in> set utilization_codes"
    by (simp_all add: quality_codes_def utilization_codes_def)
  have v: "b_measure_410 m \<noteq> None \<longleftrightarrow> has_value (observations mds claims r ''410'')"
      "b_measure_453 m \<noteq> None \<longleftrightarrow> has_value (observations mds claims r ''453'')"
      "b_measure_407 m \<noteq> None \<longleftrightarrow> has_value (observations mds claims r ''407'')"
      "b_measure_409 m \<noteq> None \<longleftrightarrow> has_value (observations mds claims r ''409'')"
    unfolding md mds_value_present q(1) [OF qc(1)] q(1) [OF qc(2)] q(1) [OF qc(3)] q(1) [OF qc(4)]
    by auto
  have s: "b_sup_410 m = (if flagged (observations mds claims r ''410'') then 1 else 0)"
      "b_sup_453 m = (if flagged (observations mds claims r ''453'') then 1 else 0)"
      "b_sup_407 m = (if flagged (observations mds claims r ''407'') then 1 else 0)"
      "b_sup_409 m = (if flagged (observations mds claims r ''409'') then 1 else 0)"
    unfolding md mds_sup_flag q(2) [OF qc(1)] q(2) [OF qc(2)] q(2) [OF qc(3)] q(2) [OF qc(4)]
    by auto
  have cv: "c_measure_551 c \<noteq> None \<longleftrightarrow> has_value (observations mds claims r ''551'')"
      "c_measure_552 c \<noteq> None \<longleftrightarrow> has_value (observations mds claims r ''552'')"
    unfolding cl claims_value_present u(1) [OF qc(5)] u(1) [OF qc(6)] by auto
  have cs: "coalesce_sup_551 c = (if flagged (observations mds claims r ''551'') then 1 else 0)"
      "coalesce_sup_552 c = (if flagged (observations mds claims r ''552'') then 1 else 0)"
    unfolding cl claims_sup_flag u(2) [OF qc(5)] u(2) [OF qc(6)] by auto
  show "map (\<lambda>p. fst p \<noteq> None) (measure_pairs (m, c)) =
           map (\<lambda>k. has_value (observations mds claims r k)) crid_codes"
    unfolding measure_pairs_def crid_codes_def quality_codes_def utilization_codes_def
    using v cv by simp
  show "map (\<lambda>p. snd p = 1) (measure_pairs (m, c)) =
           map (\<lambda>k. flagged (observations mds claims r k)) crid_codes"
    unfolding measure_pairs_def crid_codes_def quality_codes_def utilization_codes_def
    by (simp add: s cs)
  show "map (\<lambda>p. snd p = 0) (measure_pairs (m, c)) =
           map (\<lambda>k. \<not> flagged (observations mds claims r k)) crid_codes"
    unfolding measure_pairs_def crid_codes_def quality_codes_def utilization_codes_def
    by (simp add: s cs)
qed

lemma map_conj:
  assumes "map P xs = map P' ys" "map Q xs = map Q' ys"
  shows "map (\<lambda>x. P x \<and> Q x) xs = map (\<lambda>y. P' y \<and> Q' y) ys"
proof -
  have "length xs = length ys" using assms(1) by (rule map_eq_imp_length_eq)
  then show ?thesis using assms
    by (induction xs ys rule: list_induct2) auto
qed

lemma sql_round_pct_idem:
  assumes "0 \<le> k" "k \<le> 6"
  shows "sql_round (sql_round (of_int k / 6 * 100) 2) 2 = sql_round (of_int k / 6 * 100) 2"
proof -
  from assms have "k = 0 \<or> k = 1 \<or> k = 2 \<or> k = 3 \<or> k = 4 \<or> k = 5 \<or> k = 6" by auto
  then show ?thesis
    by (elim disjE) (simp_all add: sql_round_def)
qed

lemma output_completeness:
  assumes "materialize_sql p mds claims defs = Inr out" "r \<in> set out"
  shows "measures_present r = spec_measures_present mds claims r"
    "measures_suppressed r = spec_measures_suppressed mds claims r"
    "[measure_410 r \<noteq> None, measure_453 r \<noteq> None, measure_407 r \<noteq> None,
      measure_409 r \<noteq> None, measure_551 r \<noteq> None, measure_552 r \<noteq> None] =
       map (\<lambda>k. has_value (observations mds claims r k)) crid_codes"
    "completeness_pct r = sql_round (of_int (measures_present r) / 6 * 100) 2"
    "is_complete r = (measures_present r = 6)"
    "0 \<le> measures_present r" "measures_present r \<le> 6"
proof -
  let ?w = "weight_values (measure_weights defs)"
  obtain f where f: "f \<in> set (facility_rows mds claims defs)"
      "ccn r = ccn f" "extract_id r = extract_id f" "as_of_date r = as_of_date f"
      "state r = state f"
      "measure_410 r = measure_410 f" "measure_453 r = measure_453 f"
      "measure_407 r = measure_407 f" "measure_409 r = measure_409 f"
      "measure_551 r = measure_551 f" "measure_552 r = measure_552 f"
      "measures_present r = measures_present f"
      "measures_suppressed r = measures_suppressed f"
      "completeness_pct r = completeness_pct f" "is_complete r = is_complete f"
    using output_row_facility [OF assms] by blast
  from f(1) obtain mc where mc: "mc \<in> set (facility_join (mds_base mds) (claims_base claims))"
      "f = with_composites_row ?w (all_facilities_row mc)"
    unfolding facility_rows_eq by auto
  obtain m c where mceq: "mc = (m, c)" by (cases mc)
  note row = completeness_row [OF pairs_sup_01 [OF mc(1)], of ?w, folded mc(2)]
  have key: "ccn r = b_ccn m" "extract_id r = b_extract_id m" "as_of_date r = b_as_of_date m"
      "state r = b_state m"
    unfolding f(2-5)
    by (simp_all add: mc(2) mceq with_composites_row_def all_facilities_row_def)
  note po = pairs_observations [OF mc(1) [unfolded mceq] key, folded mceq]
  have eq: "(\<lambda>(v, s). v \<noteq> None \<and> s = 0) = (\<lambda>p. fst p \<noteq> None \<and> snd p = (0::int))"
     "(\<lambda>(v, s). s = 1) = (\<lambda>p. snd p = (1::int))"
    by (auto simp: fun_eq_iff)
  have "length (filter (\<lambda>p. fst p \<noteq> None \<and> snd p = 0) (measure_pairs mc)) =
        length (filter (\<lambda>k. has_value (observations mds claims r k) \<and>
                              \<not> flagged (observations mds claims r k)) crid_codes)"
    by (rule length_filter_maps) (rule map_conj [OF po(1) po(3)])
  then show "measures_present r = spec_measures_present mds claims r"
    unfolding f(12) row(1) count_present_def spec_measures_present_def eq by simp
  have "length (filter (\<lambda>p. snd p = 1) (measure_pairs mc)) =
        length (filter (\<lambda>k. flagged (observations mds claims r k)) crid_codes)"
    by (rule length_filter_maps) (rule po(2))
  then show "measures_suppressed r = spec_measures_suppressed mds claims r"
    unfolding f(13) row(2) count_suppressed_def spec_measures_suppressed_def eq by simp
  have "map (\<lambda>p. fst p \<noteq> None) (measure_pairs mc) =
       [measure_410 r \<noteq> None, measure_453 r \<noteq> None, measure_407 r \<noteq> None,
        measure_409 r \<noteq> None, measure_551 r \<noteq> None, measure_552 r \<noteq> None]"
  proof -
    have "map (\<lambda>p. fst p \<noteq> None) (measure_pairs mc) =
          map (\<lambda>v. v \<noteq> None) (map fst (measure_pairs mc))"
      by (simp add: o_def)
    then show ?thesis unfolding row(5) f(6-11) by simp
  qed
  then show "[measure_410 r \<noteq> None, measure_453 r \<noteq> None, measure_407 r \<noteq> None,
      measure_409 r \<noteq> None, measure_551 r \<noteq> None, measure_552 r \<noteq> None] =
       map (\<lambda>k. has_value (observations mds claims r k)) crid_codes"
    using po(1) by simp
  show "completeness_pct r = sql_round (of_int (measures_present r) / 6 * 100) 2"
    unfolding f(12,14) by (rule row(3))
  show "is_complete r = (measures_present r = 6)"
    unfolding f(12,15) by (rule row(4))
  show "0 \<le> measures_present r" "measures_present r \<le> 6"
    unfolding f(12) using facility_counts [OF f(1)] by simp_all
qed

subsection \<open>C4: the completeness tracker\<close>

text \<open>
  C4. For every row of the output, with the observations of its facility-period read from
  the two source tables: \<^verbatim>\<open>measures_present\<close> counts the codes that have a non-NULL value
  and are not suppressed (a suppressed measure with a value does not count),
  \<^verbatim>\<open>measures_suppressed\<close> counts the codes flagged suppressed whatever their value, a
  measure column is non-NULL exactly when the measure has a value,
  \<^verbatim>\<open>completeness_pct\<close> is \<^verbatim>\<open>round(measures_present / 6 * 100, 2)\<close> and
  \<^verbatim>\<open>is_complete\<close> holds exactly when \<^verbatim>\<open>measures_present\<close> is 6. With five measures present
  the percentage is 83.33 and the row is not complete. Storing the row changes none of the
  three columns.
\<close>

theorem completeness_tracker:
  assumes "materialize_sql p mds claims defs = Inr out" "r \<in> set out"
  shows "measures_present r = spec_measures_present mds claims r \<and>
         measures_suppressed r = spec_measures_suppressed mds claims r \<and>
         [measure_410 r \<noteq> None, measure_453 r \<noteq> None, measure_407 r \<noteq> None,
          measure_409 r \<noteq> None, measure_551 r \<noteq> None, measure_552 r \<noteq> None] =
            map (\<lambda>k. has_value (observations mds claims r k)) crid_codes \<and>
         completeness_pct r = sql_round (of_int (measures_present r) / 6 * 100) 2 \<and>
         is_complete r = (measures_present r = 6) \<and>
         (measures_present r = 5 \<longrightarrow> completeness_pct r = 8333 / 100 \<and> \<not> is_complete r) \<and>
         measures_present (stored_row r) = measures_present r \<and>
         measures_suppressed (stored_row r) = measures_suppressed r \<and>
         completeness_pct (stored_row r) = completeness_pct r"
proof -
  note oc = output_completeness [OF assms]
  have five: "completeness_pct r = 8333 / 100 \<and> \<not> is_complete r" if "measures_present r = 5"
    using that oc(4,5) sql_round_values(6) by simp
  have st: "completeness_pct (stored_row r) = completeness_pct r"
    unfolding stored_row_values oc(4) using oc(6,7) by (rule sql_round_pct_idem)
  show ?thesis
    using oc(1-5) five st by (simp add: stored_row_keys)
qed

lemma ex4_keys:
  assumes "materialize_sql p ex4_mds claims defs = Inr out" "r \<in> set out"
  shows "ccn r = ''015009''" "extract_id r = 202401" "as_of_date r = ''2024-01-01''" "state r = ''01''"
proof -
  obtain f where f: "f \<in> set (facility_rows ex4_mds claims defs)"
      "ccn r = ccn f" "extract_id r = extract_id f" "as_of_date r = as_of_date f"
      "state r = state f"
    using output_row_facility [OF assms] by blast
  from f(1) obtain mc where mc: "mc \<in> set (facility_join (mds_base ex4_mds) (claims_base claims))"
      "f = with_composites_row (weight_values (measure_weights defs)) (all_facilities_row mc)"
    unfolding facility_rows_eq by auto
  have "fst mc \<in> set (mds_base ex4_mds)"
    using mc(1) facility_join_fst [of ex4_mds claims] by (metis image_eqI set_map)
  then have "b_ccn (fst mc) = ''015009'' \<and> b_extract_id (fst mc) = 202401 \<and>
      b_as_of_date (fst mc) = ''2024-01-01'' \<and> b_state (fst mc) = ''01''"
    by (auto simp: mds_base_def group_by_def ex4_mds_def ex_mds_rows_def)
  then show "ccn r = ''015009''" "extract_id r = 202401" "as_of_date r = ''2024-01-01''" "state r = ''01''"
    unfolding f(2-5) mc(2)
    by (simp_all add: with_composites_row_def all_facilities_row_def split_beta)
qed

lemma ex4_spec_counts:
  fixes r :: "'a facility_scheme"
  assumes "ccn r = ''015009''" "extract_id r = 202401" "as_of_date r = ''2024-01-01''" "state r = ''01''"
  shows "spec_measures_present ex4_mds ex4_sup_claims r = 5"
    "spec_measures_suppressed ex4_mds ex4_sup_claims r = 1"
    "spec_measures_present ex4_mds ex4_claims r = 5"
    "spec_measures_suppressed ex4_mds ex4_claims r = 0"
  by (simp_all add: spec_measures_present_def spec_measures_suppressed_def observations_def
        has_value_def flagged_def crid_codes_def quality_codes_def utilization_codes_def
        ex4_mds_def ex_mds_rows_def ex4_sup_claims_def ex4_claims_def assms)

theorem completeness_tracker_witness:
  "(\<exists>out r. materialize_sql 2 ex4_mds ex4_sup_claims ex_defs = Inr out \<and> r \<in> set out \<and>
     measures_present r = 5 \<and> measures_suppressed r = 1 \<and>
     measure_551 r \<noteq> None \<and> completeness_pct r = 8333 / 100 \<and> \<not> is_complete r) \<and>
   (\<exists>out r. materialize_sql 2 ex4_mds ex4_claims ex_defs = Inr out \<and> r \<in> set out \<and>
     measures_present r = 5 \<and> measures_suppressed r = 0 \<and>
     measure_552 r = None \<and> completeness_pct r = 8333 / 100 \<and> \<not> is_complete r)"
proof -
  have nonempty: "\<exists>out r. materialize_sql 2 ex4_mds claims ex_defs = Inr out \<and> r \<in> set out" for claims
  proof -
    obtain out where out: "materialize_sql 2 ex4_mds claims ex_defs = Inr out"
      by (simp add: materialize_sql_total)
    have "map (\<lambda>r. (ccn r, extract_id r)) out =
        map (\<lambda>f. (ccn f, extract_id f)) (facility_rows ex4_mds claims ex_defs)"
      using out by (auto simp: materialize_sql_total final_fields z_of_fields)
    also have "\<dots> = map (\<lambda>m. (b_ccn m, b_extract_id m)) (mds_base ex4_mds)"
      by (rule facility_rows_keys)
    also have "\<dots> = [(''015009'', 202401)]"
      by (simp add: mds_base_def group_by_def ex4_mds_def ex_mds_rows_def)
    finally obtain r where "r \<in> set out" by auto
    with out show ?thesis by blast
  qed
  obtain out r where a: "materialize_sql 2 ex4_mds ex4_sup_claims ex_defs = Inr out" "r \<in> set out"
    using nonempty by blast
  note ka = ex4_keys [OF a]
  note ta = completeness_tracker [OF a]
  have pa: "measures_present r = 5"
    using ta [THEN conjunct1] unfolding ex4_spec_counts [OF ka] .
  have sa: "measures_suppressed r = 1"
    using ta [THEN conjunct2, THEN conjunct1] unfolding ex4_spec_counts [OF ka] .
  have "has_value (observations ex4_mds ex4_sup_claims r ''551'')"
    by (simp add: observations_def has_value_def ex4_sup_claims_def ka utilization_codes_def
          quality_codes_def)
  then have va: "measure_551 r \<noteq> None"
    using ta [THEN conjunct2, THEN conjunct2, THEN conjunct1]
    by (simp add: crid_codes_def quality_codes_def utilization_codes_def)
  have fa: "completeness_pct r = 8333 / 100 \<and> \<not> is_complete r"
    using ta [THEN conjunct2, THEN conjunct2, THEN conjunct2, THEN conjunct2, THEN conjunct2,
              THEN conjunct1] pa by blast
  from a pa sa va fa
  have 1: "\<exists>out r. materialize_sql 2 ex4_mds ex4_sup_claims ex_defs = Inr out \<and> r \<in> set out \<and>
     measures_present r = 5 \<and> measures_suppressed r = 1 \<and>
     measure_551 r \<noteq> None \<and> completeness_pct r = 8333 / 100 \<and> \<not> is_complete r"
    by blast
  obtain out' r' where b: "materialize_sql 2 ex4_mds ex4_claims ex_defs = Inr out'" "r' \<in> set out'"
    using nonempty by blast
  note kb = ex4_keys [OF b]
  note tb = completeness_tracker [OF b]
  have pb: "measures_present r' = 5"
    using tb [THEN conjunct1] unfolding ex4_spec_counts [OF kb] .
  have sb: "measures_suppressed r' = 0"
    using tb [THEN conjunct2, THEN conjunct1] unfolding ex4_spec_counts [OF kb] .
  have "\<not> has_value (observations ex4_mds ex4_claims r' ''552'')"
    by (simp add: observations_def has_value_def ex4_claims_def kb utilization_codes_def
          quality_codes_def)
  then have vb: "measure_552 r' = None"
    using tb [THEN conjunct2, THEN conjunct2, THEN conjunct1]
    by (simp add: crid_codes_def quality_codes_def utilization_codes_def)
  have fb: "completeness_pct r' = 8333 / 100 \<and> \<not> is_complete r'"
    using tb [THEN conjunct2, THEN conjunct2, THEN conjunct2, THEN conjunct2, THEN conjunct2,
              THEN conjunct1] pb by blast
  from b pb sb vb fb
  have 2: "\<exists>out r. materialize_sql 2 ex4_mds ex4_claims ex_defs = Inr out \<and> r \<in> set out \<and>
     measures_present r = 5 \<and> measures_suppressed r = 0 \<and>
     measure_552 r = None \<and> completeness_pct r = 8333 / 100 \<and> \<not> is_complete r"
    by blast
  from 1 2 show ?thesis by blast
qed

subsection \<open>The two-period example, evaluated\<close>

lemma group_by_block:
  assumes "A \<noteq> []" "\<forall>a\<in>set A. key a = k" "\<forall>r\<in>set R. key r \<noteq> k"
  shows "group_by key (A @ R) = (k, A) # group_by key R"
proof -
  have k: "k \<notin> set (map key R)" using assms(3) by auto
  have rd: "remdups (map key A @ ks) = k # remdups ks" if "k \<notin> set ks" for ks
    using assms(1,2) that
  proof (induction A)
    case Nil
    then show ?case by simp
  next
    case (Cons a A)
    show ?case
    proof (cases "A = []")
      case True
      with Cons.prems show ?thesis by simp
    next
      case False
      with Cons have "remdups (map key A @ ks) = k # remdups ks" by simp
      moreover have "key a \<in> set (map key A @ ks)" using False Cons.prems(2) by (cases A) auto
      ultimately show ?thesis by simp
    qed
  qed
  have fA: "filter (\<lambda>x. key x = k) (A @ R) = A"
    using assms(2,3) by (simp add: filter_id_conv filter_empty_conv)
  have fR: "filter (\<lambda>x. key x = k') (A @ R) = filter (\<lambda>x. key x = k') R" if "k' \<noteq> k" for k'
    using assms(2) that by (auto simp: filter_empty_conv)
  have m: "map (\<lambda>k'. (k', filter (\<lambda>x. key x = k') (A @ R))) (remdups (map key R)) =
        map (\<lambda>k'. (k', filter (\<lambda>x. key x = k') R)) (remdups (map key R))"
  proof (rule map_cong [OF refl])
    fix k' assume "k' \<in> set (remdups (map key R))"
    then have "k' \<noteq> k" using k by auto
    then have "filter (\<lambda>x. key x = k') (A @ R) = filter (\<lambda>x. key x = k') R"
      by (rule fR)
    then show "(k', filter (\<lambda>x. key x = k') (A @ R)) = (k', filter (\<lambda>x. key x = k') R)"
      by simp
  qed
  have "group_by key (A @ R) =
          map (\<lambda>k'. (k', filter (\<lambda>x. key x = k') (A @ R))) (remdups (map key A @ map key R))"
    by (simp add: group_by_def)
  also have "\<dots> = map (\<lambda>k'. (k', filter (\<lambda>x. key x = k') (A @ R))) (k # remdups (map key R))"
    by (simp only: rd [OF k])
  also have "\<dots> = (k, A) # map (\<lambda>k'. (k', filter (\<lambda>x. key x = k') (A @ R))) (remdups (map key R))"
    by (simp only: list.map fA)
  also have "\<dots> = (k, A) # map (\<lambda>k'. (k', filter (\<lambda>x. key x = k') R)) (remdups (map key R))"
    by (simp only: m)
  also have "\<dots> = (k, A) # group_by key R"
    by (simp add: group_by_def)
  finally show ?thesis .
qed

lemma group_by_blocks:
  assumes "distinct (map fst bs)" "\<forall>b\<in>set bs. snd b \<noteq> [] \<and> (\<forall>a\<in>set (snd b). key a = fst b)"
  shows "group_by key (concat (map snd bs)) = bs"
  using assms
proof (induction bs)
  case Nil
  then show ?case by (simp add: group_by_def)
next
  case (Cons b bs)
  have "\<forall>r\<in>set (concat (map snd bs)). key r \<noteq> fst b"
    using Cons.prems by (auto simp: image_iff)
  then have "group_by key (snd b @ concat (map snd bs)) = (fst b, snd b) # group_by key (concat (map snd bs))"
    using Cons.prems(2) by (intro group_by_block) simp_all
  then show ?case using Cons by simp
qed

lemma ex2_mds_base:
  "mds_base ex2_mds =
     map (\<lambda>(c, q, u). \<lparr> b_ccn = c, b_extract_id = 202401, b_as_of_date = ''2024-01-01'',
                         b_state = ''01'', b_measure_410 = Some q, b_measure_453 = Some 0,
                         b_measure_407 = Some 0, b_measure_409 = Some 0,
                         b_sup_410 = 0, b_sup_453 = 0, b_sup_407 = 0, b_sup_409 = 0 \<rparr>) ex_facilities @
     map (\<lambda>(c, q, u). \<lparr> b_ccn = c, b_extract_id = 202402, b_as_of_date = ''2024-02-01'',
                         b_state = ''01'', b_measure_410 = Some q, b_measure_453 = Some 0,
                         b_measure_407 = Some 0, b_measure_409 = Some 0,
                         b_sup_410 = 0, b_sup_453 = 0, b_sup_407 = 0, b_sup_409 = 0 \<rparr>) ex2_facilities"
proof -
  let ?key = "\<lambda>m. (m_ccn m, m_extract_id m, m_as_of_date m, m_state m)"
  have c: "ex2_mds = concat (map snd ex2_mds_blocks)"
    by (simp add: ex2_mds_def ex_mds_def ex2_mds_blocks_def o_def split_def)
  have all: "filter (\<lambda>m. m_measure_code m \<in> set [''410'', ''453'', ''407'', ''409'']) ex2_mds = ex2_mds"
    unfolding filter_id_conv c
    by (auto simp: ex2_mds_blocks_def ex_mds_rows_def next_mds_rows_def)
  have g: "group_by ?key ex2_mds = ex2_mds_blocks"
    unfolding c
  proof (rule group_by_blocks)
    show "distinct (map fst ex2_mds_blocks)"
      by (simp add: ex2_mds_blocks_def ex_facilities_def ex2_facilities_def)
    show "\<forall>b\<in>set ex2_mds_blocks. snd b \<noteq> [] \<and> (\<forall>a\<in>set (snd b). ?key a = fst b)"
      by (auto simp: ex2_mds_blocks_def ex_mds_rows_def next_mds_rows_def)
  qed
  show ?thesis
    unfolding mds_base_def all g
    by (simp add: ex2_mds_blocks_def ex_mds_rows_def next_mds_rows_def
          mds_value_def mds_sup_def max_flag_def split_beta)
qed

lemma ex2_claims_base:
  "claims_base ex2_claims =
     map (\<lambda>(c, q, u). \<lparr> cb_ccn = c, cb_extract_id = 202401,
                         cb_measure_551 = Some u, cb_measure_552 = Some 0,
                         cb_sup_551 = 0, cb_sup_552 = 0 \<rparr>) ex_facilities @
     map (\<lambda>(c, q, u). \<lparr> cb_ccn = c, cb_extract_id = 202402,
                         cb_measure_551 = Some u, cb_measure_552 = Some 0,
                         cb_sup_551 = 0, cb_sup_552 = 0 \<rparr>) ex2_facilities"
proof -
  let ?key = "\<lambda>c. (c_ccn c, c_extract_id c)"
  have c: "ex2_claims = concat (map snd ex2_claims_blocks)"
    by (simp add: ex2_claims_def ex_claims_def ex2_claims_blocks_def o_def split_def)
  have all: "filter (\<lambda>c. c_measure_code c \<in> set [''551'', ''552'']) ex2_claims = ex2_claims"
    unfolding filter_id_conv c
    by (auto simp: ex2_claims_blocks_def ex_claims_rows_def next_claims_rows_def)
  have g: "group_by ?key ex2_claims = ex2_claims_blocks"
    unfolding c
  proof (rule group_by_blocks)
    show "distinct (map fst ex2_claims_blocks)"
      by (simp add: ex2_claims_blocks_def ex_facilities_def ex2_facilities_def)
    show "\<forall>b\<in>set ex2_claims_blocks. snd b \<noteq> [] \<and> (\<forall>a\<in>set (snd b). ?key a = fst b)"
      by (auto simp: ex2_claims_blocks_def ex_claims_rows_def next_claims_rows_def)
  qed
  show ?thesis
    unfolding claims_base_def all g
    by (simp add: ex2_claims_blocks_def ex_claims_rows_def next_claims_rows_def
          claims_value_def claims_sup_def max_flag_def split_beta)
qed

lemma ex2_facility_rows: "facility_rows ex2_mds ex2_claims ex_defs = ex2_comps"
  unfolding facility_rows_def ex_weights ex2_mds_base ex2_claims_base
  by (simp add: ex2_comps_def next_comps_def ex_comps_def ex_facilities_def ex2_facilities_def
        ex_fac_def next_fac_def with_composites_def with_composites_row_def
        all_facilities_def all_facilities_row_def facility_join_def left_join_def
        c_measure_551_def c_measure_552_def coalesce_sup_551_def coalesce_sup_552_def
        sql_add_def sql_mul_def sql_round_def)

lemma ex2_cohort:
  "cohort ex2_comps ''01'' 202401 = ex_comps"
  "cohort ex2_comps ''01'' 202402 = next_comps"
  by (simp_all add: cohort_def ex2_comps_def next_comps_def ex_comps_def ex_facilities_def ex2_facilities_def
        ex_fac_def next_fac_def)

lemma ex2_stats:
  "sql_avg (map mds_composite next_comps) = Some 5"
  "sql_stddev_pop (map mds_composite next_comps) = Some 3"
  "sql_avg (map claims_utilization next_comps) = Some 5"
  "sql_stddev_pop (map claims_utilization next_comps) = Some 3"
  by (simp_all add: next_comps_def ex2_facilities_def ex_fac_def next_fac_def sql_avg_def sql_stddev_pop_def
        avg_def stddev_pop_def sqrt_9 power2_eq_square)

lemma ex2_members:
  assumes "f \<in> set ex2_comps"
  shows "state f = ''01''" "extract_id f = 202401 \<or> extract_id f = 202402" "is_complete f"
    "\<exists>q u. mds_composite f = Some q \<and> claims_utilization f = Some u \<and>
           0 \<le> q \<and> q \<le> 10 \<and> 0 \<le> u \<and> u \<le> 10"
    "bounded_by 10 (measure_410 f) \<and> bounded_by 10 (measure_453 f) \<and>
     bounded_by 10 (measure_407 f) \<and> bounded_by 10 (measure_409 f) \<and>
     bounded_by 10 (measure_551 f) \<and> bounded_by 10 (measure_552 f)"
  using assms
  by (auto simp: ex2_comps_def next_comps_def ex_comps_def ex_facilities_def ex2_facilities_def
        ex_fac_def next_fac_def bounded_by_def)

lemma ex2_z:
  assumes "f \<in> set ex2_comps" "mds_composite f = Some q" "claims_utilization f = Some u"
  shows "mds_z_score (z_of ex2_comps f) = Some ((q - 5) / 3)"
    "claims_z_score (z_of ex2_comps f) = Some ((u - 5) / 3)"
    "crid_expr (z_of ex2_comps f) = Some ((q - 5) / 3 - (u - 5) / 3)"
proof -
  note m = ex2_members [OF assms(1)]
  have len: "length ex_comps = 10" "length next_comps = 10"
    by (simp_all add: ex_comps_def next_comps_def ex_facilities_def ex2_facilities_def)
  show z: "mds_z_score (z_of ex2_comps f) = Some ((q - 5) / 3)"
    unfolding z_of_z_scores m(1)
    using m(2,3) assms(2) by (auto simp: ex2_cohort ex_stats ex2_stats len)
  show c: "claims_z_score (z_of ex2_comps f) = Some ((u - 5) / 3)"
    unfolding z_of_z_scores m(1)
    using m(2,3) assms(3) by (auto simp: ex2_cohort ex_stats ex2_stats len)
  show "crid_expr (z_of ex2_comps f) = Some ((q - 5) / 3 - (u - 5) / 3)"
    by (simp add: crid_expr_def z c sql_sub_def)
qed

lemma ex2_keys:
  "distinct (map (\<lambda>f. (ccn f, extract_id f)) ex2_comps)" "length ex2_comps = 20"
  by (simp_all add: ex2_comps_def next_comps_def ex_comps_def ex_facilities_def ex2_facilities_def
        ex_fac_def next_fac_def)

lemma ex2_sources:
  "gold_nh_quality_mds ex2_conn = ex2_mds"
  "gold_nh_quality_claims ex2_conn = ex2_claims"
  "gold_nh_measure_definitions ex2_conn = ex_defs"
  "sources_exist ex2_conn"
  by (simp_all add: ex2_conn_def sources_exist_def gold_nh_quality_mds_def
        gold_nh_quality_claims_def gold_nh_measure_definitions_def)

lemma ex2_output:
  "materialize_sql 2 ex2_mds ex2_claims ex_defs =
     Inr (map (\<lambda>f. final_select (with_crid_row 2 (map (z_of ex2_comps) ex2_comps) (z_of ex2_comps f)))
            ex2_comps)"
  by (simp add: materialize_sql_total ex2_facility_rows)

lemma ex2_run:
  defines "out \<equiv> map (\<lambda>f. final_select (with_crid_row 2 (map (z_of ex2_comps) ex2_comps) (z_of ex2_comps f)))
            ex2_comps"
  shows "crid_monthly_unique out" "\<forall>r\<in>set out. row_fits r"
    "main (full_run 3) ex2_conn = (ex2_conn\<lparr>metrics_crid_monthly := Some (map stored_row out)\<rparr>, None)"
    "ex2_table = map stored_row out"
proof -
  have o: "materialize_sql 2 ex2_mds ex2_claims ex_defs = Inr out"
    unfolding out_def by (rule ex2_output)
  have "map (\<lambda>r. (ccn r, extract_id r)) out = map (\<lambda>f. (ccn f, extract_id f)) ex2_comps"
    unfolding out_def by (simp add: o_def final_fields z_of_fields)
  then show u: "crid_monthly_unique out"
    unfolding crid_monthly_unique_def using ex2_keys(1) by simp
  show fit: "\<forall>r\<in>set out. row_fits r"
  proof (rule output_rows_fit [OF o u, of 10])
    show "length (facility_rows ex2_mds ex2_claims ex_defs) < 2 ^ 31"
      unfolding ex2_facility_rows ex2_keys by simp
    show "4 * (10::real) \<le> 999999" by simp
    fix f assume "f \<in> set (facility_rows ex2_mds ex2_claims ex_defs)"
    then have f: "f \<in> set ex2_comps" unfolding ex2_facility_rows .
    note m = ex2_members [OF f]
    from m(4) obtain q u where qu: "mds_composite f = Some q" "claims_utilization f = Some u"
      "0 \<le> q" "q \<le> 10" "0 \<le> u" "u \<le> 10" by blast
    note z = ex2_z [OF f qu(1,2)]
    have "\<bar>(q - 5) / 3\<bar> \<le> 10" "\<bar>(u - 5) / 3\<bar> \<le> 10" using qu(3-6) by auto
    then show "bounded_by 10 (mds_composite f) \<and> bounded_by 10 (claims_utilization f) \<and>
        bounded_by 10 (measure_410 f) \<and> bounded_by 10 (measure_453 f) \<and>
        bounded_by 10 (measure_407 f) \<and> bounded_by 10 (measure_409 f) \<and>
        bounded_by 10 (measure_551 f) \<and> bounded_by 10 (measure_552 f) \<and>
        bounded_by 10 (mds_z_score (z_of (facility_rows ex2_mds ex2_claims ex_defs) f)) \<and>
        bounded_by 10 (claims_z_score (z_of (facility_rows ex2_mds ex2_claims ex_defs) f))"
      unfolding ex2_facility_rows z(1,2) using m(5) qu by (simp add: bounded_by_def)
  qed
  have o': "materialize_sql (nat (volatility_window (full_run 3) - 1)) (gold_nh_quality_mds ex2_conn)
             (gold_nh_quality_claims ex2_conn) (gold_nh_measure_definitions ex2_conn) = Inr out"
    unfolding full_run_args ex2_sources by (rule o)
  show m: "main (full_run 3) ex2_conn = (ex2_conn\<lparr>metrics_crid_monthly := Some (map stored_row out)\<rparr>, None)"
    using main_full_run(1) [OF full_run_args(1-3) o'] u fit ex2_sources(4) by simp
  show "ex2_table = map stored_row out"
    unfolding ex2_table_def m by (simp add: table_rows_def)
qed

subsection \<open>Rounding on storage\<close>

lemma sql_round_error: "\<bar>sql_round x n - x\<bar> \<le> 1 / (2 * 10 ^ n)"
proof -
  let ?y = "\<bar>x\<bar> * 10 ^ n"
  have f: "\<bar>of_int \<lfloor>?y + 1 / 2\<rfloor> - ?y\<bar> \<le> 1 / 2" by linarith
  have x: "x = sgn x * \<bar>x\<bar>" by (simp add: sgn_mult_abs)
  have "sql_round x n - x = sgn x * ((of_int \<lfloor>?y + 1 / 2\<rfloor> - ?y) / 10 ^ n)"
    unfolding sql_round_def by (subst (3) x) (simp add: field_simps)
  then have "\<bar>sql_round x n - x\<bar> = \<bar>sgn x\<bar> * (\<bar>of_int \<lfloor>?y + 1 / 2\<rfloor> - ?y\<bar> / 10 ^ n)"
    by (simp add: abs_mult)
  also have "\<dots> \<le> 1 * ((1 / 2) / 10 ^ n)"
    by (intro mult_mono divide_right_mono f) (simp_all add: abs_sgn_eq)
  finally show ?thesis by simp
qed

lemma stored_identity:
  assumes "v = q - u"
  shows "\<bar>sql_round v 6 - (sql_round q 6 - sql_round u 6)\<bar> \<le> 3 / (2 * 10 ^ 6)"
proof -
  have "sql_round v 6 - (sql_round q 6 - sql_round u 6) =
        (sql_round v 6 - v) - (sql_round q 6 - q) + (sql_round u 6 - u)"
    using assms by simp
  moreover have "\<bar>sql_round v 6 - v\<bar> \<le> 1 / (2 * 10 ^ 6)" "\<bar>sql_round q 6 - q\<bar> \<le> 1 / (2 * 10 ^ 6)"
    "\<bar>sql_round u 6 - u\<bar> \<le> 1 / (2 * 10 ^ 6)"
    by (rule sql_round_error)+
  ultimately show ?thesis by linarith
qed

lemma sql_round_examples:
  "sql_round (1 / 3) 6 = 333333 / 1000000"
  "sql_round (- 1 / 3) 6 = - 333333 / 1000000"
  "sql_round (2 / 3) 6 = 666667 / 1000000"
  "sql_round (- (1 / 3)) 6 = - (333333 / 1000000)"
  "sql_round 2 6 = 2" "sql_round 0 6 = 0" "sql_round 1 6 = 1" "sql_round (- 1) 6 = - 1"
  by (simp_all add: sql_round_def)

lemma ex2_nth:
  "ex2_comps ! 0 = ex_fac ''010001'' 6 4" "ex2_comps ! 10 = next_fac ''010001'' 8 2"
  "ex_fac ''010001'' 6 4 \<in> set ex2_comps" "next_fac ''010001'' 8 2 \<in> set ex2_comps"
  "mds_composite (ex_fac ''010001'' 6 4) = Some 6" "claims_utilization (ex_fac ''010001'' 6 4) = Some 4"
  "mds_composite (next_fac ''010001'' 8 2) = Some 8" "claims_utilization (next_fac ''010001'' 8 2) = Some 2"
  by (simp_all add: ex2_comps_def next_comps_def ex_comps_def ex_facilities_def ex2_facilities_def
        ex_fac_def next_fac_def)

lemma ex2_table_nth:
  assumes "i < 20"
  shows "ex2_table ! i = stored_row (final_select (with_crid_row 2 (map (z_of ex2_comps) ex2_comps)
            (z_of ex2_comps (ex2_comps ! i))))"
  unfolding ex2_run(4) using assms ex2_keys(2) by simp

lemma ex2_first_row:
  "crid_value (ex2_table ! 0) = Some (666667 / 1000000)"
  "mds_z_score (ex2_table ! 0) = Some (333333 / 1000000)"
  "claims_z_score (ex2_table ! 0) = Some (- 333333 / 1000000)"
proof -
  note z = ex2_z [OF ex2_nth(3,5,6)]
  have i: "(0::nat) < 20" by simp
  show "crid_value (ex2_table ! 0) = Some (666667 / 1000000)"
    unfolding ex2_table_nth [OF i] ex2_nth stored_row_values final_fields z
    by (simp add: round_12_6_def sql_round_examples)
  show "mds_z_score (ex2_table ! 0) = Some (333333 / 1000000)"
    unfolding ex2_table_nth [OF i] ex2_nth stored_row_values final_fields z
    by (simp add: round_12_6_def sql_round_examples)
  show "claims_z_score (ex2_table ! 0) = Some (- 333333 / 1000000)"
    unfolding ex2_table_nth [OF i] ex2_nth stored_row_values final_fields z
    by (simp add: round_12_6_def sql_round_examples)
qed

subsection \<open>C2: the score identity\<close>

text \<open>
  C2, as the code has it. Whenever \<^verbatim>\<open>crid_value\<close> is non-NULL in a row of the SELECT it is
  exactly the quality z-score minus the utilization z-score, and each z-score is the row's
  composite minus the mean, divided by the population standard deviation (\<open>stddev_pop\<close>
  divides by the number of values), both taken over the composites of all complete
  facilities of the row's (state, extract), none of which is NULL. The table stores each of
  the three values rounded to six decimals, so between the stored columns the identity holds
  within 1.5e-6.
\<close>

theorem score_identity:
  assumes "materialize_sql p mds claims defs = Inr out" "r \<in> set out" "crid_value r = Some v"
  shows "\<exists>q u cq cu qs us.
           mds_z_score r = Some q \<and> claims_z_score r = Some u \<and> v = q - u \<and>
           mds_composite r = Some cq \<and> claims_utilization r = Some cu \<and>
           map mds_composite (cohort out (state r) (extract_id r)) = map Some qs \<and>
           map claims_utilization (cohort out (state r) (extract_id r)) = map Some us \<and>
           q = (cq - avg qs) / stddev_pop qs \<and>
           u = (cu - avg us) / stddev_pop us \<and>
           crid_value (stored_row r) = Some (sql_round v 6) \<and>
           mds_z_score (stored_row r) = Some (sql_round q 6) \<and>
           claims_z_score (stored_row r) = Some (sql_round u 6) \<and>
           \<bar>sql_round v 6 - (sql_round q 6 - sql_round u 6)\<bar> \<le> 3 / (2 * 10 ^ 6)"
proof -
  obtain q u cq cu qs us where s: "mds_z_score r = Some q" "claims_z_score r = Some u" "v = q - u"
      "mds_composite r = Some cq" "claims_utilization r = Some cu"
      "map mds_composite (cohort out (state r) (extract_id r)) = map Some qs"
      "map claims_utilization (cohort out (state r) (extract_id r)) = map Some us"
      "q = (cq - avg qs) / stddev_pop qs" "u = (cu - avg us) / stddev_pop us"
    using score_identity_select [OF assms] by blast
  have st: "crid_value (stored_row r) = Some (sql_round v 6)"
    "mds_z_score (stored_row r) = Some (sql_round q 6)"
    "claims_z_score (stored_row r) = Some (sql_round u 6)"
    by (simp_all add: stored_row_values round_12_6_def assms(3) s(1,2))
  show ?thesis
    using s st stored_identity [OF s(3)] by blast
qed

text \<open>
  The claim that the identity holds within 1e-9 fails on the stored rows: after a full run
  on the two-period example, the first row of the table has the z-scores 0.333333 and
  -0.333333 and the score 0.666667, which differs from their difference by 1e-6.
\<close>

theorem score_identity_counterexample:
  "snd (main (full_run 3) ex2_conn) = None \<and>
   crid_value (ex2_table ! 0) = Some (666667 / 1000000) \<and>
   mds_z_score (ex2_table ! 0) = Some (333333 / 1000000) \<and>
   claims_z_score (ex2_table ! 0) = Some (- 333333 / 1000000) \<and>
   \<not> \<bar>the (crid_value (ex2_table ! 0)) -
       (the (mds_z_score (ex2_table ! 0)) - the (claims_z_score (ex2_table ! 0)))\<bar> < 1 / 10 ^ 9"
  unfolding ex2_first_row ex2_run(3) by simp

theorem score_identity_witness:
  "\<exists>out r. materialize_sql 2 ex_mds ex_claims ex_defs = Inr out \<and> r \<in> set out \<and>
      crid_value r = Some (2 / 3) \<and> mds_z_score r = Some (1 / 3) \<and>
      claims_z_score r = Some (- 1 / 3) \<and>
      (\<exists>cq cu qs us.
           mds_composite r = Some cq \<and> claims_utilization r = Some cu \<and>
           map mds_composite (cohort out (state r) (extract_id r)) = map Some qs \<and>
           map claims_utilization (cohort out (state r) (extract_id r)) = map Some us \<and>
           1 / 3 = (cq - avg qs) / stddev_pop qs \<and>
           - 1 / 3 = (cu - avg us) / stddev_pop us) \<and>
      crid_value (stored_row r) = Some (666667 / 1000000) \<and>
      mds_z_score (stored_row r) = Some (333333 / 1000000) \<and>
      claims_z_score (stored_row r) = Some (- 333333 / 1000000)"
proof -
  obtain out where out: "materialize_sql 2 ex_mds ex_claims ex_defs = Inr out"
    by (simp add: materialize_sql_total)
  let ?r = "final_select (with_crid_row 2 (map (z_of ex_comps) ex_comps) (z_of ex_comps (ex_fac ''010001'' 6 4)))"
  have r: "?r \<in> set out" by (rule ex_output [OF out])
  have c: "crid_value ?r = Some (2 / 3)" by (rule ex_crid)
  have z: "mds_z_score ?r = Some (1 / 3)" "claims_z_score ?r = Some (- 1 / 3)"
    by (simp_all add: final_fields ex_z)
  obtain q u cq cu qs us where s: "mds_z_score ?r = Some q" "claims_z_score ?r = Some u"
      "mds_composite ?r = Some cq" "claims_utilization ?r = Some cu"
      "map mds_composite (cohort out (state ?r) (extract_id ?r)) = map Some qs"
      "map claims_utilization (cohort out (state ?r) (extract_id ?r)) = map Some us"
      "q = (cq - avg qs) / stddev_pop qs" "u = (cu - avg us) / stddev_pop us"
      "crid_value (stored_row ?r) = Some (sql_round (2 / 3) 6)"
      "mds_z_score (stored_row ?r) = Some (sql_round q 6)"
      "claims_z_score (stored_row ?r) = Some (sql_round u 6)"
    using score_identity [OF out r c] by blast
  have q: "q = 1 / 3" "u = - 1 / 3" using s(1,2) z by simp_all
  have "(\<exists>cq cu qs us.
           mds_composite ?r = Some cq \<and> claims_utilization ?r = Some cu \<and>
           map mds_composite (cohort out (state ?r) (extract_id ?r)) = map Some qs \<and>
           map claims_utilization (cohort out (state ?r) (extract_id ?r)) = map Some us \<and>
           1 / 3 = (cq - avg qs) / stddev_pop qs \<and>
           - 1 / 3 = (cu - avg us) / stddev_pop us)"
    using s(3-8) unfolding q by blast
  moreover have "crid_value (stored_row ?r) = Some (666667 / 1000000)"
      "mds_z_score (stored_row ?r) = Some (333333 / 1000000)"
      "claims_z_score (stored_row ?r) = Some (- 333333 / 1000000)"
    using s(9-11) unfolding q by (simp_all add: sql_round_examples)
  ultimately show ?thesis
    using out r c z by (intro exI [of _ out] exI [of _ ?r]) blast
qed

end
